theory Spec2Isabelle
  imports Main "HOL-Library.Sublist"
begin

section \<open>Strings of the runtime\<close>

text \<open>
  A JavaScript string is modelled as a \<^typ>\<open>string\<close>: a list of code units, restricted to the
  8-bit range (Latin-1). \<open>length\<close> is what \<^verbatim>\<open>s.length\<close> counts. The white space that
  \<^verbatim>\<open>String.prototype.trim\<close> strips is, in this range, TAB, LF, VT, FF, CR, SPACE and
  NO-BREAK SPACE.
\<close>

definition isWhiteSpace :: "char \<Rightarrow> bool" where
  "isWhiteSpace c =
     (c = CHR 0x09 \<or> c = CHR 0x0A \<or> c = CHR 0x0B \<or> c = CHR 0x0C \<or> c = CHR 0x0D \<or>
      c = CHR 0x20 \<or> c = CHR 0xA0)"

definition trim :: "string \<Rightarrow> string" where
  "trim s = rev (dropWhile isWhiteSpace (rev (dropWhile isWhiteSpace s)))"

section \<open>Data model (types.ts)\<close>

text \<open>
  The interfaces of \<^verbatim>\<open>types.ts\<close> as records. Field names are the source's, except where
  two interfaces share a name: the fields of the \<^verbatim>\<open>compile\<close> object are \<open>c_command\<close>,
  \<open>c_args\<close> and \<open>c_timeout\<close>, and those of \<^verbatim>\<open>TestCaseResult\<close> that \<^verbatim>\<open>TestCase\<close>
  and \<^verbatim>\<open>ExecutionResult\<close> have too are \<open>res_input\<close>, \<open>res_expected\<close>, \<open>res_error\<close> and
  \<open>res_executionTime\<close>. An optional field is an \<open>option\<close>. Timeouts are milliseconds.
\<close>

record CompileConfig =
  c_command :: string
  c_args :: "string list"
  c_timeout :: nat

record LanguageConfig =
  name :: string
  displayName :: string
  extension :: string
  command :: string
  args :: "string list"
  timeout :: nat
  compile :: "CompileConfig option"
  filename :: "string option"

record CommandResult =
  stdout :: string
  stderr :: string
  exitCode :: int

record TestCase =
  input :: string
  expected :: string

record TestCaseResult =
  res_input :: string
  res_expected :: string
  actualOutput :: string
  passed :: bool
  res_error :: "string option"
  res_executionTime :: int

datatype Status = StatusSuccess | StatusError

text \<open>\<open>output\<close> is a keyword of the theory language: the field is \<open>output'\<close> here.\<close>

record ExecutionResult =
  output' :: string
  error :: string
  executionTime :: int
  status :: Status
  testCases :: "TestCaseResult list option"

text \<open>
  A thrown value: an \<^verbatim>\<open>Error\<close> instance with its message, or anything else. The
  executor reads it with \<^verbatim>\<open>error instanceof Error ? error.message : 'Unknown error'\<close>.
\<close>

datatype js_error = Error string | NonError

fun error_message :: "js_error \<Rightarrow> string" where
  "error_message (Error m) = m"
| "error_message NonError = ''Unknown error''"

section \<open>runCommand: one child process\<close>

definition MAX_OUTPUT_SIZE :: nat where
  "MAX_OUTPUT_SIZE = 1024 * 1024"

text \<open>
  What the child and the timer do, in the order in which the event loop delivers it: data
  on stdout or stderr, the timer of \<^verbatim>\<open>setTimeout\<close> firing, the \<^verbatim>\<open>close\<close> event with
  the exit code (\<^verbatim>\<open>null\<close> when a signal ended the child), the \<^verbatim>\<open>error\<close> event of the
  child, and the \<^verbatim>\<open>error\<close> event of the stream \<^verbatim>\<open>process.stdin\<close>: the write of the input
  failed (\<^verbatim>\<open>EPIPE\<close>), which happens when the child exits or is killed before it has read
  an input that is larger than the pipe takes at once.
\<close>

datatype proc_event =
    StdoutData string
  | StderrData string
  | TimerFired
  | Close "int option"
  | ProcError js_error
  | StdinError

text \<open>
  The variables of the promise executor of \<^verbatim>\<open>runCommand\<close>: the two accumulators,
  \<^verbatim>\<open>killed\<close>, whether the timer is still scheduled, the signals that the executor itself
  sends with \<^verbatim>\<open>process.kill\<close>, and the promise (\<open>None\<close> while pending; a promise settles
  once, later calls of \<^verbatim>\<open>resolve\<close> and \<^verbatim>\<open>reject\<close> do nothing). The \<^verbatim>\<open>timeout\<close> that
  \<^verbatim>\<open>spawn\<close> is given as an option makes the runtime send \<^verbatim>\<open>SIGTERM\<close> on a timer of its
  own; that signal is the runtime's and is not in \<open>signals\<close>.
\<close>

record run_state =
  acc_stdout :: string
  acc_stderr :: string
  killed :: bool
  timer_pending :: bool
  signals :: "string list"
  promise :: "(js_error + CommandResult) option"

definition settle :: "js_error + CommandResult \<Rightarrow> run_state \<Rightarrow> run_state" where
  "settle r st = (case promise st of None \<Rightarrow> st\<lparr>promise := Some r\<rparr> | Some _ \<Rightarrow> st)"

definition kill_and_reject :: "string \<Rightarrow> run_state \<Rightarrow> run_state" where
  "kill_and_reject msg st =
     settle (Inl (Error msg)) (st\<lparr>killed := True, signals := signals st @ [''SIGKILL'']\<rparr>)"

definition on_timeout :: "run_state \<Rightarrow> run_state" where
  "on_timeout st =
     (if timer_pending st
      then kill_and_reject ''Execution timeout'' (st\<lparr>timer_pending := False\<rparr>)
      else st)"

definition on_stdout :: "string \<Rightarrow> run_state \<Rightarrow> run_state" where
  "on_stdout d st =
     (let st1 = st\<lparr>acc_stdout := acc_stdout st @ d\<rparr>
      in if length (acc_stdout st1) > MAX_OUTPUT_SIZE
         then kill_and_reject ''Output size exceeded limit'' st1
         else st1)"

definition on_stderr :: "string \<Rightarrow> run_state \<Rightarrow> run_state" where
  "on_stderr d st =
     (let st1 = st\<lparr>acc_stderr := acc_stderr st @ d\<rparr>
      in if length (acc_stderr st1) > MAX_OUTPUT_SIZE
         then kill_and_reject ''Error output size exceeded limit'' st1
         else st1)"

definition exit_code_or_0 :: "int option \<Rightarrow> int" where
  "exit_code_or_0 code = (case code of None \<Rightarrow> 0 | Some c \<Rightarrow> c)"

definition on_close :: "int option \<Rightarrow> run_state \<Rightarrow> run_state" where
  "on_close code st =
     (let st1 = st\<lparr>timer_pending := False\<rparr>
      in if \<not> killed st1
         then settle (Inr \<lparr>stdout = trim (acc_stdout st1), stderr = trim (acc_stderr st1),
                           exitCode = exit_code_or_0 code\<rparr>) st1
         else st1)"

definition on_error :: "js_error \<Rightarrow> run_state \<Rightarrow> run_state" where
  "on_error e st =
     (let st1 = st\<lparr>timer_pending := False\<rparr>
      in if \<not> killed st1 then settle (Inl e) st1 else st1)"

fun handle :: "run_state \<Rightarrow> proc_event \<Rightarrow> run_state" where
  "handle st (StdoutData d) = on_stdout d st"
| "handle st (StderrData d) = on_stderr d st"
| "handle st TimerFired = on_timeout st"
| "handle st (Close code) = on_close code st"
| "handle st (ProcError e) = on_error e st"
| "handle st StdinError = st"

definition initial_run :: run_state where
  "initial_run = \<lparr>acc_stdout = [], acc_stderr = [], killed = False, timer_pending = True,
                   signals = [], promise = None\<rparr>"

text \<open>
  The run of one child: the handlers applied to its events in order. When the events end
  with the timer still scheduled, nothing is left to clear it and it fires. No handler of
  the promise executor listens to the stream \<^verbatim>\<open>process.stdin\<close>: its error event changes
  none of the variables and does not settle the promise.
\<close>

definition run_events :: "proc_event list \<Rightarrow> run_state" where
  "run_events evs = foldl handle initial_run evs"

definition run_child :: "proc_event list \<Rightarrow> run_state" where
  "run_child evs = on_timeout (run_events evs)"

definition child_outcome :: "proc_event list \<Rightarrow> (js_error + CommandResult) option" where
  "child_outcome evs = promise (run_child evs)"

text \<open>
  The invariant of the handlers: a pending promise means that nothing was killed and the
  timer is still scheduled; while nothing was killed both accumulators are within the
  cap; a resolved promise holds outputs within the cap.
\<close>

definition run_inv :: "run_state \<Rightarrow> bool" where
  "run_inv st \<longleftrightarrow>
     (promise st = None \<longrightarrow> \<not> killed st \<and> timer_pending st) \<and>
     (\<not> killed st \<longrightarrow>
        length (acc_stdout st) \<le> MAX_OUTPUT_SIZE \<and> length (acc_stderr st) \<le> MAX_OUTPUT_SIZE) \<and>
     (\<forall>r. promise st = Some (Inr r) \<longrightarrow>
        length (stdout r) \<le> MAX_OUTPUT_SIZE \<and> length (stderr r) \<le> MAX_OUTPUT_SIZE)"

section \<open>Argument substitution\<close>

text \<open>
  \<^verbatim>\<open>String.prototype.replace\<close> with a string pattern, as ECMAScript defines it: the
  position of the first occurrence (\<open>indexOf\<close>), the replacement expanded by
  \<open>getSubstitution\<close> (\<^verbatim>\<open>$$\<close>, \<^verbatim>\<open>$&\<close>, \<^verbatim>\<open>$`\<close>, \<^verbatim>\<open>$'\<close>; a string pattern
  has no captures, so \<^verbatim>\<open>$1\<close> and \<^verbatim>\<open>$<\<close> stay as they are), and the text before and
  after the match.
\<close>

fun indexOf :: "string \<Rightarrow> string \<Rightarrow> nat option" where
  "indexOf pat [] = (if pat = [] then Some 0 else None)"
| "indexOf pat (c # cs) =
     (if prefix pat (c # cs) then Some 0 else map_option Suc (indexOf pat cs))"

fun getSubstitution :: "string \<Rightarrow> string \<Rightarrow> nat \<Rightarrow> string \<Rightarrow> string" where
  "getSubstitution matched str pos [] = []"
| "getSubstitution matched str pos [c] = [c]"
| "getSubstitution matched str pos (c # d # rest) =
     (if c = CHR ''$'' \<and> d = CHR ''$'' then CHR ''$'' # getSubstitution matched str pos rest
      else if c = CHR ''$'' \<and> d = CHR ''&'' then matched @ getSubstitution matched str pos rest
      else if c = CHR ''$'' \<and> d = CHR 0x60
        then take pos str @ getSubstitution matched str pos rest
      else if c = CHR ''$'' \<and> d = CHR 0x27
        then drop (pos + length matched) str @ getSubstitution matched str pos rest
      else c # getSubstitution matched str pos (d # rest))"

definition js_replace :: "string \<Rightarrow> string \<Rightarrow> string \<Rightarrow> string" where
  "js_replace pat rep s =
     (case indexOf pat s of
        None \<Rightarrow> s
      | Some pos \<Rightarrow> take pos s @ getSubstitution pat s pos rep @ drop (pos + length pat) s)"

text \<open>
  The arrow function mapped over \<^verbatim>\<open>langConfig.args\<close> and
  \<^verbatim>\<open>langConfig.compile.args\<close>:
  \<^verbatim>\<open>arg.replace('{file}', filepath).replace('{dir}', sessionDir).replace('{filename}', filename)\<close>.
\<close>

definition substitute :: "string \<Rightarrow> string \<Rightarrow> string \<Rightarrow> string \<Rightarrow> string" where
  "substitute filepath sessionDir fname arg =
     js_replace ''{filename}'' fname
       (js_replace ''{dir}'' sessionDir (js_replace ''{file}'' filepath arg))"

text \<open>
  \<open>s'\<close> is \<open>s\<close> with only the first occurrence of \<open>tok\<close> replaced by \<open>v\<close>: when \<open>tok\<close>
  occurs in \<open>s\<close>, the text before its leftmost occurrence, then \<open>v\<close>, then the text after
  that occurrence as it is; otherwise \<open>s\<close> itself.
\<close>

definition replaces_first_only :: "string \<Rightarrow> string \<Rightarrow> string \<Rightarrow> string \<Rightarrow> bool" where
  "replaces_first_only tok v s s' \<longleftrightarrow>
     (if \<exists>pre post. s = pre @ tok @ post
      then \<exists>pre post. s = pre @ tok @ post \<and>
             (\<forall>k < length pre. \<not> prefix tok (drop k s)) \<and> s' = pre @ v @ post
      else s' = s)"

text \<open>
  A substituted value is plain when it holds no brace that could open a token and no
  dollar sign that \<open>getSubstitution\<close> could expand.
\<close>

definition plain :: "string \<Rightarrow> bool" where
  "plain v \<longleftrightarrow> CHR ''{'' \<notin> set v \<and> CHR ''$'' \<notin> set v"

section \<open>The compile-cache key\<close>

text \<open>\<^verbatim>\<open>Array.prototype.join\<close> on an array of strings.\<close>

fun join :: "string \<Rightarrow> string list \<Rightarrow> string" where
  "join sep [] = []"
| "join sep [x] = x"
| "join sep (x # y # ys) = x @ sep @ join sep (y # ys)"

text \<open>
  \<^verbatim>\<open>crypto.createHash('sha256').update(x).digest('hex')\<close> is the library's: the digest
  function is the parameter \<open>digest\<close>.
\<close>

definition hashContent :: "(string \<Rightarrow> string) \<Rightarrow> string \<Rightarrow> string \<Rightarrow> string" where
  "hashContent digest content salt = digest (salt @ [CHR 0x0A] @ content)"

definition cacheKey :: "(string \<Rightarrow> string) \<Rightarrow> LanguageConfig \<Rightarrow> CompileConfig \<Rightarrow> string \<Rightarrow> string" where
  "cacheKey digest langConfig cc code =
     hashContent digest code
       (name langConfig @ '':'' @ c_command cc @ '':'' @ join '' '' (c_args cc))"

text \<open>
  The key as the specification words it: the digest of the language name, a line feed, the
  compile command, a space, the compile arguments joined by single spaces, a line feed,
  and the source.
\<close>

definition spec_cacheKey :: "(string \<Rightarrow> string) \<Rightarrow> LanguageConfig \<Rightarrow> CompileConfig \<Rightarrow> string \<Rightarrow> string" where
  "spec_cacheKey digest langConfig cc code =
     digest (name langConfig @ [CHR 0x0A] @ c_command cc @ '' '' @ join '' '' (c_args cc)
             @ [CHR 0x0A] @ code)"

section \<open>The executor's surroundings\<close>

text \<open>
  What the executor asks of the runtime and the operating system is a parameter of the
  model: the language registry, the readings of \<^verbatim>\<open>Date.now()\<close> (the k-th call reads
  \<open>clock k\<close>), the session id, \<^verbatim>\<open>path.join\<close> and \<^verbatim>\<open>path.dirname\<close>, the digest, the
  platform, what the k-th spawned child does, and the file system: whether a call rejects
  (and with what), whether a path exists, what a directory lists. The answers of the file
  system may change from call to call: each takes the number of file-system calls made
  before it.
\<close>

datatype fs_op =
    Mkdir string
  | WriteFile string string
  | Stat string
  | CopyFileOp string string
  | CopyDirOp string string
  | Readdir string
  | Rm string

record Env =
  getLanguage :: "string \<Rightarrow> LanguageConfig option"
  clock :: "nat \<Rightarrow> int"
  uuidv4 :: string
  path_join :: "string \<Rightarrow> string \<Rightarrow> string"
  path_dirname :: "string \<Rightarrow> string"
  sha256_hex :: "string \<Rightarrow> string"
  win32 :: bool
  fs_rejects :: "nat \<Rightarrow> fs_op \<Rightarrow> js_error option"
  path_exists :: "nat \<Rightarrow> string \<Rightarrow> bool"
  dir_entries :: "nat \<Rightarrow> string \<Rightarrow> string list"
  child :: "nat \<Rightarrow> proc_event list"

text \<open>A spawned process: command, arguments, working directory, stdin, timeout.\<close>

type_synonym spawn_call = "string \<times> string list \<times> string \<times> string \<times> nat"

text \<open>
  What the executor has done so far: how often it read the clock, the processes it
  spawned and the file-system calls it made, each in order.
\<close>

record World =
  clock_reads :: nat
  spawns :: "spawn_call list"
  fs_ops :: "fs_op list"

definition Date_now :: "Env \<Rightarrow> World \<Rightarrow> int \<times> World" where
  "Date_now env w = (clock env (clock_reads w), w\<lparr>clock_reads := Suc (clock_reads w)\<rparr>)"

definition fs_call :: "Env \<Rightarrow> fs_op \<Rightarrow> World \<Rightarrow> js_error option \<times> World" where
  "fs_call env op w = (fs_rejects env (length (fs_ops w)) op, w\<lparr>fs_ops := fs_ops w @ [op]\<rparr>)"

text \<open>
  How an awaited call of \<^verbatim>\<open>runCommand\<close> ends. Its last statements are
  \<^verbatim>\<open>if (input) { process.stdin.write(input); } process.stdin.end();\<close> and the stream has
  no listener for its error event. When the write fails, the error event is an uncaught
  exception, which nothing in the program handles: the Node process ends, and the call of
  \<^verbatim>\<open>executeCode\<close> that is running neither returns nor throws (\<open>ProcessExits\<close>). An
  empty input is not written. Otherwise the call ends as the promise does. The events of a
  child are those delivered while the call of \<^verbatim>\<open>executeCode\<close> is running: a failed write
  ends the process before that call returns, also when the promise of the run has settled
  first (a timeout kills the child, and the write fails then). What the executor did
  between the settling of such a run and the end of the process is not recorded: the
  \<open>World\<close> at the end of the process is the one in which the run was started, with its
  spawn.
\<close>

datatype run_end = ProcessExits | Unsettled | Settled "js_error + CommandResult"

definition runCommand ::
  "Env \<Rightarrow> string \<Rightarrow> string list \<Rightarrow> string \<Rightarrow> string \<Rightarrow> nat \<Rightarrow> World \<Rightarrow> run_end \<times> World" where
  "runCommand env cmd as cwd inp t w =
     (let evs = child env (length (spawns w)) in
      if inp \<noteq> [] \<and> StdinError \<in> set evs then ProcessExits
      else (case child_outcome evs of None \<Rightarrow> Unsettled | Some r \<Rightarrow> Settled r),
      w\<lparr>spawns := spawns w @ [(cmd, as, cwd, inp, t)]\<rparr>)"

definition TEMP_DIR :: "Env \<Rightarrow> string" where
  "TEMP_DIR env =
     (if win32 env then ''C:'' @ [CHR 0x5C] @ ''temp'' @ [CHR 0x5C] @ ''code-execution''
      else ''/tmp/code-execution'')"

definition CACHE_DIR :: "Env \<Rightarrow> string" where
  "CACHE_DIR env =
     (if win32 env then ''C:'' @ [CHR 0x5C] @ ''temp'' @ [CHR 0x5C] @ ''sentinel-cache''
      else ''/tmp/sentinel-cache'')"

definition ensureDir :: "Env \<Rightarrow> string \<Rightarrow> World \<Rightarrow> js_error option \<times> World" where
  "ensureDir env dir w = fs_call env (Mkdir dir) w"

definition copyFile :: "Env \<Rightarrow> string \<Rightarrow> string \<Rightarrow> World \<Rightarrow> js_error option \<times> World" where
  "copyFile env src dest w =
     (case ensureDir env (path_dirname env dest) w of
        (Some e, w1) \<Rightarrow> (Some e, w1)
      | (None, w1) \<Rightarrow> fs_call env (CopyFileOp src dest) w1)"

text \<open>
  \<^verbatim>\<open>copyDir\<close> walks a directory tree; the executor observes of it only whether it
  rejects, so the walk is one call here.
\<close>

definition copyDir :: "Env \<Rightarrow> string \<Rightarrow> string \<Rightarrow> World \<Rightarrow> js_error option \<times> World" where
  "copyDir env srcDir destDir w = fs_call env (CopyDirOp srcDir destDir) w"

definition pathExists :: "Env \<Rightarrow> string \<Rightarrow> World \<Rightarrow> bool \<times> World" where
  "pathExists env p w =
     (path_exists env (length (fs_ops w)) p, w\<lparr>fs_ops := fs_ops w @ [Stat p]\<rparr>)"

section \<open>executeCode\<close>

text \<open>
  How a call of \<^verbatim>\<open>executeCode\<close> ends: its promise stays pending, the Node process ends
  while it is running (it neither returns nor throws, and nothing of it is run any more, the
  \<^verbatim>\<open>catch\<close> and \<^verbatim>\<open>finally\<close> blocks included), it rejects (the caller's \<^verbatim>\<open>await\<close>
  throws), or it resolves with a result. Inside the function a step either ends the call
  (\<open>Done\<close>) or goes on with a value (\<open>Next\<close>).
\<close>

datatype outcome = Pending | ProcessDied | Throws js_error | Returns ExecutionResult

datatype 'a flow = Done outcome | Next 'a

definition source_filename :: "LanguageConfig \<Rightarrow> string" where
  "source_filename langConfig =
     (case filename langConfig of
        None \<Rightarrow> ''main'' @ extension langConfig
      | Some f \<Rightarrow> if f = [] then ''main'' @ extension langConfig else f)"

definition compile_timeout :: "CompileConfig \<Rightarrow> nat" where
  "compile_timeout cc = (if c_timeout cc = 0 then 10000 else c_timeout cc)"

text \<open>The cache lookup per language: \<open>Next cacheHit\<close>, or the rejection of a copy.\<close>

definition cache_lookup ::
  "Env \<Rightarrow> LanguageConfig \<Rightarrow> string \<Rightarrow> string \<Rightarrow> World \<Rightarrow> bool flow \<times> World" where
  "cache_lookup env langConfig langCacheDir sessionDir w =
     (if name langConfig = ''cpp'' then
        (let cachedBin = path_join env langCacheDir ''program'' in
         case pathExists env cachedBin w of
           (False, w1) \<Rightarrow> (Next False, w1)
         | (True, w1) \<Rightarrow>
             (case copyFile env cachedBin (path_join env sessionDir ''program'') w1 of
                (Some e, w2) \<Rightarrow> (Done (Throws e), w2)
              | (None, w2) \<Rightarrow> (Next True, w2)))
      else if name langConfig = ''java'' then
        (case pathExists env langCacheDir w of
           (False, w1) \<Rightarrow> (Next False, w1)
         | (True, w1) \<Rightarrow>
             (case pathExists env (path_join env langCacheDir ''Main.class'') w1 of
                (False, w2) \<Rightarrow> (Next False, w2)
              | (True, w2) \<Rightarrow>
                  (case copyDir env langCacheDir sessionDir w2 of
                     (Some e, w3) \<Rightarrow> (Done (Throws e), w3)
                   | (None, w3) \<Rightarrow> (Next True, w3))))
      else if name langConfig = ''typescript'' then
        (let cachedDist = path_join env langCacheDir ''dist'' in
         case pathExists env (path_join env cachedDist ''main.js'') w of
           (False, w1) \<Rightarrow> (Next False, w1)
         | (True, w1) \<Rightarrow>
             (case copyDir env cachedDist (path_join env sessionDir ''dist'') w1 of
                (Some e, w2) \<Rightarrow> (Done (Throws e), w2)
              | (None, w2) \<Rightarrow> (Next True, w2)))
      else (Next False, w))"

text \<open>
  Copying the \<^verbatim>\<open>.class\<close> files: the loop stops at the first copy that rejects (the
  surrounding \<^verbatim>\<open>try\<close> swallows it).
\<close>

fun copy_class_files :: "Env \<Rightarrow> string \<Rightarrow> string \<Rightarrow> string list \<Rightarrow> World \<Rightarrow> World" where
  "copy_class_files env sessionDir langCacheDir [] w = w"
| "copy_class_files env sessionDir langCacheDir (n # ns) w =
     (if suffix ''.class'' n then
        (case copyFile env (path_join env sessionDir n) (path_join env langCacheDir n) w of
           (Some e, w1) \<Rightarrow> w1
         | (None, w1) \<Rightarrow> copy_class_files env sessionDir langCacheDir ns w1)
      else copy_class_files env sessionDir langCacheDir ns w)"

text \<open>Saving the artifacts after a successful compile; every rejection is swallowed.\<close>

definition save_artifacts ::
  "Env \<Rightarrow> LanguageConfig \<Rightarrow> string \<Rightarrow> string \<Rightarrow> World \<Rightarrow> World" where
  "save_artifacts env langConfig langCacheDir sessionDir w =
     (let w1 = snd (ensureDir env langCacheDir w) in
      if name langConfig = ''cpp'' then
        (let bin = path_join env sessionDir ''program'' in
         case pathExists env bin w1 of
           (False, w2) \<Rightarrow> w2
         | (True, w2) \<Rightarrow> snd (copyFile env bin (path_join env langCacheDir ''program'') w2))
      else if name langConfig = ''java'' then
        (case fs_call env (Readdir sessionDir) w1 of
           (Some e, w2) \<Rightarrow> w2
         | (None, w2) \<Rightarrow>
             (case ensureDir env langCacheDir w2 of
                (Some e, w3) \<Rightarrow> w3
              | (None, w3) \<Rightarrow>
                  copy_class_files env sessionDir langCacheDir
                    (dir_entries env (length (fs_ops w1)) sessionDir) w3))
      else if name langConfig = ''typescript'' then
        (let distDir = path_join env sessionDir ''dist'' in
         case pathExists env distDir w1 of
           (False, w2) \<Rightarrow> w2
         | (True, w2) \<Rightarrow> snd (copyDir env distDir (path_join env langCacheDir ''dist'') w2))
      else w1)"

definition compile_failed :: "CommandResult \<Rightarrow> int \<Rightarrow> ExecutionResult" where
  "compile_failed compileResult elapsed =
     \<lparr>output' = [],
      error = ''Compilation failed: '' @
        (if stderr compileResult = [] then stdout compileResult else stderr compileResult),
      executionTime = elapsed, status = StatusError, testCases = None\<rparr>"

text \<open>The block \<^verbatim>\<open>if (langConfig.compile) { ... }\<close> of the executor with the cache.\<close>

definition compile_phase ::
  "Env \<Rightarrow> LanguageConfig \<Rightarrow> CompileConfig \<Rightarrow> string \<Rightarrow> string \<Rightarrow> string \<Rightarrow> string \<Rightarrow> int
   \<Rightarrow> World \<Rightarrow> unit flow \<times> World" where
  "compile_phase env langConfig cc code filepath sessionDir fname startTime w =
     (let w1 = snd (ensureDir env (CACHE_DIR env) w);
          key = cacheKey (sha256_hex env) langConfig cc code;
          langCacheDir = path_join env (path_join env (CACHE_DIR env) (name langConfig)) key
      in case cache_lookup env langConfig langCacheDir sessionDir w1 of
           (Done out, w2) \<Rightarrow> (Done out, w2)
         | (Next True, w2) \<Rightarrow> (Next (), w2)
         | (Next False, w2) \<Rightarrow>
             (let compileArgs = map (substitute filepath sessionDir fname) (c_args cc) in
              case runCommand env (c_command cc) compileArgs sessionDir [] (compile_timeout cc) w2 of
                (ProcessExits, w3) \<Rightarrow> (Done ProcessDied, w3)
              | (Unsettled, w3) \<Rightarrow> (Done Pending, w3)
              | (Settled (Inl e), w3) \<Rightarrow> (Done (Throws e), w3)
              | (Settled (Inr compileResult), w3) \<Rightarrow>
                  if exitCode compileResult \<noteq> 0 then
                    (case Date_now env w3 of
                       (t, w4) \<Rightarrow> (Done (Returns (compile_failed compileResult (t - startTime))), w4))
                  else (Next (), save_artifacts env langConfig langCacheDir sessionDir w3)))"

text \<open>
  One iteration of \<^verbatim>\<open>for (const testCase of testCases)\<close>: the result pushed for
  the case, from the outcome of its run and the time measured around it.
\<close>

definition case_result :: "TestCase \<Rightarrow> js_error + CommandResult \<Rightarrow> int \<Rightarrow> TestCaseResult" where
  "case_result testCase r testExecutionTime =
     (case r of
        Inr result \<Rightarrow>
          (let actual = trim (stdout result); exp = trim (expected testCase) in
           \<lparr>res_input = input testCase, res_expected = expected testCase,
            actualOutput = actual, passed = (actual = exp),
            res_error = (if stderr result = [] then None else Some (stderr result)),
            res_executionTime = testExecutionTime\<rparr>)
      | Inl e \<Rightarrow>
          \<lparr>res_input = input testCase, res_expected = expected testCase,
           actualOutput = [], passed = False,
           res_error = Some (error_message e),
           res_executionTime = testExecutionTime\<rparr>)"

text \<open>
  The loop over the test cases, with the array \<^verbatim>\<open>testCaseResults\<close> as accumulator:
  \<open>Next\<close> with the array when every case has been run. The \<^verbatim>\<open>try\<close> inside the loop
  catches the rejection of a run; the end of the process is not something it can catch.
\<close>

fun run_test_cases ::
  "Env \<Rightarrow> LanguageConfig \<Rightarrow> string \<Rightarrow> string \<Rightarrow> string \<Rightarrow> TestCase list
   \<Rightarrow> TestCaseResult list \<Rightarrow> World \<Rightarrow> TestCaseResult list flow \<times> World" where
  "run_test_cases env langConfig filepath sessionDir fname [] testCaseResults w =
     (Next testCaseResults, w)"
| "run_test_cases env langConfig filepath sessionDir fname (testCase # rest) testCaseResults w =
     (case Date_now env w of
        (testStartTime, w1) \<Rightarrow>
          (let executeArgs = map (substitute filepath sessionDir fname) (args langConfig) in
           case runCommand env (command langConfig) executeArgs sessionDir (input testCase)
                  (timeout langConfig) w1 of
             (ProcessExits, w2) \<Rightarrow> (Done ProcessDied, w2)
           | (Unsettled, w2) \<Rightarrow> (Done Pending, w2)
           | (Settled r, w2) \<Rightarrow>
               (case Date_now env w2 of
                  (t, w3) \<Rightarrow>
                    run_test_cases env langConfig filepath sessionDir fname rest
                      (testCaseResults @ [case_result testCase r (t - testStartTime)]) w3)))"

text \<open>
  \<^verbatim>\<open>testCases && testCases.length > 0\<close> holds when \<open>given_cases\<close> is not empty.
\<close>

definition given_cases :: "TestCase list option \<Rightarrow> TestCase list" where
  "given_cases tcs = (case tcs of None \<Rightarrow> [] | Some l \<Rightarrow> l)"

text \<open>What follows the compile block: the test-case branch, or the single run.\<close>

definition run_phase ::
  "Env \<Rightarrow> LanguageConfig \<Rightarrow> string \<Rightarrow> string \<Rightarrow> string \<Rightarrow> string \<Rightarrow> TestCase list option
   \<Rightarrow> int \<Rightarrow> World \<Rightarrow> outcome \<times> World" where
  "run_phase env langConfig filepath sessionDir fname inp tcs startTime w =
     (if given_cases tcs \<noteq> [] then
        (case run_test_cases env langConfig filepath sessionDir fname (given_cases tcs) [] w of
           (Done out, w1) \<Rightarrow> (out, w1)
         | (Next testCaseResults, w1) \<Rightarrow>
             (case Date_now env w1 of
                (t, w2) \<Rightarrow>
                  (Returns \<lparr>output' = [], error = [], executionTime = t - startTime,
                            status = StatusSuccess, testCases = Some testCaseResults\<rparr>, w2)))
      else
        (let executeArgs = map (substitute filepath sessionDir fname) (args langConfig) in
         case runCommand env (command langConfig) executeArgs sessionDir inp
                (timeout langConfig) w of
           (ProcessExits, w1) \<Rightarrow> (ProcessDied, w1)
         | (Unsettled, w1) \<Rightarrow> (Pending, w1)
         | (Settled (Inl e), w1) \<Rightarrow> (Throws e, w1)
         | (Settled (Inr result), w1) \<Rightarrow>
             (case Date_now env w1 of
                (t, w2) \<Rightarrow>
                  (Returns \<lparr>output' = stdout result, error = stderr result,
                            executionTime = t - startTime, status = StatusSuccess,
                            testCases = None\<rparr>, w2))))"

text \<open>
  The start of the \<^verbatim>\<open>try\<close> block: the session directory and the source file.
  \<open>Next (filepath, filename)\<close> when both calls went through.
\<close>

definition write_source ::
  "Env \<Rightarrow> LanguageConfig \<Rightarrow> string \<Rightarrow> string \<Rightarrow> World \<Rightarrow> (string \<times> string) flow \<times> World" where
  "write_source env langConfig code sessionDir w =
     (case fs_call env (Mkdir sessionDir) w of
        (Some e, w1) \<Rightarrow> (Done (Throws e), w1)
      | (None, w1) \<Rightarrow>
          (let fname = source_filename langConfig;
               filepath = path_join env sessionDir fname
           in case fs_call env (WriteFile filepath code) w1 of
                (Some e, w2) \<Rightarrow> (Done (Throws e), w2)
              | (None, w2) \<Rightarrow> (Next (filepath, fname), w2)))"

text \<open>
  The \<^verbatim>\<open>try\<close> block up to the end of the compile block: \<open>Next (filepath, filename)\<close>
  when the run may start.
\<close>

definition prepare ::
  "Env \<Rightarrow> LanguageConfig \<Rightarrow> string \<Rightarrow> string \<Rightarrow> int \<Rightarrow> World
   \<Rightarrow> (string \<times> string) flow \<times> World" where
  "prepare env langConfig code sessionDir startTime w =
     (case write_source env langConfig code sessionDir w of
        (Done out, w1) \<Rightarrow> (Done out, w1)
      | (Next (filepath, fname), w1) \<Rightarrow>
          (case compile langConfig of
             None \<Rightarrow> (Next (filepath, fname), w1)
           | Some cc \<Rightarrow>
               (case compile_phase env langConfig cc code filepath sessionDir fname startTime w1 of
                  (Done out, w2) \<Rightarrow> (Done out, w2)
                | (Next _, w2) \<Rightarrow> (Next (filepath, fname), w2))))"

text \<open>The body of the \<^verbatim>\<open>try\<close> block: \<open>Throws\<close> is what the \<^verbatim>\<open>catch\<close> receives.\<close>

definition try_body ::
  "Env \<Rightarrow> LanguageConfig \<Rightarrow> string \<Rightarrow> string \<Rightarrow> TestCase list option \<Rightarrow> string \<Rightarrow> int
   \<Rightarrow> World \<Rightarrow> outcome \<times> World" where
  "try_body env langConfig code inp tcs sessionDir startTime w =
     (case prepare env langConfig code sessionDir startTime w of
        (Done out, w1) \<Rightarrow> (out, w1)
      | (Next (filepath, fname), w1) \<Rightarrow>
          run_phase env langConfig filepath sessionDir fname inp tcs startTime w1)"

text \<open>The \<^verbatim>\<open>catch\<close> block of \<^verbatim>\<open>executeCode\<close>.\<close>

definition catch_block :: "Env \<Rightarrow> int \<Rightarrow> outcome \<times> World \<Rightarrow> outcome \<times> World" where
  "catch_block env startTime r =
     (case r of
        (Throws e, w) \<Rightarrow>
          (case Date_now env w of
             (t, w1) \<Rightarrow>
               (Returns \<lparr>output' = [], error = error_message e, executionTime = t - startTime,
                         status = StatusError, testCases = None\<rparr>, w1))
      | (out, w) \<Rightarrow> (out, w))"

text \<open>
  The \<^verbatim>\<open>finally\<close> block, reached when the \<^verbatim>\<open>try\<close> block is left: the session
  directory is removed, a rejection is logged and goes no further. It is not reached while
  a promise is pending, nor when the process has ended.
\<close>

definition finally_block :: "Env \<Rightarrow> string \<Rightarrow> outcome \<times> World \<Rightarrow> outcome \<times> World" where
  "finally_block env sessionDir r =
     (case r of
        (Pending, w) \<Rightarrow> (Pending, w)
      | (ProcessDied, w) \<Rightarrow> (ProcessDied, w)
      | (out, w) \<Rightarrow> (out, snd (fs_call env (Rm sessionDir) w)))"

definition executeCode ::
  "Env \<Rightarrow> string \<Rightarrow> string \<Rightarrow> string \<Rightarrow> TestCase list option \<Rightarrow> World \<Rightarrow> outcome \<times> World" where
  "executeCode env code language inp tcs w =
     (case Date_now env w of
        (startTime, w1) \<Rightarrow>
          (case getLanguage env language of
             None \<Rightarrow> (Throws (Error (''Unsupported language: '' @ language)), w1)
           | Some langConfig \<Rightarrow>
               (let sessionDir = path_join env (TEMP_DIR env) (uuidv4 env) in
                finally_block env sessionDir
                  (catch_block env startTime
                     (try_body env langConfig code inp tcs sessionDir startTime w1)))))"

text \<open>
  The call gets to the run: the language is registered, the session directory and the
  source file are written and the compile block, if there is one, is passed. The value
  holds the descriptor, the session directory, the path and the name of the source file,
  and what the executor has done until then.
\<close>

definition run_setup ::
  "Env \<Rightarrow> string \<Rightarrow> string \<Rightarrow> World
   \<Rightarrow> (LanguageConfig \<times> string \<times> string \<times> string \<times> World) option" where
  "run_setup env code language w =
     (case Date_now env w of
        (startTime, w1) \<Rightarrow>
          (case getLanguage env language of
             None \<Rightarrow> None
           | Some langConfig \<Rightarrow>
               (let sessionDir = path_join env (TEMP_DIR env) (uuidv4 env) in
                case prepare env langConfig code sessionDir startTime w1 of
                  (Done out, w2) \<Rightarrow> None
                | (Next (filepath, fname), w2) \<Rightarrow>
                    Some (langConfig, sessionDir, filepath, fname, w2))))"

definition initial_world :: World where
  "initial_world = \<lparr>clock_reads = 0, spawns = [], fs_ops = []\<rparr>"

section \<open>The executor without the compile cache\<close>

text \<open>
  The repository holds a second source of the executor, with no cache: its compile block
  awaits the compile command and goes on; the test-case branch, the single run, the
  \<^verbatim>\<open>catch\<close> and the \<^verbatim>\<open>finally\<close> are those above, and its temporary directory is
  \<^verbatim>\<open>/tmp/code-execution\<close> on every platform. Its \<^verbatim>\<open>runCommand\<close> writes a non-empty
  input to the child's stdin in the same way, with no listener for the stream's error event
  (\<^verbatim>\<open>if (input && process.stdin) { process.stdin.write(input); process.stdin.end(); }\<close>).
\<close>

definition compile_phase_uncached ::
  "Env \<Rightarrow> CompileConfig \<Rightarrow> string \<Rightarrow> string \<Rightarrow> string \<Rightarrow> World \<Rightarrow> unit flow \<times> World" where
  "compile_phase_uncached env cc filepath sessionDir fname w =
     (let compileArgs = map (substitute filepath sessionDir fname) (c_args cc) in
      case runCommand env (c_command cc) compileArgs sessionDir [] (compile_timeout cc) w of
        (ProcessExits, w1) \<Rightarrow> (Done ProcessDied, w1)
      | (Unsettled, w1) \<Rightarrow> (Done Pending, w1)
      | (Settled (Inl e), w1) \<Rightarrow> (Done (Throws e), w1)
      | (Settled (Inr compileResult), w1) \<Rightarrow> (Next (), w1))"

definition prepare_uncached ::
  "Env \<Rightarrow> LanguageConfig \<Rightarrow> string \<Rightarrow> string \<Rightarrow> World \<Rightarrow> (string \<times> string) flow \<times> World" where
  "prepare_uncached env langConfig code sessionDir w =
     (case write_source env langConfig code sessionDir w of
        (Done out, w1) \<Rightarrow> (Done out, w1)
      | (Next (filepath, fname), w1) \<Rightarrow>
          (case compile langConfig of
             None \<Rightarrow> (Next (filepath, fname), w1)
           | Some cc \<Rightarrow>
               (case compile_phase_uncached env cc filepath sessionDir fname w1 of
                  (Done out, w2) \<Rightarrow> (Done out, w2)
                | (Next _, w2) \<Rightarrow> (Next (filepath, fname), w2))))"

definition try_body_uncached ::
  "Env \<Rightarrow> LanguageConfig \<Rightarrow> string \<Rightarrow> string \<Rightarrow> TestCase list option \<Rightarrow> string \<Rightarrow> int
   \<Rightarrow> World \<Rightarrow> outcome \<times> World" where
  "try_body_uncached env langConfig code inp tcs sessionDir startTime w =
     (case prepare_uncached env langConfig code sessionDir w of
        (Done out, w1) \<Rightarrow> (out, w1)
      | (Next (filepath, fname), w1) \<Rightarrow>
          run_phase env langConfig filepath sessionDir fname inp tcs startTime w1)"

definition executeCode_uncached ::
  "Env \<Rightarrow> string \<Rightarrow> string \<Rightarrow> string \<Rightarrow> TestCase list option \<Rightarrow> World \<Rightarrow> outcome \<times> World" where
  "executeCode_uncached env code language inp tcs w =
     (case Date_now env w of
        (startTime, w1) \<Rightarrow>
          (case getLanguage env language of
             None \<Rightarrow> (Throws (Error (''Unsupported language: '' @ language)), w1)
           | Some langConfig \<Rightarrow>
               (let sessionDir = path_join env ''/tmp/code-execution'' (uuidv4 env) in
                finally_block env sessionDir
                  (catch_block env startTime
                     (try_body_uncached env langConfig code inp tcs sessionDir startTime w1)))))"

section \<open>The dispatcher's load balancer (master.ts)\<close>

fun getContainersForLanguage :: "string \<Rightarrow> js_error + string list" where
  "getContainersForLanguage language =
     (if language = ''python'' then Inr [''python-1'', ''python-2'']
      else if language = ''java'' then Inr [''java-1'', ''java-2'']
      else if language = ''javascript'' then Inr [''javascript-1'']
      else if language = ''cpp'' then Inr [''cpp-1'']
      else if language = ''go'' then Inr [''go-1'']
      else Inl (Error (''Unsupported language: '' @ language)))"

text \<open>
  The loop of \<^verbatim>\<open>selectContainer\<close> over \<^verbatim>\<open>containers.slice(1)\<close>. \<open>getWaiting c\<close> is
  the number of waiting jobs that the lookup on the queue of \<open>c\<close> returns; the last
  argument lists the queues looked up so far.
\<close>

fun select_loop ::
  "(string \<Rightarrow> nat) \<Rightarrow> string list \<Rightarrow> string \<Rightarrow> nat \<Rightarrow> string list \<Rightarrow> string \<times> string list" where
  "select_loop getWaiting [] bestContainer lowestQueueSize looked = (bestContainer, looked)"
| "select_loop getWaiting (container # rest) bestContainer lowestQueueSize looked =
     (let queueSize = getWaiting container in
      if queueSize < lowestQueueSize
      then select_loop getWaiting rest container queueSize (looked @ [container])
      else select_loop getWaiting rest bestContainer lowestQueueSize (looked @ [container]))"

text \<open>
  The selection among the containers of a language: the chosen container and the queues
  whose waiting jobs were looked up. On an empty list \<^verbatim>\<open>containers[0]\<close> is
  \<^verbatim>\<open>undefined\<close> and the lookup on it throws a \<^verbatim>\<open>TypeError\<close>.
\<close>

fun select_among :: "(string \<Rightarrow> nat) \<Rightarrow> string list \<Rightarrow> (js_error + string) \<times> string list" where
  "select_among getWaiting [] =
     (Inl (Error ''Cannot read properties of undefined (reading 'getWaiting')''), [])"
| "select_among getWaiting [c] = (Inr c, [])"
| "select_among getWaiting (c # d # rest) =
     (case select_loop getWaiting (d # rest) c (getWaiting c) [c] of
        (best, looked) \<Rightarrow> (Inr best, looked))"

definition selectContainer :: "(string \<Rightarrow> nat) \<Rightarrow> string \<Rightarrow> (js_error + string) \<times> string list" where
  "selectContainer getWaiting language =
     (case getContainersForLanguage language of
        Inl e \<Rightarrow> (Inl e, [])
      | Inr containers \<Rightarrow> select_among getWaiting containers)"

section \<open>Example configurations\<close>

text \<open>
  Two language descriptors of the kind the registry loads, and surroundings in which every
  file-system call goes through, nothing is cached, the k-th reading of the clock is
  \<open>1000 + 10 k\<close> and the children behave as \<open>procs\<close> says. They serve as concrete inputs.
\<close>

definition example_python :: LanguageConfig where
  "example_python =
     \<lparr>name = ''python'', displayName = ''Python'', extension = ''.py'', command = ''python3'',
      args = [''{file}''], timeout = 5000, compile = None, filename = None\<rparr>"

definition example_cpp :: LanguageConfig where
  "example_cpp =
     \<lparr>name = ''cpp'', displayName = ''C++'', extension = ''.cpp'', command = ''./program'',
      args = [], timeout = 5000,
      compile = Some \<lparr>c_command = ''g++'', c_args = [''-o'', ''program'', ''{file}''],
                       c_timeout = 10000\<rparr>,
      filename = None\<rparr>"

definition example_env :: "(nat \<Rightarrow> proc_event list) \<Rightarrow> Env" where
  "example_env procs =
     \<lparr>getLanguage = (\<lambda>n. if n = ''python'' then Some example_python
                          else if n = ''cpp'' then Some example_cpp else None),
      clock = (\<lambda>k. 1000 + 10 * int k),
      uuidv4 = ''s1'',
      path_join = (\<lambda>a b. a @ ''/'' @ b),
      path_dirname = (\<lambda>p. rev (drop 1 (dropWhile (\<lambda>c. c \<noteq> CHR ''/'') (rev p)))),
      sha256_hex = (\<lambda>s. s),
      win32 = False,
      fs_rejects = (\<lambda>_ _. None),
      path_exists = (\<lambda>_ _. False),
      dir_entries = (\<lambda>_ _. []),
      child = procs\<rparr>"

text \<open>
  Four test cases and the four children of their runs: one prints its result, one never
  ends and is stopped by the timer, one prints its result and a warning on stderr, one
  fails to spawn.
\<close>

definition example_cases :: "TestCase list" where
  "example_cases =
     [\<lparr>input = ''5'', expected = ''10''\<rparr>, \<lparr>input = [], expected = '' ''\<rparr>,
      \<lparr>input = ''0'', expected = ''0''\<rparr>, \<lparr>input = ''7'', expected = ''14''\<rparr>]"

definition example_procs :: "nat \<Rightarrow> proc_event list" where
  "example_procs k =
     (if k = 0 then [StdoutData (''10'' @ [CHR 0x0A]), Close (Some 0)]
      else if k = 1 then [StdoutData ''par'', TimerFired]
      else if k = 2 then [StderrData ''warn'', StdoutData '' 0 '', Close (Some 0)]
      else [ProcError (Error ''spawn python3 ENOENT'')])"

text \<open>
  Children for single runs: one that prints, writes a traceback to stderr and exits with
  code 1; one that a signal ends (the exit code is \<^verbatim>\<open>null\<close>); one that prints and
  never ends. And the children of a C++ job whose source does not compile: the compiler
  reports an error and exits with code 1, and \<^verbatim>\<open>./program\<close> does not exist.
\<close>

definition example_crash :: "nat \<Rightarrow> proc_event list" where
  "example_crash k = [StdoutData ''1 '', StderrData ''ZeroDivisionError'', Close (Some 1)]"

definition example_signalled :: "nat \<Rightarrow> proc_event list" where
  "example_signalled k = [StdoutData ''1'', Close None]"

definition example_hang :: "nat \<Rightarrow> proc_event list" where
  "example_hang k = [StdoutData ''1'']"

definition example_compile_error :: "nat \<Rightarrow> proc_event list" where
  "example_compile_error k =
     (if k = 0 then [StderrData ''main.cpp:1: error'', Close (Some 1)]
      else [ProcError (Error ''spawn ./program ENOENT'')])"

text \<open>Surroundings in which every file-system call is rejected.\<close>

definition example_readonly_env :: "(nat \<Rightarrow> proc_event list) \<Rightarrow> Env" where
  "example_readonly_env procs =
     (example_env procs)\<lparr>fs_rejects := (\<lambda>_ _. Some (Error ''EACCES: permission denied''))\<rparr>"

text \<open>
  An input of 500000 characters, more than the pipe to a child takes at once, and children
  that do not read it. In a single run: the program prints a line and exits with code 0;
  the rest of the input is still to be written when the child is gone, and the write
  fails. In test-case mode: the program of the first case loops and never reads; the timer
  fires, the executor kills the child, and the write fails; the children of the other
  cases loop as well, with an input that the pipe takes. The last list holds the same two
  cases with a short input for the first one too.
\<close>

definition large_input :: string where
  "large_input = replicate 500000 (CHR ''7'')"

definition example_unread :: "nat \<Rightarrow> proc_event list" where
  "example_unread k = [StdoutData (''1'' @ [CHR 0x0A]), StdinError, Close (Some 0)]"

definition example_large_cases :: "TestCase list" where
  "example_large_cases =
     [\<lparr>input = large_input, expected = ''14''\<rparr>, \<lparr>input = ''5'', expected = ''10''\<rparr>]"

definition example_unread_loop :: "nat \<Rightarrow> proc_event list" where
  "example_unread_loop k = (if k = 0 then [TimerFired, StdinError] else [TimerFired])"

definition example_loop :: "nat \<Rightarrow> proc_event list" where
  "example_loop k = [TimerFired]"

definition example_small_cases :: "TestCase list" where
  "example_small_cases =
     [\<lparr>input = ''7'', expected = ''14''\<rparr>, \<lparr>input = ''5'', expected = ''10''\<rparr>]"

section \<open>Facts about trim\<close>

lemma length_trim: "length (trim s) \<le> length s"
  using length_dropWhile_le[of isWhiteSpace "rev (dropWhile isWhiteSpace s)"]
    length_dropWhile_le[of isWhiteSpace s]
  by (simp add: trim_def)

lemma dropWhile_rev_dropWhile:
  "dropWhile P (rev (dropWhile P (rev (dropWhile P s)))) = rev (dropWhile P (rev (dropWhile P s)))"
proof (cases "dropWhile P (rev (dropWhile P s)) = []")
  case True
  show ?thesis by (simp only: True rev.simps dropWhile.simps)
next
  case False
  define t where "t = dropWhile P s"
  define u where "u = dropWhile P (rev t)"
  have u: "u \<noteq> []" using False by (simp add: u_def t_def)
  have "rev t = takeWhile P (rev t) @ u" by (simp add: u_def)
  then have "t = rev u @ rev (takeWhile P (rev t))"
    by (metis rev_append rev_rev_ident)
  then have hd_eq: "hd t = hd (rev u)" using u by (metis hd_append2 rev_is_Nil_conv)
  have "t \<noteq> []" using u by (auto simp: u_def)
  then have "\<not> P (hd t)" unfolding t_def by (rule hd_dropWhile)
  then have "\<not> P (hd (rev u))" using hd_eq by simp
  then have "dropWhile P (rev u) = rev u"
    using u by (cases "rev u") auto
  then show ?thesis by (simp add: u_def t_def)
qed

lemma trim_idem: "trim (trim s) = trim s"
  unfolding trim_def by (simp add: dropWhile_rev_dropWhile)

section \<open>One child process: the promise and the output cap\<close>

lemma promise_settle: "promise st = Some x \<Longrightarrow> promise (settle r st) = Some x"
  by (simp add: settle_def)

lemma promise_handle: "promise st = Some x \<Longrightarrow> promise (handle st ev) = Some x"
  by (cases ev) (simp_all add: on_stdout_def on_stderr_def on_timeout_def on_close_def
      on_error_def kill_and_reject_def settle_def Let_def)

lemma promise_foldl: "promise st = Some x \<Longrightarrow> promise (foldl handle st evs) = Some x"
  by (induction evs arbitrary: st) (simp_all add: promise_handle)

lemma promise_on_timeout: "promise st = Some x \<Longrightarrow> promise (on_timeout st) = Some x"
  by (simp add: on_timeout_def kill_and_reject_def settle_def)

lemma run_inv_initial: "run_inv initial_run"
  by (simp add: run_inv_def initial_run_def)

lemma run_inv_handle: "run_inv st \<Longrightarrow> run_inv (handle st ev)"
proof (cases ev)
  case (Close code)
  assume "run_inv st"
  then show ?thesis using Close length_trim[of "acc_stdout st"] length_trim[of "acc_stderr st"]
    by (auto simp: run_inv_def on_close_def settle_def Let_def split: option.splits)
qed (auto simp: run_inv_def on_stdout_def on_stderr_def on_timeout_def
      on_error_def kill_and_reject_def settle_def Let_def split: option.splits)

lemma run_inv_foldl: "run_inv st \<Longrightarrow> run_inv (foldl handle st evs)"
  by (induction evs arbitrary: st) (simp_all add: run_inv_handle)

lemma run_inv_on_timeout: "run_inv st \<Longrightarrow> run_inv (on_timeout st)"
  using run_inv_handle[of st TimerFired] by simp

lemma run_inv_run_events: "run_inv (run_events evs)"
  unfolding run_events_def by (intro run_inv_foldl run_inv_initial)

lemma run_inv_run_child: "run_inv (run_child evs)"
  unfolding run_child_def by (intro run_inv_on_timeout run_inv_run_events)

lemma child_outcome_settles: "\<exists>r. child_outcome evs = Some r"
proof -
  have "promise (run_child evs) \<noteq> None"
  proof
    assume n: "promise (run_child evs) = None"
    let ?st = "run_events evs"
    have inv: "run_inv ?st" by (rule run_inv_run_events)
    have "promise ?st = None"
      using n promise_on_timeout[of ?st] unfolding run_child_def by (cases "promise ?st") auto
    then have "timer_pending ?st" using inv by (simp add: run_inv_def)
    then have "promise (on_timeout ?st) \<noteq> None"
      by (simp add: on_timeout_def kill_and_reject_def settle_def split: option.splits)
    then show False using n by (simp add: run_child_def)
  qed
  then show ?thesis by (simp add: child_outcome_def)
qed

lemma killed_handle: "killed st \<Longrightarrow> killed (handle st ev)"
  by (cases ev) (simp_all add: on_stdout_def on_stderr_def on_timeout_def on_close_def
      on_error_def kill_and_reject_def settle_def Let_def split: option.splits)

lemma killed_foldl: "killed st \<Longrightarrow> killed (foldl handle st evs)"
  by (induction evs arbitrary: st) (simp_all add: killed_handle)

lemma signals_handle: "x \<in> set (signals st) \<Longrightarrow> x \<in> set (signals (handle st ev))"
  by (cases ev) (simp_all add: on_stdout_def on_stderr_def on_timeout_def on_close_def
      on_error_def kill_and_reject_def settle_def Let_def split: option.splits)

lemma signals_foldl: "x \<in> set (signals st) \<Longrightarrow> x \<in> set (signals (foldl handle st evs))"
  by (induction evs arbitrary: st) (simp_all add: signals_handle)

lemma run_child_append:
  "run_child (pre @ ev # rest) = on_timeout (foldl handle (handle (run_events pre) ev) rest)"
  by (simp add: run_child_def run_events_def)

lemma rejected_stays:
  assumes "promise st = Some x" "killed st" "s \<in> set (signals st)"
  shows "promise (on_timeout (foldl handle st rest)) = Some x \<and>
         killed (on_timeout (foldl handle st rest)) \<and>
         s \<in> set (signals (on_timeout (foldl handle st rest)))"
  using promise_on_timeout[OF promise_foldl[OF assms(1), of rest]]
    killed_handle[OF killed_foldl[OF assms(2), of rest], of TimerFired]
    signals_handle[OF signals_foldl[OF assms(3), of rest], of TimerFired]
  by simp

lemma stdout_over_cap:
  assumes "promise (run_events pre) = None"
    and "length (acc_stdout (run_events pre)) + length d > MAX_OUTPUT_SIZE"
  shows "child_outcome (pre @ StdoutData d # rest) = Some (Inl (Error ''Output size exceeded limit'')) \<and>
         killed (run_child (pre @ StdoutData d # rest)) \<and>
         ''SIGKILL'' \<in> set (signals (run_child (pre @ StdoutData d # rest)))"
proof -
  let ?st = "handle (run_events pre) (StdoutData d)"
  have "promise ?st = Some (Inl (Error ''Output size exceeded limit''))" "killed ?st"
    "''SIGKILL'' \<in> set (signals ?st)"
    using assms by (simp_all add: on_stdout_def kill_and_reject_def settle_def Let_def)
  from rejected_stays[OF this, of rest] show ?thesis
    by (simp add: child_outcome_def run_child_append)
qed

lemma stderr_over_cap:
  assumes "promise (run_events pre) = None"
    and "length (acc_stderr (run_events pre)) + length d > MAX_OUTPUT_SIZE"
  shows "child_outcome (pre @ StderrData d # rest) = Some (Inl (Error ''Error output size exceeded limit'')) \<and>
         killed (run_child (pre @ StderrData d # rest)) \<and>
         ''SIGKILL'' \<in> set (signals (run_child (pre @ StderrData d # rest)))"
proof -
  let ?st = "handle (run_events pre) (StderrData d)"
  have "promise ?st = Some (Inl (Error ''Error output size exceeded limit''))" "killed ?st"
    "''SIGKILL'' \<in> set (signals ?st)"
    using assms by (simp_all add: on_stderr_def kill_and_reject_def settle_def Let_def)
  from rejected_stays[OF this, of rest] show ?thesis
    by (simp add: child_outcome_def run_child_append)
qed

lemma resolved_within_cap:
  assumes "child_outcome evs = Some (Inr r)"
  shows "length (stdout r) \<le> MAX_OUTPUT_SIZE \<and> length (stderr r) \<le> MAX_OUTPUT_SIZE"
  using run_inv_run_child[of evs] assms by (simp add: run_inv_def child_outcome_def)

text \<open>
  Claim C4, as the code has it. In every resolved run the captured stdout and stderr are
  each at most 1 MiB long (\<open>MAX_OUTPUT_SIZE\<close> code units, the unit of
  \<^verbatim>\<open>stdout.length\<close>). When a chunk takes the accumulated stdout over the cap while
  the promise is pending, the child is sent SIGKILL and the run is rejected with
  \<^verbatim>\<open>Output size exceeded limit\<close>; for stderr the rejection reads
  \<^verbatim>\<open>Error output size exceeded limit\<close>.
\<close>

theorem runCommand_output_cap:
  "(\<forall>r. child_outcome evs = Some (Inr r) \<longrightarrow>
      length (stdout r) \<le> MAX_OUTPUT_SIZE \<and> length (stderr r) \<le> MAX_OUTPUT_SIZE) \<and>
   (promise (run_events pre) = None \<and>
    length (acc_stdout (run_events pre)) + length d > MAX_OUTPUT_SIZE \<longrightarrow>
      child_outcome (pre @ StdoutData d # rest) = Some (Inl (Error ''Output size exceeded limit'')) \<and>
      killed (run_child (pre @ StdoutData d # rest)) \<and>
      ''SIGKILL'' \<in> set (signals (run_child (pre @ StdoutData d # rest)))) \<and>
   (promise (run_events pre) = None \<and>
    length (acc_stderr (run_events pre)) + length d > MAX_OUTPUT_SIZE \<longrightarrow>
      child_outcome (pre @ StderrData d # rest) =
        Some (Inl (Error ''Error output size exceeded limit'')) \<and>
      killed (run_child (pre @ StderrData d # rest)) \<and>
      ''SIGKILL'' \<in> set (signals (run_child (pre @ StderrData d # rest))))"
  using resolved_within_cap[of evs] stdout_over_cap[of pre d rest] stderr_over_cap[of pre d rest]
  by blast

lemmas run_simps = child_outcome_def run_child_def run_events_def initial_run_def
  on_stdout_def on_stderr_def on_timeout_def on_close_def on_error_def kill_and_reject_def
  settle_def exit_code_or_0_def MAX_OUTPUT_SIZE_def Let_def

lemma trim_ok: "trim '' ok '' = ''ok''"
  by (simp add: trim_def isWhiteSpace_def)

theorem runCommand_output_cap_witness:
  "child_outcome [StdoutData '' ok '', Close None] =
     Some (Inr \<lparr>stdout = ''ok'', stderr = [], exitCode = 0\<rparr>) \<and>
   length (stdout \<lparr>stdout = ''ok'', stderr = [], exitCode = 0\<rparr>) \<le> MAX_OUTPUT_SIZE \<and>
   length (stderr \<lparr>stdout = ''ok'', stderr = [], exitCode = 0\<rparr>) \<le> MAX_OUTPUT_SIZE \<and>
   promise (run_events [StdoutData ''abc'']) = None \<and>
   length (acc_stdout (run_events [StdoutData ''abc''])) + length (replicate 1048574 (CHR ''x''))
     > MAX_OUTPUT_SIZE \<and>
   child_outcome ([StdoutData ''abc''] @ StdoutData (replicate 1048574 (CHR ''x'')) # [Close (Some 0)])
     = Some (Inl (Error ''Output size exceeded limit'')) \<and>
   length (acc_stderr (run_events [StdoutData ''abc''])) + length (replicate 1048577 (CHR ''x''))
     > MAX_OUTPUT_SIZE \<and>
   child_outcome ([StdoutData ''abc''] @ StderrData (replicate 1048577 (CHR ''x'')) # [Close (Some 0)])
     = Some (Inl (Error ''Error output size exceeded limit''))"
proof -
  have a: "child_outcome [StdoutData '' ok '', Close None] =
     Some (Inr \<lparr>stdout = ''ok'', stderr = [], exitCode = 0\<rparr>)"
    by (simp add: run_simps trim_ok) (simp add: trim_def)
  have b: "promise (run_events [StdoutData ''abc'']) = None"
    by (simp add: run_simps)
  have c: "length (acc_stdout (run_events [StdoutData ''abc''])) + length (replicate 1048574 (CHR ''x''))
     > MAX_OUTPUT_SIZE"
    by (simp add: run_simps)
  have d: "length (acc_stderr (run_events [StdoutData ''abc''])) + length (replicate 1048577 (CHR ''x''))
     > MAX_OUTPUT_SIZE"
    by (simp add: run_simps)
  show ?thesis
    using runCommand_output_cap[of "[StdoutData '' ok '', Close None]" "[StdoutData ''abc'']"
        "replicate 1048574 (CHR ''x'')" "[Close (Some 0)]"]
      runCommand_output_cap[of "[]" "[StdoutData ''abc'']"
        "replicate 1048577 (CHR ''x'')" "[Close (Some 0)]"] a b c d
    by simp
qed

text \<open>
  The claim C4 as stated gives one message for both streams. A child that writes more than
  1 MiB to stderr is rejected with another one.
\<close>

theorem stderr_cap_message_counterexample:
  "length (replicate 1048577 (CHR ''x'')) > MAX_OUTPUT_SIZE \<and>
   child_outcome [StderrData (replicate 1048577 (CHR ''x''))] =
     Some (Inl (Error ''Error output size exceeded limit'')) \<and>
   child_outcome [StderrData (replicate 1048577 (CHR ''x''))] \<noteq>
     Some (Inl (Error ''Output size exceeded limit''))"
  by (simp add: run_simps)

section \<open>The load balancer\<close>

lemma select_loop_looked:
  "snd (select_loop gw rest best low looked) = looked @ rest"
  by (induction rest arbitrary: best low looked) (simp_all add: Let_def)

lemma select_loop_least:
  assumes "i < length pre" "\<forall>j < length pre. gw (pre ! i) \<le> gw (pre ! j)"
    and "\<forall>j < i. gw (pre ! i) < gw (pre ! j)"
  shows "\<exists>k < length (pre @ rest).
           fst (select_loop gw rest (pre ! i) (gw (pre ! i)) looked) = (pre @ rest) ! k \<and>
           (\<forall>j < length (pre @ rest). gw ((pre @ rest) ! k) \<le> gw ((pre @ rest) ! j)) \<and>
           (\<forall>j < k. gw ((pre @ rest) ! k) < gw ((pre @ rest) ! j))"
  using assms
proof (induction rest arbitrary: pre i looked)
  case Nil
  then show ?case by auto
next
  case (Cons c cs)
  let ?pre = "pre @ [c]"
  show ?case
  proof (cases "gw c < gw (pre ! i)")
    case True
    let ?i = "length pre"
    have 1: "?i < length ?pre" by simp
    have c: "?pre ! ?i = c" by simp
    have 2: "\<forall>j < length ?pre. gw (?pre ! ?i) \<le> gw (?pre ! j)"
    proof (intro allI impI)
      fix j assume "j < length ?pre"
      then consider "j < length pre" | "j = length pre" by fastforce
      then show "gw (?pre ! ?i) \<le> gw (?pre ! j)"
      proof cases
        case 1
        then show ?thesis using True Cons.prems(2) by (simp add: nth_append) (meson less_le_trans less_imp_le)
      next
        case 2
        then show ?thesis by simp
      qed
    qed
    have 3: "\<forall>j < ?i. gw (?pre ! ?i) < gw (?pre ! j)"
      using True Cons.prems(2) by (simp add: nth_append) (meson less_le_trans)
    from Cons.IH[OF 1 2 3, of "looked @ [c]"] True show ?thesis
      by (simp add: Let_def)
  next
    case False
    have 1: "i < length ?pre" using Cons.prems(1) by simp
    have p: "?pre ! i = pre ! i" using Cons.prems(1) by (simp add: nth_append)
    have 2: "\<forall>j < length ?pre. gw (?pre ! i) \<le> gw (?pre ! j)"
      using False Cons.prems(1,2) by (auto simp: nth_append less_Suc_eq)
    have 3: "\<forall>j < i. gw (?pre ! i) < gw (?pre ! j)"
      using Cons.prems(1,3) by (auto simp: nth_append)
    from Cons.IH[OF 1 2 3, of "looked @ [c]"] False p show ?thesis
      by (simp add: Let_def)
  qed
qed

lemma select_among_single: "select_among gw [c] = (Inr c, [])"
  by simp

lemma select_among_least:
  assumes "length cs > 1"
  shows "\<exists>k < length cs.
           select_among gw cs = (Inr (cs ! k), cs) \<and>
           (\<forall>j < length cs. gw (cs ! k) \<le> gw (cs ! j)) \<and>
           (\<forall>j < k. gw (cs ! k) < gw (cs ! j))"
proof -
  obtain c d rest where cs: "cs = c # d # rest"
    using assms by (cases cs; cases "tl cs") auto
  have "\<exists>k < length ([c] @ d # rest).
           fst (select_loop gw (d # rest) ([c] ! 0) (gw ([c] ! 0)) [c]) = ([c] @ d # rest) ! k \<and>
           (\<forall>j < length ([c] @ d # rest). gw (([c] @ d # rest) ! k) \<le> gw (([c] @ d # rest) ! j)) \<and>
           (\<forall>j < k. gw (([c] @ d # rest) ! k) < gw (([c] @ d # rest) ! j))"
    by (rule select_loop_least) simp_all
  moreover have "snd (select_loop gw (d # rest) c (gw c) [c]) = cs"
    by (simp only: select_loop_looked cs) simp
  ultimately show ?thesis
    unfolding cs by (auto simp: split_beta)
qed

text \<open>
  Claim C8. For a language served by several queues, \<^verbatim>\<open>selectContainer\<close> looks up the
  waiting jobs of every queue once, in the instance order, and returns a queue whose count
  is least; every earlier instance has a strictly greater count, so among equal counts the
  earlier instance wins. For a language served by one queue it returns that queue and
  looks nothing up.
\<close>

theorem selectContainer_least_waiting:
  assumes "getContainersForLanguage language = Inr cs"
  shows "(length cs = 1 \<longrightarrow> selectContainer getWaiting language = (Inr (cs ! 0), [])) \<and>
         (length cs > 1 \<longrightarrow>
            (\<exists>k < length cs.
               selectContainer getWaiting language = (Inr (cs ! k), cs) \<and>
               (\<forall>j < length cs. getWaiting (cs ! k) \<le> getWaiting (cs ! j)) \<and>
               (\<forall>j < k. getWaiting (cs ! k) < getWaiting (cs ! j))))"
proof (intro conjI impI)
  assume "length cs = 1"
  then obtain c where "cs = [c]" by (cases cs) auto
  then show "selectContainer getWaiting language = (Inr (cs ! 0), [])"
    using assms by (simp add: selectContainer_def)
next
  assume "length cs > 1"
  from select_among_least[OF this, of getWaiting]
  show "\<exists>k < length cs.
          selectContainer getWaiting language = (Inr (cs ! k), cs) \<and>
          (\<forall>j < length cs. getWaiting (cs ! k) \<le> getWaiting (cs ! j)) \<and>
          (\<forall>j < k. getWaiting (cs ! k) < getWaiting (cs ! j))"
    using assms by (simp add: selectContainer_def)
qed

theorem selectContainer_least_waiting_witness:
  "getContainersForLanguage ''python'' = Inr [''python-1'', ''python-2''] \<and>
   selectContainer (\<lambda>c. if c = ''python-1'' then 3 else 1) ''python'' =
     (Inr ''python-2'', [''python-1'', ''python-2'']) \<and>
   selectContainer (\<lambda>c. 2) ''python'' = (Inr ''python-1'', [''python-1'', ''python-2'']) \<and>
   getContainersForLanguage ''cpp'' = Inr [''cpp-1''] \<and>
   selectContainer (\<lambda>c. 7) ''cpp'' = (Inr ''cpp-1'', [])"
proof -
  let ?cs = "[''python-1'', ''python-2'']"
  let ?g = "\<lambda>c::string. if c = ''python-1'' then 3 else (1::nat)"
  let ?h = "\<lambda>c::string. 2::nat"
  have py: "getContainersForLanguage ''python'' = Inr ?cs" by simp
  have cpp: "getContainersForLanguage ''cpp'' = Inr [''cpp-1'']" by simp
  have len: "length ?cs > 1" by simp
  from selectContainer_least_waiting[OF py, of ?g] len
  have "\<exists>k < length ?cs. selectContainer ?g ''python'' = (Inr (?cs ! k), ?cs) \<and>
          (\<forall>j < length ?cs. ?g (?cs ! k) \<le> ?g (?cs ! j)) \<and>
          (\<forall>j < k. ?g (?cs ! k) < ?g (?cs ! j))"
    by blast
  then obtain k where k: "k < length ?cs" "selectContainer ?g ''python'' = (Inr (?cs ! k), ?cs)"
    "\<forall>j < length ?cs. ?g (?cs ! k) \<le> ?g (?cs ! j)"
    by blast
  have "k = 1"
  proof (rule ccontr)
    assume "k \<noteq> 1"
    then have "k = 0" using k(1) by simp
    moreover have "(1::nat) < length ?cs" by simp
    then have "?g (?cs ! k) \<le> ?g (?cs ! 1)" using k(3) by blast
    ultimately show False by simp
  qed
  then have a: "selectContainer ?g ''python'' = (Inr ''python-2'', ?cs)" using k(2) by simp
  from selectContainer_least_waiting[OF py, of ?h] len
  have "\<exists>k < length ?cs. selectContainer ?h ''python'' = (Inr (?cs ! k), ?cs) \<and>
          (\<forall>j < length ?cs. ?h (?cs ! k) \<le> ?h (?cs ! j)) \<and>
          (\<forall>j < k. ?h (?cs ! k) < ?h (?cs ! j))"
    by blast
  then obtain m where m: "m < length ?cs" "selectContainer ?h ''python'' = (Inr (?cs ! m), ?cs)"
    "\<forall>j < m. ?h (?cs ! m) < ?h (?cs ! j)"
    by blast
  have "m = 0"
  proof (rule ccontr)
    assume "m \<noteq> 0"
    then have "0 < m" by simp
    then have "?h (?cs ! m) < ?h (?cs ! 0)" using m(3) by blast
    then show False by simp
  qed
  then have b: "selectContainer ?h ''python'' = (Inr ''python-1'', ?cs)" using m(2) by simp
  from selectContainer_least_waiting[OF cpp, of "\<lambda>c. 7"]
  have c: "selectContainer (\<lambda>c. 7) ''cpp'' = (Inr ''cpp-1'', [])" by simp
  show ?thesis using py cpp a b c by blast
qed

section \<open>The compile-cache key\<close>

lemma cacheKey_unfold:
  "cacheKey digest langConfig cc code =
     digest (name langConfig @ '':'' @ c_command cc @ '':'' @ join '' '' (c_args cc)
             @ [CHR 0x0A] @ code)"
  by (simp add: cacheKey_def hashContent_def)

text \<open>
  Claim C3, as the code has it. The key is the digest of the language name, a colon, the
  compile command, a colon, the compile arguments joined by single spaces, a line feed
  and the source. This is never the byte string of the specification: with the identity
  in place of the digest the two keys are the two byte strings, and they differ on every
  input (after the language name the one has a colon where the other has a line feed).
\<close>

theorem cacheKey_digest_input:
  "cacheKey digest langConfig cc code =
     digest (name langConfig @ '':'' @ c_command cc @ '':'' @ join '' '' (c_args cc)
             @ [CHR 0x0A] @ code) \<and>
   cacheKey id langConfig cc code \<noteq> spec_cacheKey id langConfig cc code"
  by (simp add: cacheKey_unfold spec_cacheKey_def)

text \<open>
  The claim C3 as stated, at the C++ descriptor and a one-line source, with the identity
  in place of the digest: the byte string hashed by the code is not the one of the claim.
\<close>

theorem cacheKey_counterexample:
  "cacheKey id example_cpp \<lparr>c_command = ''g++'', c_args = [''-o'', ''program'', ''{file}''],
                       c_timeout = 10000\<rparr> ''x'' = ''cpp:g++:-o program {file}'' @ [CHR 0x0A] @ ''x'' \<and>
   spec_cacheKey id example_cpp \<lparr>c_command = ''g++'', c_args = [''-o'', ''program'', ''{file}''],
                       c_timeout = 10000\<rparr> ''x'' =
     ''cpp'' @ [CHR 0x0A] @ ''g++ -o program {file}'' @ [CHR 0x0A] @ ''x'' \<and>
   cacheKey id example_cpp \<lparr>c_command = ''g++'', c_args = [''-o'', ''program'', ''{file}''],
                       c_timeout = 10000\<rparr> ''x'' \<noteq>
   spec_cacheKey id example_cpp \<lparr>c_command = ''g++'', c_args = [''-o'', ''program'', ''{file}''],
                       c_timeout = 10000\<rparr> ''x''"
  by (simp add: cacheKey_def hashContent_def spec_cacheKey_def example_cpp_def)

section \<open>Argument substitution\<close>

lemma getSubstitution_no_dollar:
  "CHR ''$'' \<notin> set rep \<Longrightarrow> getSubstitution matched str pos rep = rep"
  by (induction matched str pos rep rule: getSubstitution.induct) auto

lemma js_replace_no_dollar:
  "CHR ''$'' \<notin> set rep \<Longrightarrow>
   js_replace pat rep s =
     (case indexOf pat s of None \<Rightarrow> s
      | Some pos \<Rightarrow> take pos s @ rep @ drop (pos + length pat) s)"
  by (simp add: js_replace_def getSubstitution_no_dollar split: option.splits)

text \<open>The search finds the leftmost occurrence, and nothing when there is none.\<close>

lemma indexOf_None: "indexOf pat s = None \<longleftrightarrow> (\<nexists>pre post. s = pre @ pat @ post)"
proof (induction s)
  case Nil
  then show ?case by auto
next
  case (Cons c cs)
  show ?case
  proof (cases "prefix pat (c # cs)")
    case True
    then obtain post where "c # cs = pat @ post" by (auto simp: prefix_def)
    then have "c # cs = [] @ pat @ post" by simp
    then show ?thesis using True by (metis indexOf.simps(2) option.distinct(1))
  next
    case False
    have "(\<exists>pre post. c # cs = pre @ pat @ post) \<longleftrightarrow> (\<exists>pre post. cs = pre @ pat @ post)"
    proof
      assume "\<exists>pre post. c # cs = pre @ pat @ post"
      then obtain pre post where e: "c # cs = pre @ pat @ post" by blast
      show "\<exists>pre post. cs = pre @ pat @ post"
      proof (cases pre)
        case Nil
        then have "prefix pat (c # cs)" using e by (simp add: prefix_def)
        then show ?thesis using False by simp
      next
        case (Cons a pre')
        then show ?thesis using e by auto
      qed
    next
      assume "\<exists>pre post. cs = pre @ pat @ post"
      then obtain pre post where "cs = pre @ pat @ post" by blast
      then have "c # cs = (c # pre) @ pat @ post" by simp
      then show "\<exists>pre post. c # cs = pre @ pat @ post" by blast
    qed
    then show ?thesis using False Cons.IH by simp
  qed
qed

lemma indexOf_leftmost:
  assumes "\<forall>k < length pre. \<not> prefix pat (drop k (pre @ pat @ post))"
  shows "indexOf pat (pre @ pat @ post) = Some (length pre)"
  using assms
proof (induction pre)
  case Nil
  show ?case
  proof (cases "pat @ post")
    case Nil
    then show ?thesis by simp
  next
    case (Cons a list)
    have "prefix pat (pat @ post)" by simp
    then show ?thesis using Cons by simp
  qed
next
  case (Cons c pre)
  have np: "\<not> prefix pat ((c # pre) @ pat @ post)"
    using Cons.prems by (auto dest: spec[of _ 0])
  have "\<forall>k < length pre. \<not> prefix pat (drop k (pre @ pat @ post))"
  proof (intro allI impI)
    fix k assume "k < length pre"
    then have "Suc k < length (c # pre)" by simp
    then have "\<not> prefix pat (drop (Suc k) ((c # pre) @ pat @ post))"
      using Cons.prems by blast
    then show "\<not> prefix pat (drop k (pre @ pat @ post))" by simp
  qed
  from Cons.IH[OF this] np show ?case by simp
qed

lemma js_replace_leftmost:
  assumes "CHR ''$'' \<notin> set rep"
    and "\<forall>k < length pre. \<not> prefix pat (drop k (pre @ pat @ post))"
  shows "js_replace pat rep (pre @ pat @ post) = pre @ rep @ post"
  using indexOf_leftmost[OF assms(2)] assms(1) by (simp add: js_replace_no_dollar)

lemma js_replace_absent:
  assumes "\<nexists>pre post. s = pre @ pat @ post"
  shows "js_replace pat rep s = s"
  using assms indexOf_None[of pat s] by (simp add: js_replace_def)

lemma indexOf_Some:
  "indexOf pat s = Some n \<Longrightarrow>
   s = take n s @ pat @ drop (n + length pat) s \<and> (\<forall>k < n. \<not> prefix pat (drop k s))"
proof (induction s arbitrary: n)
  case Nil
  then show ?case by (simp split: if_splits)
next
  case (Cons c cs)
  show ?case
  proof (cases "prefix pat (c # cs)")
    case True
    then have n: "n = 0" using Cons.prems by simp
    from True obtain post where p: "c # cs = pat @ post" by (auto simp: prefix_def)
    then have "drop (length pat) (c # cs) = post" by (metis append_eq_conv_conj)
    then show ?thesis using n p by simp
  next
    case False
    then obtain m where m: "indexOf pat cs = Some m" "n = Suc m"
      using Cons.prems by auto
    from Cons.IH[OF m(1)] have
      e: "cs = take m cs @ pat @ drop (m + length pat) cs"
      and l: "\<forall>k < m. \<not> prefix pat (drop k cs)"
      by simp_all
    have "c # cs = take n (c # cs) @ pat @ drop (n + length pat) (c # cs)"
      using e m(2) by simp
    moreover have "\<forall>k < n. \<not> prefix pat (drop k (c # cs))"
    proof (intro allI impI)
      fix k assume k: "k < n"
      show "\<not> prefix pat (drop k (c # cs))"
      proof (cases k)
        case 0
        then show ?thesis using False by simp
      next
        case (Suc j)
        then have "j < m" using k m(2) by simp
        then show ?thesis using l Suc by simp
      qed
    qed
    ultimately show ?thesis by blast
  qed
qed

lemma js_replace_first_only:
  assumes "CHR ''$'' \<notin> set v"
  shows "replaces_first_only tok v s (js_replace tok v s)"
proof (cases "indexOf tok s")
  case None
  then have "\<nexists>pre post. s = pre @ tok @ post" by (simp add: indexOf_None)
  then show ?thesis using None by (simp add: replaces_first_only_def js_replace_def)
next
  case (Some n)
  from indexOf_Some[OF Some] have
    e: "s = take n s @ tok @ drop (n + length tok) s"
    and l: "\<forall>k < n. \<not> prefix tok (drop k s)"
    by simp_all
  have r: "js_replace tok v s = take n s @ v @ drop (n + length tok) s"
    using Some assms by (simp add: js_replace_no_dollar)
  have n: "n \<le> length s"
  proof (rule ccontr)
    assume "\<not> n \<le> length s"
    then have "take n s @ tok @ drop (n + length tok) s = s @ tok" by simp
    then have "tok = []" using e by (metis append_self_conv)
    then have "indexOf tok s = Some 0" by (cases s) simp_all
    then show False using Some \<open>\<not> n \<le> length s\<close> by simp
  qed
  then have "length (take n s) = n" by simp
  then have "\<forall>k < length (take n s). \<not> prefix tok (drop k s)" using l by simp
  then have "\<exists>pre post. s = pre @ tok @ post \<and>
             (\<forall>k < length pre. \<not> prefix tok (drop k s)) \<and>
             js_replace tok v s = pre @ v @ post"
    using e r by blast
  moreover have "\<exists>pre post. s = pre @ tok @ post" using e by blast
  ultimately show ?thesis by (simp add: replaces_first_only_def)
qed

lemma substitute_steps:
  assumes "CHR ''$'' \<notin> set filepath" "CHR ''$'' \<notin> set sessionDir" "CHR ''$'' \<notin> set fname"
  shows "\<exists>s1 s2. replaces_first_only ''{file}'' filepath arg s1 \<and>
           replaces_first_only ''{dir}'' sessionDir s1 s2 \<and>
           replaces_first_only ''{filename}'' fname s2 (substitute filepath sessionDir fname arg)"
  unfolding substitute_def
  using js_replace_first_only[OF assms(1)] js_replace_first_only[OF assms(2)]
    js_replace_first_only[OF assms(3)]
  by blast

text \<open>Skipping text in which no token can start.\<close>

lemma indexOf_skip:
  assumes "c0 \<notin> set a"
  shows "indexOf (c0 # pat) (a @ s) = map_option (\<lambda>n. length a + n) (indexOf (c0 # pat) s)"
  using assms
proof (induction a)
  case Nil
  then show ?case by (simp add: option.map_ident)
next
  case (Cons x a)
  then show ?case by (simp add: option.map_comp comp_def)
qed

lemma js_replace_skip:
  assumes "CHR ''$'' \<notin> set rep" "c0 \<notin> set a"
  shows "js_replace (c0 # pat) rep (a @ s) = a @ js_replace (c0 # pat) rep s"
  using assms
  by (simp add: js_replace_no_dollar indexOf_skip split: option.splits)

lemma js_replace_here:
  assumes "CHR ''$'' \<notin> set rep"
  shows "js_replace pat rep (pat @ s) = rep @ s"
  using indexOf_leftmost[of "[]" pat s] assms by (simp add: js_replace_no_dollar)

text \<open>A token is skipped by the search for another token.\<close>

lemma dir_skips_file:
  "CHR ''$'' \<notin> set rep \<Longrightarrow>
   js_replace ''{dir}'' rep (''{file}'' @ s) = ''{file}'' @ js_replace ''{dir}'' rep s"
  by (simp add: js_replace_no_dollar split: option.splits)

lemma filename_skips_file:
  "CHR ''$'' \<notin> set rep \<Longrightarrow>
   js_replace ''{filename}'' rep (''{file}'' @ s) = ''{file}'' @ js_replace ''{filename}'' rep s"
  by (simp add: js_replace_no_dollar split: option.splits)

lemma file_skips_dir:
  "CHR ''$'' \<notin> set rep \<Longrightarrow>
   js_replace ''{file}'' rep (''{dir}'' @ s) = ''{dir}'' @ js_replace ''{file}'' rep s"
  by (simp add: js_replace_no_dollar split: option.splits)

lemma filename_skips_dir:
  "CHR ''$'' \<notin> set rep \<Longrightarrow>
   js_replace ''{filename}'' rep (''{dir}'' @ s) = ''{dir}'' @ js_replace ''{filename}'' rep s"
  by (simp add: js_replace_no_dollar split: option.splits)

lemma file_skips_filename:
  "CHR ''$'' \<notin> set rep \<Longrightarrow>
   js_replace ''{file}'' rep (''{filename}'' @ s) = ''{filename}'' @ js_replace ''{file}'' rep s"
  by (simp add: js_replace_no_dollar split: option.splits)

lemma dir_skips_filename:
  "CHR ''$'' \<notin> set rep \<Longrightarrow>
   js_replace ''{dir}'' rep (''{filename}'' @ s) = ''{filename}'' @ js_replace ''{dir}'' rep s"
  by (simp add: js_replace_no_dollar split: option.splits)

lemma substitute_file_twice:
  assumes "plain filepath" "plain sessionDir" "plain fname"
    and "CHR ''{'' \<notin> set a" "CHR ''{'' \<notin> set b"
  shows "substitute filepath sessionDir fname (a @ ''{file}'' @ b @ ''{file}'' @ c) =
           a @ filepath @ b @ ''{file}'' @
             js_replace ''{filename}'' fname (js_replace ''{dir}'' sessionDir c)"
proof -
  have d: "CHR ''$'' \<notin> set filepath" "CHR ''$'' \<notin> set sessionDir" "CHR ''$'' \<notin> set fname"
    and f: "CHR ''{'' \<notin> set filepath"
    using assms(1-3) by (simp_all add: plain_def)
  have 1: "js_replace ''{file}'' filepath (a @ ''{file}'' @ b @ ''{file}'' @ c) =
             a @ filepath @ b @ ''{file}'' @ c"
    using js_replace_skip[OF d(1) assms(4), of "''file}''"]
      js_replace_here[OF d(1), of "''{file}''"]
    by simp
  have 2: "js_replace ''{dir}'' sessionDir (a @ filepath @ b @ ''{file}'' @ c) =
             a @ filepath @ b @ ''{file}'' @ js_replace ''{dir}'' sessionDir c"
    using js_replace_skip[OF d(2) assms(4), of "''dir}''"]
      js_replace_skip[OF d(2) f, of "''dir}''"]
      js_replace_skip[OF d(2) assms(5), of "''dir}''"]
      dir_skips_file[OF d(2)]
    by simp
  have 3: "js_replace ''{filename}'' fname
             (a @ filepath @ b @ ''{file}'' @ js_replace ''{dir}'' sessionDir c) =
           a @ filepath @ b @ ''{file}'' @
             js_replace ''{filename}'' fname (js_replace ''{dir}'' sessionDir c)"
    using js_replace_skip[OF d(3) assms(4), of "''filename}''"]
      js_replace_skip[OF d(3) f, of "''filename}''"]
      js_replace_skip[OF d(3) assms(5), of "''filename}''"]
      filename_skips_file[OF d(3)]
    by simp
  show ?thesis unfolding substitute_def 1 2 3 ..
qed

lemma substitute_dir_twice:
  assumes "plain filepath" "plain sessionDir" "plain fname"
    and "CHR ''{'' \<notin> set a" "CHR ''{'' \<notin> set b"
  shows "substitute filepath sessionDir fname (a @ ''{dir}'' @ b @ ''{dir}'' @ c) =
           a @ sessionDir @ b @ ''{dir}'' @
             js_replace ''{filename}'' fname (js_replace ''{file}'' filepath c)"
proof -
  have d: "CHR ''$'' \<notin> set filepath" "CHR ''$'' \<notin> set sessionDir" "CHR ''$'' \<notin> set fname"
    and f: "CHR ''{'' \<notin> set sessionDir"
    using assms(1-3) by (simp_all add: plain_def)
  have 1: "js_replace ''{file}'' filepath (a @ ''{dir}'' @ b @ ''{dir}'' @ c) =
             a @ ''{dir}'' @ b @ ''{dir}'' @ js_replace ''{file}'' filepath c"
    using js_replace_skip[OF d(1) assms(4), of "''file}''"]
      js_replace_skip[OF d(1) assms(5), of "''file}''"]
      file_skips_dir[OF d(1)]
    by simp
  have 2: "js_replace ''{dir}'' sessionDir
             (a @ ''{dir}'' @ b @ ''{dir}'' @ js_replace ''{file}'' filepath c) =
             a @ sessionDir @ b @ ''{dir}'' @ js_replace ''{file}'' filepath c"
    using js_replace_skip[OF d(2) assms(4), of "''dir}''"]
      js_replace_here[OF d(2), of "''{dir}''"]
    by simp
  have 3: "js_replace ''{filename}'' fname
             (a @ sessionDir @ b @ ''{dir}'' @ js_replace ''{file}'' filepath c) =
           a @ sessionDir @ b @ ''{dir}'' @
             js_replace ''{filename}'' fname (js_replace ''{file}'' filepath c)"
    using js_replace_skip[OF d(3) assms(4), of "''filename}''"]
      js_replace_skip[OF d(3) f, of "''filename}''"]
      js_replace_skip[OF d(3) assms(5), of "''filename}''"]
      filename_skips_dir[OF d(3)]
    by simp
  show ?thesis unfolding substitute_def 1 2 3 ..
qed

lemma substitute_filename_twice:
  assumes "plain filepath" "plain sessionDir" "plain fname"
    and "CHR ''{'' \<notin> set a" "CHR ''{'' \<notin> set b"
  shows "substitute filepath sessionDir fname (a @ ''{filename}'' @ b @ ''{filename}'' @ c) =
           a @ fname @ b @ ''{filename}'' @
             js_replace ''{dir}'' sessionDir (js_replace ''{file}'' filepath c)"
proof -
  have d: "CHR ''$'' \<notin> set filepath" "CHR ''$'' \<notin> set sessionDir" "CHR ''$'' \<notin> set fname"
    using assms(1-3) by (simp_all add: plain_def)
  have 1: "js_replace ''{file}'' filepath (a @ ''{filename}'' @ b @ ''{filename}'' @ c) =
             a @ ''{filename}'' @ b @ ''{filename}'' @ js_replace ''{file}'' filepath c"
    using js_replace_skip[OF d(1) assms(4), of "''file}''"]
      js_replace_skip[OF d(1) assms(5), of "''file}''"]
      file_skips_filename[OF d(1)]
    by simp
  have 2: "js_replace ''{dir}'' sessionDir
             (a @ ''{filename}'' @ b @ ''{filename}'' @ js_replace ''{file}'' filepath c) =
           a @ ''{filename}'' @ b @ ''{filename}'' @
             js_replace ''{dir}'' sessionDir (js_replace ''{file}'' filepath c)"
    using js_replace_skip[OF d(2) assms(4), of "''dir}''"]
      js_replace_skip[OF d(2) assms(5), of "''dir}''"]
      dir_skips_filename[OF d(2)]
    by simp
  have 3: "js_replace ''{filename}'' fname
             (a @ ''{filename}'' @ b @ ''{filename}'' @
                js_replace ''{dir}'' sessionDir (js_replace ''{file}'' filepath c)) =
           a @ fname @ b @ ''{filename}'' @
             js_replace ''{dir}'' sessionDir (js_replace ''{file}'' filepath c)"
    using js_replace_skip[OF d(3) assms(4), of "''filename}''"]
      js_replace_here[OF d(3), of "''{filename}''"]
    by simp
  show ?thesis unfolding substitute_def 1 2 3 ..
qed

text \<open>
  Claim C10. For every argument string and plain values, each of the three replacements
  changes the first occurrence of its token only and leaves the text after it as it is:
  \<^verbatim>\<open>{file}\<close> in the argument, then \<^verbatim>\<open>{dir}\<close> and \<^verbatim>\<open>{filename}\<close> in what the replacement
  before them gave. So in an argument that holds a token twice, the first occurrence is
  replaced by its value and the second is still there in the result, for each of the three
  tokens: here the text \<open>a\<close> before the first and \<open>b\<close> between the two occurrences holds no
  opening brace, and \<open>c\<close> after the second occurrence is any text, which only sees the
  replacements of the two other tokens.
\<close>

theorem substitute_first_occurrence_only:
  assumes "plain filepath" "plain sessionDir" "plain fname"
    and "CHR ''{'' \<notin> set a" "CHR ''{'' \<notin> set b"
  shows "(\<exists>s1 s2. replaces_first_only ''{file}'' filepath arg s1 \<and>
            replaces_first_only ''{dir}'' sessionDir s1 s2 \<and>
            replaces_first_only ''{filename}'' fname s2
              (substitute filepath sessionDir fname arg)) \<and>
         substitute filepath sessionDir fname (a @ ''{file}'' @ b @ ''{file}'' @ c) =
           a @ filepath @ b @ ''{file}'' @
             js_replace ''{filename}'' fname (js_replace ''{dir}'' sessionDir c) \<and>
         substitute filepath sessionDir fname (a @ ''{dir}'' @ b @ ''{dir}'' @ c) =
           a @ sessionDir @ b @ ''{dir}'' @
             js_replace ''{filename}'' fname (js_replace ''{file}'' filepath c) \<and>
         substitute filepath sessionDir fname (a @ ''{filename}'' @ b @ ''{filename}'' @ c) =
           a @ fname @ b @ ''{filename}'' @
             js_replace ''{dir}'' sessionDir (js_replace ''{file}'' filepath c)"
proof -
  have "CHR ''$'' \<notin> set filepath" "CHR ''$'' \<notin> set sessionDir" "CHR ''$'' \<notin> set fname"
    using assms(1-3) by (simp_all add: plain_def)
  from substitute_steps[OF this, of arg] substitute_file_twice[OF assms]
    substitute_dir_twice[OF assms] substitute_filename_twice[OF assms]
  show ?thesis by blast
qed

lemma js_replace_Nil: "js_replace (c0 # pat) rep [] = []"
  by (simp add: js_replace_def)

theorem substitute_first_occurrence_only_witness:
  "plain ''/tmp/code-execution/s1/main.py'' \<and> plain ''/tmp/code-execution/s1'' \<and>
   plain ''main.py'' \<and> CHR ''{'' \<notin> set ''--src='' \<and> CHR ''{'' \<notin> set '' '' \<and>
   substitute ''/tmp/code-execution/s1/main.py'' ''/tmp/code-execution/s1'' ''main.py''
     ''--src={file} {file}'' = ''--src=/tmp/code-execution/s1/main.py {file}'' \<and>
   substitute ''/tmp/code-execution/s1/main.py'' ''/tmp/code-execution/s1'' ''main.py''
     ''--src={dir} {dir}'' = ''--src=/tmp/code-execution/s1 {dir}'' \<and>
   substitute ''/tmp/code-execution/s1/main.py'' ''/tmp/code-execution/s1'' ''main.py''
     ''--src={filename} {filename}'' = ''--src=main.py {filename}''"
proof -
  have p: "plain ''/tmp/code-execution/s1/main.py''" "plain ''/tmp/code-execution/s1''"
    "plain ''main.py''"
    by (simp_all add: plain_def)
  have q: "CHR ''{'' \<notin> set ''--src=''" "CHR ''{'' \<notin> set '' ''" by simp_all
  from substitute_first_occurrence_only[OF p q, of "[]" "[]"] p q
  show ?thesis by (simp add: js_replace_Nil)
qed

section \<open>The executor\<close>

lemmas exec_simps = executeCode_def try_body_def prepare_def write_source_def run_phase_def
  catch_block_def finally_block_def compile_phase_def cache_lookup_def save_artifacts_def
  compile_failed_def runCommand_def Date_now_def fs_call_def ensureDir_def copyFile_def
  copyDir_def pathExists_def TEMP_DIR_def CACHE_DIR_def source_filename_def compile_timeout_def
  given_cases_def case_result_def initial_world_def cacheKey_def hashContent_def

lemmas example_simps = example_env_def example_python_def example_cpp_def

subsection \<open>A run resolves at a close event, with the trimmed accumulators\<close>

lemma close_resolves:
  assumes "promise (run_events pre) = None"
  shows "child_outcome (pre @ Close code # rest) =
           Some (Inr \<lparr>stdout = trim (acc_stdout (run_events pre)),
                      stderr = trim (acc_stderr (run_events pre)),
                      exitCode = exit_code_or_0 code\<rparr>)"
proof -
  have "\<not> killed (run_events pre)"
    using run_inv_run_events[of pre] assms by (simp add: run_inv_def)
  then have "promise (handle (run_events pre) (Close code)) =
      Some (Inr \<lparr>stdout = trim (acc_stdout (run_events pre)),
                 stderr = trim (acc_stderr (run_events pre)),
                 exitCode = exit_code_or_0 code\<rparr>)"
    using assms by (simp add: on_close_def settle_def Let_def)
  from promise_on_timeout[OF promise_foldl[OF this, of rest]] show ?thesis
    by (simp add: child_outcome_def run_child_append)
qed

lemma run_events_snoc: "run_events (xs @ [x]) = handle (run_events xs) x"
  by (simp add: run_events_def)

lemma resolved_at_close_events:
  "promise (run_events evs) = Some (Inr res) \<Longrightarrow>
   \<exists>pre code rest. evs = pre @ Close code # rest \<and> promise (run_events pre) = None \<and>
     res = \<lparr>stdout = trim (acc_stdout (run_events pre)),
            stderr = trim (acc_stderr (run_events pre)),
            exitCode = exit_code_or_0 code\<rparr>"
proof (induction evs rule: rev_induct)
  case Nil
  then show ?case by (simp add: run_events_def initial_run_def)
next
  case (snoc x xs)
  show ?case
  proof (cases "promise (run_events xs)")
    case None
    have nk: "\<not> killed (run_events xs)"
      using run_inv_run_events[of xs] None by (simp add: run_inv_def)
    obtain code where x: "x = Close code"
      using snoc.prems None
      by (cases x) (auto simp: run_events_snoc on_stdout_def on_stderr_def on_timeout_def
          on_error_def kill_and_reject_def settle_def Let_def split: if_splits)
    have "res = \<lparr>stdout = trim (acc_stdout (run_events xs)),
            stderr = trim (acc_stderr (run_events xs)),
            exitCode = exit_code_or_0 code\<rparr>"
      using snoc.prems None nk x
      by (simp add: run_events_snoc on_close_def settle_def Let_def)
    then show ?thesis using None x by blast
  next
    case (Some y)
    then have "promise (run_events (xs @ [x])) = Some y"
      by (simp add: run_events_snoc promise_handle)
    then have "promise (run_events xs) = Some (Inr res)" using snoc.prems Some by simp
    from snoc.IH[OF this] obtain pre code rest where
      "xs = pre @ Close code # rest" "promise (run_events pre) = None"
      "res = \<lparr>stdout = trim (acc_stdout (run_events pre)),
            stderr = trim (acc_stderr (run_events pre)),
            exitCode = exit_code_or_0 code\<rparr>"
      by blast
    then have "xs @ [x] = pre @ Close code # (rest @ [x])" by simp
    then show ?thesis
      using \<open>promise (run_events pre) = None\<close>
        \<open>res = \<lparr>stdout = trim (acc_stdout (run_events pre)),
            stderr = trim (acc_stderr (run_events pre)),
            exitCode = exit_code_or_0 code\<rparr>\<close>
      by blast
  qed
qed

lemma resolved_at_close:
  assumes "child_outcome evs = Some (Inr res)"
  shows "\<exists>pre code rest. evs = pre @ Close code # rest \<and> promise (run_events pre) = None \<and>
     res = \<lparr>stdout = trim (acc_stdout (run_events pre)),
            stderr = trim (acc_stderr (run_events pre)),
            exitCode = exit_code_or_0 code\<rparr>"
proof -
  have "promise (run_events evs) = Some (Inr res)"
  proof (cases "promise (run_events evs)")
    case None
    then have "timer_pending (run_events evs)"
      using run_inv_run_events[of evs] by (simp add: run_inv_def)
    then show ?thesis using None assms
      by (simp add: child_outcome_def run_child_def on_timeout_def kill_and_reject_def settle_def)
  next
    case (Some y)
    from promise_on_timeout[OF this] show ?thesis
      using assms Some by (simp add: child_outcome_def run_child_def)
  qed
  then show ?thesis by (rule resolved_at_close_events)
qed

lemma resolved_trimmed:
  assumes "child_outcome evs = Some (Inr res)"
  shows "trim (stdout res) = stdout res \<and> trim (stderr res) = stderr res"
  using resolved_at_close[OF assms] by (auto simp: trim_idem)

subsection \<open>What a rejection can carry\<close>

lemma rejected_with_events:
  "promise (run_events evs) = Some (Inl e) \<Longrightarrow>
   e = Error ''Execution timeout'' \<or> e = Error ''Output size exceeded limit'' \<or>
   e = Error ''Error output size exceeded limit'' \<or> ProcError e \<in> set evs"
proof (induction evs rule: rev_induct)
  case Nil
  then show ?case by (simp add: run_events_def initial_run_def)
next
  case (snoc x xs)
  show ?case
  proof (cases "promise (run_events xs)")
    case None
    then show ?thesis using snoc.prems
      by (cases x) (auto simp: run_events_snoc on_stdout_def on_stderr_def on_timeout_def
          on_close_def on_error_def kill_and_reject_def settle_def Let_def split: if_splits)
  next
    case (Some y)
    then have "promise (run_events (xs @ [x])) = Some y"
      by (simp add: run_events_snoc promise_handle)
    then have "promise (run_events xs) = Some (Inl e)" using snoc.prems Some by simp
    from snoc.IH[OF this] show ?thesis by auto
  qed
qed

lemma rejected_with:
  assumes "child_outcome evs = Some (Inl e)"
  shows "e = Error ''Execution timeout'' \<or> e = Error ''Output size exceeded limit'' \<or>
         e = Error ''Error output size exceeded limit'' \<or> ProcError e \<in> set evs"
proof (cases "promise (run_events evs)")
  case None
  then have "timer_pending (run_events evs)"
    using run_inv_run_events[of evs] by (simp add: run_inv_def)
  then show ?thesis using None assms
    by (simp add: child_outcome_def run_child_def on_timeout_def kill_and_reject_def settle_def)
next
  case (Some y)
  from promise_on_timeout[OF this] have "promise (run_events evs) = Some (Inl e)"
    using assms Some by (simp add: child_outcome_def run_child_def)
  then show ?thesis by (rule rejected_with_events)
qed

lemma rejection_message_nonempty:
  assumes "child_outcome evs = Some (Inl e)"
    and "\<forall>x. ProcError x \<in> set evs \<longrightarrow> error_message x \<noteq> []"
  shows "error_message e \<noteq> []"
  using rejected_with[OF assms(1)] assms(2) by auto

subsection \<open>The loop over the test cases\<close>

lemma runCommand_settled:
  assumes "inp = [] \<or> StdinError \<notin> set (child env (length (spawns w)))"
    and "child_outcome (child env (length (spawns w))) = Some r"
  shows "runCommand env cmd as cwd inp t w =
           (Settled r, w\<lparr>spawns := spawns w @ [(cmd, as, cwd, inp, t)]\<rparr>)"
  using assms by (auto simp: runCommand_def)

lemma runCommand_exits:
  assumes "inp \<noteq> []" and "StdinError \<in> set (child env (length (spawns w)))"
  shows "runCommand env cmd as cwd inp t w =
           (ProcessExits, w\<lparr>spawns := spawns w @ [(cmd, as, cwd, inp, t)]\<rparr>)"
  using assms by (simp add: runCommand_def)

lemma run_test_cases_step:
  assumes "child_outcome (child env (length (spawns w))) = Some r"
    and "input tc = [] \<or> StdinError \<notin> set (child env (length (spawns w)))"
  shows "run_test_cases env cfg fp sd fn (tc # rest) acc w =
           run_test_cases env cfg fp sd fn rest
             (acc @ [case_result tc r
                       (clock env (Suc (clock_reads w)) - clock env (clock_reads w))])
             (w\<lparr>spawns := spawns w @
                  [(command cfg, map (substitute fp sd fn) (args cfg), sd, input tc, timeout cfg)],
                clock_reads := Suc (Suc (clock_reads w))\<rparr>)"
  using assms by (auto simp: Date_now_def runCommand_def)

lemma run_test_cases_exits:
  assumes "input tc \<noteq> []" and "StdinError \<in> set (child env (length (spawns w)))"
  shows "run_test_cases env cfg fp sd fn (tc # rest) acc w =
           (Done ProcessDied,
            w\<lparr>spawns := spawns w @
                 [(command cfg, map (substitute fp sd fn) (args cfg), sd, input tc, timeout cfg)],
               clock_reads := Suc (clock_reads w)\<rparr>)"
  using assms by (simp add: Date_now_def runCommand_def)

lemma run_test_cases_spec:
  assumes "\<forall>i < length cases.
             input (cases ! i) = [] \<or> StdinError \<notin> set (child env (length (spawns w) + i))"
  shows "\<exists>rs w'. run_test_cases env cfg fp sd fn cases acc w = (Next (acc @ rs), w') \<and>
     length rs = length cases \<and>
     (\<forall>i < length cases. \<exists>r.
        child_outcome (child env (length (spawns w) + i)) = Some r \<and>
        rs ! i = case_result (cases ! i) r
                   (clock env (clock_reads w + 2 * i + 1) - clock env (clock_reads w + 2 * i))) \<and>
     spawns w' = spawns w @
       map (\<lambda>tc. (command cfg, map (substitute fp sd fn) (args cfg), sd, input tc, timeout cfg))
         cases \<and>
     clock_reads w' = clock_reads w + 2 * length cases \<and>
     fs_ops w' = fs_ops w"
  using assms
proof (induction cases arbitrary: acc w)
  case Nil
  then show ?case by simp
next
  case (Cons tc rest)
  obtain r where r: "child_outcome (child env (length (spawns w))) = Some r"
    using child_outcome_settles by blast
  have ok: "input tc = [] \<or> StdinError \<notin> set (child env (length (spawns w)))"
    using Cons.prems by fastforce
  let ?t = "clock env (Suc (clock_reads w)) - clock env (clock_reads w)"
  let ?w = "w\<lparr>spawns := spawns w @
                  [(command cfg, map (substitute fp sd fn) (args cfg), sd, input tc, timeout cfg)],
                clock_reads := Suc (Suc (clock_reads w))\<rparr>"
  have rest: "\<forall>i < length rest.
             input (rest ! i) = [] \<or> StdinError \<notin> set (child env (length (spawns ?w) + i))"
  proof (intro allI impI)
    fix i assume "i < length rest"
    then have "Suc i < length (tc # rest)" by simp
    from Cons.prems[rule_format, OF this] show
      "input (rest ! i) = [] \<or> StdinError \<notin> set (child env (length (spawns ?w) + i))"
      by simp
  qed
  from Cons.IH[of ?w "acc @ [case_result tc r ?t]", OF rest]
  obtain rs w' where
    run: "run_test_cases env cfg fp sd fn rest (acc @ [case_result tc r ?t]) ?w =
            (Next ((acc @ [case_result tc r ?t]) @ rs), w')"
    and len: "length rs = length rest"
    and each: "\<forall>i < length rest. \<exists>r'.
        child_outcome (child env (length (spawns ?w) + i)) = Some r' \<and>
        rs ! i = case_result (rest ! i) r'
                   (clock env (clock_reads ?w + 2 * i + 1) - clock env (clock_reads ?w + 2 * i))"
    and sp: "spawns w' = spawns ?w @
       map (\<lambda>tc. (command cfg, map (substitute fp sd fn) (args cfg), sd, input tc, timeout cfg))
         rest"
    and cl: "clock_reads w' = clock_reads ?w + 2 * length rest"
    and fs: "fs_ops w' = fs_ops ?w"
    by blast
  let ?rs = "case_result tc r ?t # rs"
  have 1: "run_test_cases env cfg fp sd fn (tc # rest) acc w = (Next (acc @ ?rs), w')"
    unfolding run_test_cases_step[OF r ok] using run by simp
  have 2: "length ?rs = length (tc # rest)" using len by simp
  have 3: "\<forall>i < length (tc # rest). \<exists>r'.
        child_outcome (child env (length (spawns w) + i)) = Some r' \<and>
        ?rs ! i = case_result ((tc # rest) ! i) r'
                   (clock env (clock_reads w + 2 * i + 1) - clock env (clock_reads w + 2 * i))"
  proof (intro allI impI)
    fix i assume i: "i < length (tc # rest)"
    show "\<exists>r'. child_outcome (child env (length (spawns w) + i)) = Some r' \<and>
        ?rs ! i = case_result ((tc # rest) ! i) r'
                   (clock env (clock_reads w + 2 * i + 1) - clock env (clock_reads w + 2 * i))"
    proof (cases i)
      case 0
      then show ?thesis using r by simp
    next
      case (Suc j)
      then have "j < length rest" using i by simp
      with each obtain r' where
        "child_outcome (child env (length (spawns ?w) + j)) = Some r'"
        "rs ! j = case_result (rest ! j) r'
                   (clock env (clock_reads ?w + 2 * j + 1) - clock env (clock_reads ?w + 2 * j))"
        by blast
      then show ?thesis using Suc by simp
    qed
  qed
  have 4: "spawns w' = spawns w @
       map (\<lambda>tc. (command cfg, map (substitute fp sd fn) (args cfg), sd, input tc, timeout cfg))
         (tc # rest)"
    using sp by simp
  have 5: "clock_reads w' = clock_reads w + 2 * length (tc # rest)" using cl by simp
  have 6: "fs_ops w' = fs_ops w" using fs by simp
  from 1 2 3 4 5 6 show ?case by blast
qed

text \<open>When the loop comes to its end, no write to the stdin of a child has failed.\<close>

lemma run_test_cases_Next:
  "run_test_cases env cfg fp sd fn cases acc w = (Next out, w') \<Longrightarrow>
   \<forall>i < length cases.
     input (cases ! i) = [] \<or> StdinError \<notin> set (child env (length (spawns w) + i))"
proof (induction cases arbitrary: acc w)
  case Nil
  then show ?case by simp
next
  case (Cons tc rest)
  obtain r where r: "child_outcome (child env (length (spawns w))) = Some r"
    using child_outcome_settles by blast
  have ok: "input tc = [] \<or> StdinError \<notin> set (child env (length (spawns w)))"
  proof (rule ccontr)
    assume "\<not> (input tc = [] \<or> StdinError \<notin> set (child env (length (spawns w))))"
    then have "input tc \<noteq> []" "StdinError \<in> set (child env (length (spawns w)))" by simp_all
    from run_test_cases_exits[OF this] show False using Cons.prems by simp
  qed
  let ?t = "clock env (Suc (clock_reads w)) - clock env (clock_reads w)"
  let ?w = "w\<lparr>spawns := spawns w @
                  [(command cfg, map (substitute fp sd fn) (args cfg), sd, input tc, timeout cfg)],
                clock_reads := Suc (Suc (clock_reads w))\<rparr>"
  have "run_test_cases env cfg fp sd fn rest (acc @ [case_result tc r ?t]) ?w = (Next out, w')"
    using Cons.prems unfolding run_test_cases_step[OF r ok] .
  from Cons.IH[OF this] have rest: "\<forall>i < length rest.
     input (rest ! i) = [] \<or> StdinError \<notin> set (child env (length (spawns ?w) + i))" .
  show ?case
  proof (intro allI impI)
    fix i assume i: "i < length (tc # rest)"
    show "input ((tc # rest) ! i) = [] \<or>
          StdinError \<notin> set (child env (length (spawns w) + i))"
    proof (cases i)
      case 0
      then show ?thesis using ok by simp
    next
      case (Suc j)
      then have "j < length rest" using i by simp
      from rest[rule_format, OF this] show ?thesis using Suc by simp
    qed
  qed
qed

text \<open>The loop ends early only with the end of the process.\<close>

lemma run_test_cases_Done:
  "run_test_cases env cfg fp sd fn cases acc w = (Done out, w') \<Longrightarrow> out = ProcessDied"
proof (induction cases arbitrary: acc w)
  case Nil
  then show ?case by simp
next
  case (Cons tc rest)
  obtain r where r: "child_outcome (child env (length (spawns w))) = Some r"
    using child_outcome_settles by blast
  show ?case
  proof (cases "input tc = [] \<or> StdinError \<notin> set (child env (length (spawns w)))")
    case True
    from Cons.prems show ?thesis unfolding run_test_cases_step[OF r True] by (rule Cons.IH)
  next
    case False
    then have "input tc \<noteq> []" "StdinError \<in> set (child env (length (spawns w)))" by simp_all
    from run_test_cases_exits[OF this] show ?thesis using Cons.prems by simp
  qed
qed

subsection \<open>The call as a whole\<close>

lemma runCommand_settles:
  assumes "inp = [] \<or> StdinError \<notin> set (child env (length (spawns w)))"
  shows "\<exists>r. runCommand env cmd as cwd inp t w =
     (Settled r, w\<lparr>spawns := spawns w @ [(cmd, as, cwd, inp, t)]\<rparr>)"
  using child_outcome_settles[of "child env (length (spawns w))"] runCommand_settled[OF assms]
  by blast

text \<open>
  The run phase, when no write to the stdin of a child fails: a single run that is
  rejected throws the rejection; everything else returns \<^verbatim>\<open>status = success\<close>.
\<close>

lemma run_phase_ends:
  assumes "\<forall>k. StdinError \<notin> set (child env k)"
  shows "(\<exists>e. fst (run_phase env cfg fp sd fn inp tcs st w) = Throws e \<and>
            given_cases tcs = [] \<and>
            child_outcome (child env (length (spawns w))) = Some (Inl e)) \<or>
         (\<exists>r. fst (run_phase env cfg fp sd fn inp tcs st w) = Returns r \<and>
            status r = StatusSuccess)"
proof (cases "given_cases tcs = []")
  case True
  obtain r where r: "child_outcome (child env (length (spawns w))) = Some r"
    using child_outcome_settles by blast
  have "runCommand env (command cfg) (map (substitute fp sd fn) (args cfg)) sd inp
      (timeout cfg) w = (Settled r, w\<lparr>spawns := spawns w @
        [(command cfg, map (substitute fp sd fn) (args cfg), sd, inp, timeout cfg)]\<rparr>)"
    using runCommand_settled[OF _ r] assms by blast
  then show ?thesis using True r
    by (cases r) (simp_all add: run_phase_def Date_now_def)
next
  case False
  have "\<forall>i < length (given_cases tcs). input (given_cases tcs ! i) = [] \<or>
      StdinError \<notin> set (child env (length (spawns w) + i))"
    using assms by blast
  from run_test_cases_spec[OF this, of cfg fp sd fn "[]"]
  obtain rs w' where
    "run_test_cases env cfg fp sd fn (given_cases tcs) [] w = (Next ([] @ rs), w')"
    by blast
  then show ?thesis using False by (simp add: run_phase_def Date_now_def)
qed

text \<open>
  What ends the call before the run phase: a rejected file-system call or a rejected
  compile run, which are thrown, and a compile command that exits with a non-zero code.
  The compile command is given an empty input, so nothing is written to its stdin.
\<close>

lemma write_source_done:
  assumes "write_source env cfg code sd w = (Done out, w')"
  shows "\<exists>n op e. out = Throws e \<and> fs_rejects env n op = Some e"
  using assms
  by (auto simp: write_source_def fs_call_def Let_def split: option.splits)

lemma cache_lookup_done:
  assumes "cache_lookup env cfg lcd sd w = (Done out, w')"
  shows "\<exists>n op e. out = Throws e \<and> fs_rejects env n op = Some e"
  using assms
  by (auto simp: cache_lookup_def pathExists_def copyFile_def copyDir_def ensureDir_def
      fs_call_def Let_def split: option.splits bool.splits prod.splits if_splits)

lemma compile_phase_done:
  assumes "compile_phase env cfg cc code fp sd fn st w = (Done out, w')"
  shows "(\<exists>n op e. out = Throws e \<and> fs_rejects env n op = Some e) \<or>
         (\<exists>k e. out = Throws e \<and> child_outcome (child env k) = Some (Inl e)) \<or>
         (\<exists>cr t. out = Returns (compile_failed cr t))"
proof -
  let ?w1 = "snd (ensureDir env (CACHE_DIR env) w)"
  let ?lcd = "path_join env (path_join env (CACHE_DIR env) (name cfg))
                (cacheKey (sha256_hex env) cfg cc code)"
  obtain f w2 where cl: "cache_lookup env cfg ?lcd sd ?w1 = (f, w2)"
    by (cases "cache_lookup env cfg ?lcd sd ?w1")
  show ?thesis
  proof (cases f)
    case (Done o2)
    then have "out = o2" using assms cl by (simp add: compile_phase_def Let_def)
    then show ?thesis using cache_lookup_done cl Done by blast
  next
    case (Next hit)
    show ?thesis
    proof (cases hit)
      case True
      then show ?thesis using assms cl Next by (simp add: compile_phase_def Let_def)
    next
      case False
      obtain r where r: "child_outcome (child env (length (spawns w2))) = Some r"
        using child_outcome_settles by blast
      have rc: "runCommand env (c_command cc) (map (substitute fp sd fn) (c_args cc)) sd []
          (compile_timeout cc) w2 = (Settled r, w2\<lparr>spawns := spawns w2 @
            [(c_command cc, map (substitute fp sd fn) (c_args cc), sd, [], compile_timeout cc)]\<rparr>)"
        using runCommand_settled[OF _ r] by blast
      show ?thesis
      proof (cases r)
        case (Inl e)
        then have "out = Throws e" using assms cl Next False rc
          by (simp add: compile_phase_def Let_def)
        then show ?thesis using r Inl by blast
      next
        case (Inr cr)
        then have "\<exists>t. out = Returns (compile_failed cr t)" using assms cl Next False rc
          by (auto simp: compile_phase_def Let_def Date_now_def split: if_splits)
        then show ?thesis by blast
      qed
    qed
  qed
qed

lemma prepare_done:
  assumes "prepare env cfg code sd st w = (Done out, w')"
  shows "(\<exists>n op e. out = Throws e \<and> fs_rejects env n op = Some e) \<or>
         (\<exists>k e. out = Throws e \<and> child_outcome (child env k) = Some (Inl e)) \<or>
         (\<exists>cr t. out = Returns (compile_failed cr t))"
proof (cases "write_source env cfg code sd w")
  case (Pair f w1)
  show ?thesis
  proof (cases f)
    case (Done o2)
    then have "out = o2" using assms Pair by (simp add: prepare_def)
    then show ?thesis using write_source_done Pair Done by blast
  next
    case (Next p)
    obtain fp fn where p: "p = (fp, fn)" by (cases p)
    show ?thesis
    proof (cases "compile cfg")
      case None
      then show ?thesis using assms Pair Next p by (simp add: prepare_def)
    next
      case (Some cc)
      obtain g w2 where c: "compile_phase env cfg cc code fp sd fn st w1 = (g, w2)"
        by (cases "compile_phase env cfg cc code fp sd fn st w1")
      show ?thesis
      proof (cases g)
        case (Done o2)
        then have "out = o2" using assms Pair Next p Some c by (simp add: prepare_def)
        then show ?thesis using compile_phase_done c Done by blast
      next
        case (Next u)
        then show ?thesis using assms Pair \<open>f = Next p\<close> p Some c by (simp add: prepare_def)
      qed
    qed
  qed
qed

text \<open>The messages of what is thrown, when the errors of the runtime carry one.\<close>

lemma thrown_message:
  assumes "\<forall>n op e. fs_rejects env n op = Some e \<longrightarrow> error_message e \<noteq> []"
    and "\<forall>k e. ProcError e \<in> set (child env k) \<longrightarrow> error_message e \<noteq> []"
    and "(\<exists>n op. fs_rejects env n op = Some e) \<or>
         (\<exists>k. child_outcome (child env k) = Some (Inl e))"
  shows "error_message e \<noteq> []"
proof -
  from assms(3) show ?thesis
  proof
    assume "\<exists>n op. fs_rejects env n op = Some e"
    then show ?thesis using assms(1) by blast
  next
    assume "\<exists>k. child_outcome (child env k) = Some (Inl e)"
    then obtain k where k: "child_outcome (child env k) = Some (Inl e)" by blast
    have "\<forall>x. ProcError x \<in> set (child env k) \<longrightarrow> error_message x \<noteq> []"
      using assms(2) by blast
    from rejection_message_nonempty[OF k this] show ?thesis .
  qed
qed

text \<open>
  The \<^verbatim>\<open>try\<close> block, when no write to the stdin of a child fails: it throws the
  rejection of a file-system call or of a run, or it returns; a result with
  \<^verbatim>\<open>status = error\<close> that it returns is a compile failure.
\<close>

lemma try_body_ends:
  assumes "\<forall>k. StdinError \<notin> set (child env k)"
  shows "(\<exists>e. fst (try_body env cfg code inp tcs sd st w) = Throws e \<and>
            ((\<exists>n op. fs_rejects env n op = Some e) \<or>
             (\<exists>k. child_outcome (child env k) = Some (Inl e)))) \<or>
         (\<exists>cr t. fst (try_body env cfg code inp tcs sd st w) = Returns (compile_failed cr t)) \<or>
         (\<exists>r. fst (try_body env cfg code inp tcs sd st w) = Returns r \<and>
            status r = StatusSuccess)"
proof (cases "prepare env cfg code sd st w")
  case (Pair f w1)
  show ?thesis
  proof (cases f)
    case (Done out)
    then have "fst (try_body env cfg code inp tcs sd st w) = out"
      using Pair by (simp add: try_body_def)
    moreover from prepare_done[of env cfg code sd st w out w1] Pair Done
    have "(\<exists>n op e. out = Throws e \<and> fs_rejects env n op = Some e) \<or>
         (\<exists>k e. out = Throws e \<and> child_outcome (child env k) = Some (Inl e)) \<or>
         (\<exists>cr t. out = Returns (compile_failed cr t))"
      by simp
    ultimately show ?thesis by auto
  next
    case (Next p)
    obtain fp fn where p: "p = (fp, fn)" by (cases p)
    have "try_body env cfg code inp tcs sd st w = run_phase env cfg fp sd fn inp tcs st w1"
      using Pair Next p by (simp add: try_body_def)
    then show ?thesis using run_phase_ends[OF assms, of cfg fp sd fn inp tcs st w1] by auto
  qed
qed

lemma catch_block_Throws:
  "catch_block env st (Throws e, w) =
     (Returns \<lparr>output' = [], error = error_message e,
               executionTime = clock env (clock_reads w) - st,
               status = StatusError, testCases = None\<rparr>,
      w\<lparr>clock_reads := Suc (clock_reads w)\<rparr>)"
  by (simp add: catch_block_def Date_now_def)

lemma catch_block_Returns: "catch_block env st (Returns r, w) = (Returns r, w)"
  by (simp add: catch_block_def)

lemma finally_block_fst: "fst (finally_block env sd (out, w)) = out"
  by (cases out) (simp_all add: finally_block_def)

lemma finally_block_spawns: "spawns (snd (finally_block env sd (out, w))) = spawns w"
  by (cases out) (simp_all add: finally_block_def fs_call_def)

lemma executeCode_supported:
  assumes "getLanguage env language = Some cfg"
  shows "executeCode env code language inp tcs w =
           finally_block env (path_join env (TEMP_DIR env) (uuidv4 env))
             (catch_block env (clock env (clock_reads w))
                (try_body env cfg code inp tcs (path_join env (TEMP_DIR env) (uuidv4 env))
                   (clock env (clock_reads w)) (w\<lparr>clock_reads := Suc (clock_reads w)\<rparr>)))"
  using assms by (simp add: executeCode_def Date_now_def Let_def)

lemma executeCode_unsupported:
  assumes "getLanguage env language = None"
  shows "executeCode env code language inp tcs w =
           (Throws (Error (''Unsupported language: '' @ language)),
            w\<lparr>clock_reads := Suc (clock_reads w)\<rparr>)"
  using assms by (simp add: executeCode_def Date_now_def)

lemma executeCode_returns:
  assumes "getLanguage env language = Some cfg"
    and "\<forall>k. StdinError \<notin> set (child env k)"
  shows "\<exists>r. fst (executeCode env code language inp tcs w) = Returns r \<and>
           (status r = StatusError \<longrightarrow> output' r = [] \<and> testCases r = None) \<and>
           ((\<forall>n op x. fs_rejects env n op = Some x \<longrightarrow> error_message x \<noteq> []) \<and>
            (\<forall>k x. ProcError x \<in> set (child env k) \<longrightarrow> error_message x \<noteq> []) \<and>
            status r = StatusError \<longrightarrow> error r \<noteq> [])"
proof -
  let ?sd = "path_join env (TEMP_DIR env) (uuidv4 env)"
  let ?st = "clock env (clock_reads w)"
  let ?w1 = "w\<lparr>clock_reads := Suc (clock_reads w)\<rparr>"
  obtain out w2 where tb: "try_body env cfg code inp tcs ?sd ?st ?w1 = (out, w2)"
    by (cases "try_body env cfg code inp tcs ?sd ?st ?w1")
  from try_body_ends[OF assms(2), of cfg code inp tcs ?sd ?st ?w1] tb
  consider (thrown) e where "out = Throws e"
      "(\<exists>n op. fs_rejects env n op = Some e) \<or> (\<exists>k. child_outcome (child env k) = Some (Inl e))"
    | (failed) cr t where "out = Returns (compile_failed cr t)"
    | (success) r where "out = Returns r" "status r = StatusSuccess"
    by auto
  then show ?thesis
  proof cases
    case thrown
    have "(\<forall>n op x. fs_rejects env n op = Some x \<longrightarrow> error_message x \<noteq> []) \<and>
          (\<forall>k x. ProcError x \<in> set (child env k) \<longrightarrow> error_message x \<noteq> []) \<longrightarrow>
          error_message e \<noteq> []"
      using thrown_message[OF _ _ thrown(2)] by blast
    then show ?thesis
      unfolding executeCode_supported[OF assms(1)] tb thrown(1)
      by (simp add: catch_block_Throws finally_block_fst)
  next
    case failed
    show ?thesis
      unfolding executeCode_supported[OF assms(1)] tb failed
      by (simp add: catch_block_Returns finally_block_fst compile_failed_def)
  next
    case success
    show ?thesis
      unfolding executeCode_supported[OF assms(1)] tb success(1)
      using success(2) by (simp add: catch_block_Returns finally_block_fst)
  qed
qed

lemma executeCode_catches:
  assumes "getLanguage env language = Some cfg"
    and "try_body env cfg code inp tcs (path_join env (TEMP_DIR env) (uuidv4 env))
           (clock env (clock_reads w)) (w\<lparr>clock_reads := Suc (clock_reads w)\<rparr>) = (Throws e, w2)"
  shows "fst (executeCode env code language inp tcs w) =
           Returns \<lparr>output' = [], error = error_message e,
                    executionTime = clock env (clock_reads w2) - clock env (clock_reads w),
                    status = StatusError, testCases = None\<rparr>"
  unfolding executeCode_supported[OF assms(1)] assms(2)
  by (simp add: catch_block_Throws finally_block_fst)

lemma executeCode_run:
  assumes "run_setup env code language w = Some (cfg, sd, fp, fn, w2)"
  shows "executeCode env code language inp tcs w =
           finally_block env sd
             (catch_block env (clock env (clock_reads w))
                (run_phase env cfg fp sd fn inp tcs (clock env (clock_reads w)) w2))"
  using assms
  by (auto simp: run_setup_def executeCode_def try_body_def Date_now_def Let_def
      split: option.splits prod.splits flow.splits)

subsection \<open>Test-case mode\<close>

lemma case_result_echo:
  "res_input (case_result tc r t) = input tc \<and> res_expected (case_result tc r t) = expected tc"
  by (cases r) (simp_all add: case_result_def Let_def)

lemma case_result_rejected:
  "actualOutput (case_result tc (Inl e) t) = [] \<and> \<not> passed (case_result tc (Inl e) t) \<and>
   res_error (case_result tc (Inl e) t) = Some (error_message e)"
  by (simp add: case_result_def)

lemma case_result_resolved:
  "actualOutput (case_result tc (Inr res) t) = trim (stdout res) \<and>
   passed (case_result tc (Inr res) t) = (trim (stdout res) = trim (expected tc)) \<and>
   res_error (case_result tc (Inr res) t) = (if stderr res = [] then None else Some (stderr res))"
  by (simp add: case_result_def Let_def)

lemma executeCode_test_mode:
  assumes "run_setup env code language w = Some (cfg, sd, fp, fn, w2)"
    and "tcs = Some cases" and "cases \<noteq> []"
    and "\<forall>i < length cases.
           input (cases ! i) = [] \<or> StdinError \<notin> set (child env (length (spawns w2) + i))"
  shows "\<exists>rs w'. executeCode env code language inp tcs w =
            (Returns \<lparr>output' = [], error = [],
                      executionTime = clock env (clock_reads w2 + 2 * length cases)
                                      - clock env (clock_reads w),
                      status = StatusSuccess, testCases = Some rs\<rparr>, w') \<and>
          length rs = length cases \<and>
          (\<forall>i < length cases. \<exists>r.
             child_outcome (child env (length (spawns w2) + i)) = Some r \<and>
             rs ! i = case_result (cases ! i) r
                        (clock env (clock_reads w2 + 2 * i + 1)
                         - clock env (clock_reads w2 + 2 * i))) \<and>
          spawns w' = spawns w2 @
            map (\<lambda>tc. (command cfg, map (substitute fp sd fn) (args cfg), sd, input tc,
                        timeout cfg)) cases"
proof -
  obtain rs w3 where
    run: "run_test_cases env cfg fp sd fn cases [] w2 = (Next ([] @ rs), w3)"
    and len: "length rs = length cases"
    and each: "\<forall>i < length cases. \<exists>r.
        child_outcome (child env (length (spawns w2) + i)) = Some r \<and>
        rs ! i = case_result (cases ! i) r
                   (clock env (clock_reads w2 + 2 * i + 1) - clock env (clock_reads w2 + 2 * i))"
    and sp: "spawns w3 = spawns w2 @
       map (\<lambda>tc. (command cfg, map (substitute fp sd fn) (args cfg), sd, input tc, timeout cfg))
         cases"
    and cl: "clock_reads w3 = clock_reads w2 + 2 * length cases"
    using run_test_cases_spec[OF assms(4), of cfg fp sd fn "[]"] by blast
  let ?r = "\<lparr>output' = [], error = [],
             executionTime = clock env (clock_reads w2 + 2 * length cases)
                             - clock env (clock_reads w),
             status = StatusSuccess, testCases = Some rs\<rparr>"
  let ?w4 = "w3\<lparr>clock_reads := Suc (clock_reads w3)\<rparr>"
  have rp: "run_phase env cfg fp sd fn inp tcs (clock env (clock_reads w)) w2 = (Returns ?r, ?w4)"
    using assms(2,3) run cl by (simp add: run_phase_def given_cases_def Date_now_def)
  have ex: "executeCode env code language inp tcs w =
      (Returns ?r, snd (finally_block env sd (Returns ?r, ?w4)))"
    unfolding executeCode_run[OF assms(1)] rp catch_block_Returns
    by (simp add: finally_block_def)
  have "spawns (snd (finally_block env sd (Returns ?r, ?w4))) = spawns w2 @
       map (\<lambda>tc. (command cfg, map (substitute fp sd fn) (args cfg), sd, input tc, timeout cfg))
         cases"
    using sp by (simp add: finally_block_spawns)
  with ex len each show ?thesis by blast
qed

text \<open>
  When the call returns in test-case mode, the loop came to its end: no write to the stdin
  of the child of a case has failed.
\<close>

lemma test_mode_returned:
  assumes "run_setup env code language w = Some (cfg, sd, fp, fn, w2)"
    and "tcs = Some cases" and "cases \<noteq> []"
    and "executeCode env code language inp tcs w = (Returns r, w')"
  shows "\<forall>i < length cases.
           input (cases ! i) = [] \<or> StdinError \<notin> set (child env (length (spawns w2) + i))"
proof (cases "run_test_cases env cfg fp sd fn cases [] w2")
  case (Pair f w3)
  show ?thesis
  proof (cases f)
    case (Done out)
    then have "out = ProcessDied" using run_test_cases_Done Pair by blast
    then have "run_phase env cfg fp sd fn inp tcs (clock env (clock_reads w)) w2 =
        (ProcessDied, w3)"
      using assms(2,3) Pair Done by (simp add: run_phase_def given_cases_def)
    then have "executeCode env code language inp tcs w = (ProcessDied, w3)"
      unfolding executeCode_run[OF assms(1)] by (simp add: catch_block_def finally_block_def)
    then show ?thesis using assms(4) by simp
  next
    case (Next rs)
    then show ?thesis using run_test_cases_Next Pair by blast
  qed
qed

text \<open>
  In test-case mode, when no write to the stdin of a child fails, the call returns
  \<^verbatim>\<open>status = success\<close> with empty \<^verbatim>\<open>output\<close> and \<^verbatim>\<open>error\<close> and one result per test case,
  in the order of the request, each echoing the input and the expected value of its case. A
  case whose run is rejected (timeout, spawn error, output cap) has an empty
  \<^verbatim>\<open>actualOutput\<close>, \<^verbatim>\<open>passed = false\<close> and the message of the rejection as \<^verbatim>\<open>error\<close>,
  which is not empty when the error events of the runtime carry a message; and one child is
  spawned per case, whatever happened to the cases before it.
\<close>

lemma failures_recorded_when_stdin_holds:
  assumes "run_setup env code language w = Some (cfg, sessionDir, filepath, fname, w2)"
    and "tcs = Some cases" and "cases \<noteq> []"
    and "\<forall>k e. ProcError e \<in> set (child env k) \<longrightarrow> error_message e \<noteq> []"
    and "\<forall>i < length cases.
           input (cases ! i) = [] \<or> StdinError \<notin> set (child env (length (spawns w2) + i))"
  shows "\<exists>rs r w'. executeCode env code language inp tcs w = (Returns r, w') \<and>
           status r = StatusSuccess \<and> output' r = [] \<and> error r = [] \<and>
           testCases r = Some rs \<and> length rs = length cases \<and>
           (\<forall>i < length cases.
              res_input (rs ! i) = input (cases ! i) \<and>
              res_expected (rs ! i) = expected (cases ! i) \<and>
              (\<forall>e. child_outcome (child env (length (spawns w2) + i)) = Some (Inl e) \<longrightarrow>
                 actualOutput (rs ! i) = [] \<and> \<not> passed (rs ! i) \<and>
                 res_error (rs ! i) = Some (error_message e) \<and> error_message e \<noteq> [])) \<and>
           spawns w' = spawns w2 @
             map (\<lambda>tc. (command cfg, map (substitute filepath sessionDir fname) (args cfg),
                         sessionDir, input tc, timeout cfg)) cases"
proof -
  from executeCode_test_mode[OF assms(1-3,5), of inp]
  obtain rs w' where
    ex: "executeCode env code language inp tcs w =
            (Returns \<lparr>output' = [], error = [],
                      executionTime = clock env (clock_reads w2 + 2 * length cases)
                                      - clock env (clock_reads w),
                      status = StatusSuccess, testCases = Some rs\<rparr>, w')"
    and len: "length rs = length cases"
    and each: "\<forall>i < length cases. \<exists>r.
             child_outcome (child env (length (spawns w2) + i)) = Some r \<and>
             rs ! i = case_result (cases ! i) r
                        (clock env (clock_reads w2 + 2 * i + 1)
                         - clock env (clock_reads w2 + 2 * i))"
    and sp: "spawns w' = spawns w2 @
            map (\<lambda>tc. (command cfg, map (substitute filepath sessionDir fname) (args cfg),
                        sessionDir, input tc, timeout cfg)) cases"
    by blast
  have per: "\<forall>i < length cases.
              res_input (rs ! i) = input (cases ! i) \<and>
              res_expected (rs ! i) = expected (cases ! i) \<and>
              (\<forall>e. child_outcome (child env (length (spawns w2) + i)) = Some (Inl e) \<longrightarrow>
                 actualOutput (rs ! i) = [] \<and> \<not> passed (rs ! i) \<and>
                 res_error (rs ! i) = Some (error_message e) \<and> error_message e \<noteq> [])"
  proof (intro allI impI)
    fix i assume "i < length cases"
    with each obtain r t where r: "child_outcome (child env (length (spawns w2) + i)) = Some r"
      and ri: "rs ! i = case_result (cases ! i) r t"
      by blast
    have "\<forall>e. child_outcome (child env (length (spawns w2) + i)) = Some (Inl e) \<longrightarrow>
                 actualOutput (rs ! i) = [] \<and> \<not> passed (rs ! i) \<and>
                 res_error (rs ! i) = Some (error_message e) \<and> error_message e \<noteq> []"
    proof (intro allI impI)
      fix e assume e: "child_outcome (child env (length (spawns w2) + i)) = Some (Inl e)"
      then have "r = Inl e" using r by simp
      moreover have "error_message e \<noteq> []"
        using rejection_message_nonempty[OF e] assms(4) by blast
      ultimately show "actualOutput (rs ! i) = [] \<and> \<not> passed (rs ! i) \<and>
                 res_error (rs ! i) = Some (error_message e) \<and> error_message e \<noteq> []"
        using ri case_result_rejected[of "cases ! i" e t] by simp
    qed
    then show "res_input (rs ! i) = input (cases ! i) \<and>
              res_expected (rs ! i) = expected (cases ! i) \<and>
              (\<forall>e. child_outcome (child env (length (spawns w2) + i)) = Some (Inl e) \<longrightarrow>
                 actualOutput (rs ! i) = [] \<and> \<not> passed (rs ! i) \<and>
                 res_error (rs ! i) = Some (error_message e) \<and> error_message e \<noteq> [])"
      using ri case_result_echo[of "cases ! i" r t] by simp
  qed
  let ?r = "\<lparr>output' = [], error = [],
                      executionTime = clock env (clock_reads w2 + 2 * length cases)
                                      - clock env (clock_reads w),
                      status = StatusSuccess, testCases = Some rs\<rparr>"
  have "status ?r = StatusSuccess \<and> output' ?r = [] \<and> error ?r = [] \<and> testCases ?r = Some rs"
    by simp
  with ex len per sp show ?thesis by blast
qed

text \<open>The fields of the result of one case, from the outcome of its run.\<close>

lemma case_fields:
  assumes "child_outcome evs = Some r" and "x = case_result tc r t"
  shows "(\<forall>res. child_outcome evs = Some (Inr res) \<longrightarrow>
            actualOutput x = trim (stdout res) \<and>
            actualOutput x = stdout res \<and>
            (\<exists>pre code rest.
               evs = pre @ Close code # rest \<and> promise (run_events pre) = None \<and>
               actualOutput x = trim (acc_stdout (run_events pre))) \<and>
            (passed x \<longleftrightarrow> actualOutput x = trim (expected tc)) \<and>
            res_error x = (if stderr res = [] then None else Some (stderr res))) \<and>
         (\<forall>e. child_outcome evs = Some (Inl e) \<longrightarrow>
            actualOutput x = [] \<and> \<not> passed x \<and> res_error x = Some (error_message e))"
proof (intro conjI allI impI)
  fix res assume res: "child_outcome evs = Some (Inr res)"
  then have x: "x = case_result tc (Inr res) t" using assms by simp
  show a: "actualOutput x = trim (stdout res)"
    and "passed x \<longleftrightarrow> actualOutput x = trim (expected tc)"
    and "res_error x = (if stderr res = [] then None else Some (stderr res))"
    using x case_result_resolved[of tc res t] by simp_all
  show b: "actualOutput x = stdout res" using a resolved_trimmed[OF res] by simp
  from resolved_at_close[OF res] obtain pre code rest where
    "evs = pre @ Close code # rest" "promise (run_events pre) = None"
    "res = \<lparr>stdout = trim (acc_stdout (run_events pre)),
            stderr = trim (acc_stderr (run_events pre)),
            exitCode = exit_code_or_0 code\<rparr>"
    by blast
  then show "\<exists>pre code rest.
               evs = pre @ Close code # rest \<and> promise (run_events pre) = None \<and>
               actualOutput x = trim (acc_stdout (run_events pre))"
    using b by auto
next
  fix e assume "child_outcome evs = Some (Inl e)"
  then have "x = case_result tc (Inl e) t" using assms by simp
  then show "actualOutput x = []" "\<not> passed x" "res_error x = Some (error_message e)"
    using case_result_rejected[of tc e t] by simp_all
qed

text \<open>
  Claim C6, as the code has it. In test-case mode every result that the call returns holds
  one entry per test case, in order. For a test case whose run resolves, \<^verbatim>\<open>actualOutput\<close>
  is the trimmed stdout of the run (the trim of what the run returned, which is the trim of
  the stdout accumulated when the child closed), and \<^verbatim>\<open>passed\<close> holds exactly when
  \<^verbatim>\<open>actualOutput\<close> equals the trimmed expected value. For a test case whose run is rejected
  (timeout, spawn error, output cap), \<^verbatim>\<open>actualOutput\<close> is empty and \<^verbatim>\<open>passed\<close> is false,
  whatever the run printed and whatever is expected. And the call does return when no write
  to the stdin of the child of a case fails.
\<close>

theorem test_case_actual_output_and_passed:
  assumes "run_setup env code language w = Some (cfg, sessionDir, filepath, fname, w2)"
    and "tcs = Some cases" and "cases \<noteq> []"
  shows "(\<forall>r w'. executeCode env code language inp tcs w = (Returns r, w') \<longrightarrow>
           (\<exists>rs. testCases r = Some rs \<and> length rs = length cases \<and>
              (\<forall>i < length cases.
                 (\<forall>res. child_outcome (child env (length (spawns w2) + i)) = Some (Inr res) \<longrightarrow>
                    actualOutput (rs ! i) = trim (stdout res) \<and>
                    actualOutput (rs ! i) = stdout res \<and>
                    (\<exists>pre code rest.
                       child env (length (spawns w2) + i) = pre @ Close code # rest \<and>
                       promise (run_events pre) = None \<and>
                       actualOutput (rs ! i) = trim (acc_stdout (run_events pre))) \<and>
                    (passed (rs ! i) \<longleftrightarrow>
                       actualOutput (rs ! i) = trim (expected (cases ! i)))) \<and>
                 (\<forall>e. child_outcome (child env (length (spawns w2) + i)) = Some (Inl e) \<longrightarrow>
                    actualOutput (rs ! i) = [] \<and> \<not> passed (rs ! i))))) \<and>
         ((\<forall>i < length cases.
             input (cases ! i) = [] \<or>
             StdinError \<notin> set (child env (length (spawns w2) + i))) \<longrightarrow>
           (\<exists>rs r w'. executeCode env code language inp tcs w = (Returns r, w') \<and>
              testCases r = Some rs \<and> length rs = length cases \<and>
              (\<forall>i < length cases.
                 (\<forall>res. child_outcome (child env (length (spawns w2) + i)) = Some (Inr res) \<longrightarrow>
                    actualOutput (rs ! i) = trim (stdout res) \<and>
                    actualOutput (rs ! i) = stdout res \<and>
                    (\<exists>pre code rest.
                       child env (length (spawns w2) + i) = pre @ Close code # rest \<and>
                       promise (run_events pre) = None \<and>
                       actualOutput (rs ! i) = trim (acc_stdout (run_events pre))) \<and>
                    (passed (rs ! i) \<longleftrightarrow>
                       actualOutput (rs ! i) = trim (expected (cases ! i)))) \<and>
                 (\<forall>e. child_outcome (child env (length (spawns w2) + i)) = Some (Inl e) \<longrightarrow>
                    actualOutput (rs ! i) = [] \<and> \<not> passed (rs ! i)))))"
proof -
  let ?P = "\<lambda>rs. \<forall>i < length cases.
                 (\<forall>res. child_outcome (child env (length (spawns w2) + i)) = Some (Inr res) \<longrightarrow>
                    actualOutput (rs ! i) = trim (stdout res) \<and>
                    actualOutput (rs ! i) = stdout res \<and>
                    (\<exists>pre code rest.
                       child env (length (spawns w2) + i) = pre @ Close code # rest \<and>
                       promise (run_events pre) = None \<and>
                       actualOutput (rs ! i) = trim (acc_stdout (run_events pre))) \<and>
                    (passed (rs ! i) \<longleftrightarrow>
                       actualOutput (rs ! i) = trim (expected (cases ! i)))) \<and>
                 (\<forall>e. child_outcome (child env (length (spawns w2) + i)) = Some (Inl e) \<longrightarrow>
                    actualOutput (rs ! i) = [] \<and> \<not> passed (rs ! i))"
  have core: "\<exists>rs r w'. executeCode env code language inp tcs w = (Returns r, w') \<and>
              testCases r = Some rs \<and> length rs = length cases \<and> ?P rs"
    if ok: "\<forall>i < length cases.
             input (cases ! i) = [] \<or> StdinError \<notin> set (child env (length (spawns w2) + i))"
  proof -
    from executeCode_test_mode[OF assms(1-3) ok, of inp]
    obtain rs w' where
      ex: "executeCode env code language inp tcs w =
              (Returns \<lparr>output' = [], error = [],
                        executionTime = clock env (clock_reads w2 + 2 * length cases)
                                        - clock env (clock_reads w),
                        status = StatusSuccess, testCases = Some rs\<rparr>, w')"
      and len: "length rs = length cases"
      and each: "\<forall>i < length cases. \<exists>r.
               child_outcome (child env (length (spawns w2) + i)) = Some r \<and>
               rs ! i = case_result (cases ! i) r
                          (clock env (clock_reads w2 + 2 * i + 1)
                           - clock env (clock_reads w2 + 2 * i))"
      by blast
    have per: "?P rs"
    proof (intro allI impI)
      fix i assume "i < length cases"
      with each obtain r t where r: "child_outcome (child env (length (spawns w2) + i)) = Some r"
        and ri: "rs ! i = case_result (cases ! i) r t"
        by blast
      from case_fields[OF r ri] show
        "(\<forall>res. child_outcome (child env (length (spawns w2) + i)) = Some (Inr res) \<longrightarrow>
                    actualOutput (rs ! i) = trim (stdout res) \<and>
                    actualOutput (rs ! i) = stdout res \<and>
                    (\<exists>pre code rest.
                       child env (length (spawns w2) + i) = pre @ Close code # rest \<and>
                       promise (run_events pre) = None \<and>
                       actualOutput (rs ! i) = trim (acc_stdout (run_events pre))) \<and>
                    (passed (rs ! i) \<longleftrightarrow>
                       actualOutput (rs ! i) = trim (expected (cases ! i)))) \<and>
                 (\<forall>e. child_outcome (child env (length (spawns w2) + i)) = Some (Inl e) \<longrightarrow>
                    actualOutput (rs ! i) = [] \<and> \<not> passed (rs ! i))"
        by blast
    qed
    let ?r = "\<lparr>output' = [], error = [],
                        executionTime = clock env (clock_reads w2 + 2 * length cases)
                                        - clock env (clock_reads w),
                        status = StatusSuccess, testCases = Some rs\<rparr>"
    have "testCases ?r = Some rs" by simp
    with ex len per show ?thesis by blast
  qed
  have returned: "\<exists>rs. testCases r = Some rs \<and> length rs = length cases \<and> ?P rs"
    if ret: "executeCode env code language inp tcs w = (Returns r, w')" for r w'
  proof -
    from core[OF test_mode_returned[OF assms ret]] obtain rs r2 w2' where
      "executeCode env code language inp tcs w = (Returns r2, w2')"
      "testCases r2 = Some rs" "length rs = length cases" "?P rs"
      by blast
    moreover then have "r2 = r" using ret by simp
    ultimately show ?thesis by blast
  qed
  from core returned show ?thesis by blast
qed

text \<open>
  Claim C7, as the code has it. In test-case mode every result that the call returns holds
  one entry per test case, in order. For a test case whose run resolves, the \<^verbatim>\<open>error\<close>
  field is the trimmed stderr of the run when that is not empty, and absent when it is
  empty. For a test case whose run is rejected it is the message of the rejection. And the
  call does return when no write to the stdin of the child of a case fails.
\<close>

theorem test_case_error_is_stderr:
  assumes "run_setup env code language w = Some (cfg, sessionDir, filepath, fname, w2)"
    and "tcs = Some cases" and "cases \<noteq> []"
  shows "(\<forall>r w'. executeCode env code language inp tcs w = (Returns r, w') \<longrightarrow>
           (\<exists>rs. testCases r = Some rs \<and> length rs = length cases \<and>
              (\<forall>i < length cases.
                 (\<forall>res. child_outcome (child env (length (spawns w2) + i)) = Some (Inr res) \<longrightarrow>
                    res_error (rs ! i) = (if stderr res = [] then None else Some (stderr res))) \<and>
                 (\<forall>e. child_outcome (child env (length (spawns w2) + i)) = Some (Inl e) \<longrightarrow>
                    res_error (rs ! i) = Some (error_message e))))) \<and>
         ((\<forall>i < length cases.
             input (cases ! i) = [] \<or>
             StdinError \<notin> set (child env (length (spawns w2) + i))) \<longrightarrow>
           (\<exists>rs r w'. executeCode env code language inp tcs w = (Returns r, w') \<and>
              testCases r = Some rs \<and> length rs = length cases \<and>
              (\<forall>i < length cases.
                 (\<forall>res. child_outcome (child env (length (spawns w2) + i)) = Some (Inr res) \<longrightarrow>
                    res_error (rs ! i) = (if stderr res = [] then None else Some (stderr res))) \<and>
                 (\<forall>e. child_outcome (child env (length (spawns w2) + i)) = Some (Inl e) \<longrightarrow>
                    res_error (rs ! i) = Some (error_message e)))))"
proof -
  let ?P = "\<lambda>rs. \<forall>i < length cases.
                 (\<forall>res. child_outcome (child env (length (spawns w2) + i)) = Some (Inr res) \<longrightarrow>
                    res_error (rs ! i) = (if stderr res = [] then None else Some (stderr res))) \<and>
                 (\<forall>e. child_outcome (child env (length (spawns w2) + i)) = Some (Inl e) \<longrightarrow>
                    res_error (rs ! i) = Some (error_message e))"
  have core: "\<exists>rs r w'. executeCode env code language inp tcs w = (Returns r, w') \<and>
              testCases r = Some rs \<and> length rs = length cases \<and> ?P rs"
    if ok: "\<forall>i < length cases.
             input (cases ! i) = [] \<or> StdinError \<notin> set (child env (length (spawns w2) + i))"
  proof -
    from executeCode_test_mode[OF assms(1-3) ok, of inp]
    obtain rs w' where
      ex: "executeCode env code language inp tcs w =
              (Returns \<lparr>output' = [], error = [],
                        executionTime = clock env (clock_reads w2 + 2 * length cases)
                                        - clock env (clock_reads w),
                        status = StatusSuccess, testCases = Some rs\<rparr>, w')"
      and len: "length rs = length cases"
      and each: "\<forall>i < length cases. \<exists>r.
               child_outcome (child env (length (spawns w2) + i)) = Some r \<and>
               rs ! i = case_result (cases ! i) r
                          (clock env (clock_reads w2 + 2 * i + 1)
                           - clock env (clock_reads w2 + 2 * i))"
      by blast
    have per: "?P rs"
    proof (intro allI impI)
      fix i assume "i < length cases"
      with each obtain r t where r: "child_outcome (child env (length (spawns w2) + i)) = Some r"
        and ri: "rs ! i = case_result (cases ! i) r t"
        by blast
      from case_fields[OF r ri] show
        "(\<forall>res. child_outcome (child env (length (spawns w2) + i)) = Some (Inr res) \<longrightarrow>
                    res_error (rs ! i) = (if stderr res = [] then None else Some (stderr res))) \<and>
                 (\<forall>e. child_outcome (child env (length (spawns w2) + i)) = Some (Inl e) \<longrightarrow>
                    res_error (rs ! i) = Some (error_message e))"
        by blast
    qed
    let ?r = "\<lparr>output' = [], error = [],
                        executionTime = clock env (clock_reads w2 + 2 * length cases)
                                        - clock env (clock_reads w),
                        status = StatusSuccess, testCases = Some rs\<rparr>"
    have "testCases ?r = Some rs" by simp
    with ex len per show ?thesis by blast
  qed
  have returned: "\<exists>rs. testCases r = Some rs \<and> length rs = length cases \<and> ?P rs"
    if ret: "executeCode env code language inp tcs w = (Returns r, w')" for r w'
  proof -
    from core[OF test_mode_returned[OF assms ret]] obtain rs r2 w2' where
      "executeCode env code language inp tcs w = (Returns r2, w2')"
      "testCases r2 = Some rs" "length rs = length cases" "?P rs"
      by blast
    moreover then have "r2 = r" using ret by simp
    ultimately show ?thesis by blast
  qed
  from core returned show ?thesis by blast
qed

subsection \<open>The example run in test-case mode\<close>

lemmas eval_simps = exec_simps example_simps run_simps run_setup_def substitute_def
  js_replace_def trim_def isWhiteSpace_def

lemma example_setup:
  "run_setup (example_env example_procs) ''print(2*int(input()))'' ''python'' initial_world =
     Some (example_python, ''/tmp/code-execution/s1'', ''/tmp/code-execution/s1/main.py'',
           ''main.py'',
           \<lparr>clock_reads = 1, spawns = [],
            fs_ops = [Mkdir ''/tmp/code-execution/s1'',
                      WriteFile ''/tmp/code-execution/s1/main.py'' ''print(2*int(input()))'']\<rparr>)"
  by (simp add: eval_simps)

lemma example_outcomes:
  "child_outcome (example_procs 0) = Some (Inr \<lparr>stdout = ''10'', stderr = [], exitCode = 0\<rparr>)"
  "child_outcome (example_procs 1) = Some (Inl (Error ''Execution timeout''))"
  "child_outcome (example_procs 2) = Some (Inr \<lparr>stdout = ''0'', stderr = ''warn'', exitCode = 0\<rparr>)"
  "child_outcome (example_procs 3) = Some (Inl (Error ''spawn python3 ENOENT''))"
  by (simp_all add: eval_simps example_procs_def)

lemma example_messages:
  "\<forall>k e. ProcError e \<in> set (child (example_env example_procs) k) \<longrightarrow> error_message e \<noteq> []"
  by (auto simp: example_env_def example_procs_def)

lemma example_child: "child (example_env example_procs) k = example_procs k"
  by (simp add: example_env_def)

lemma example_cases_facts:
  "example_cases \<noteq> []" "length example_cases = 4"
  "expected (example_cases ! 0) = ''10''" "expected (example_cases ! 2) = ''0''"
  by (simp_all add: example_cases_def)

lemma example_stdin:
  "\<forall>i < length example_cases.
     input (example_cases ! i) = [] \<or>
     StdinError \<notin> set (child (example_env example_procs)
       (length (spawns \<lparr>clock_reads = 1, spawns = [],
            fs_ops = [Mkdir ''/tmp/code-execution/s1'',
                      WriteFile ''/tmp/code-execution/s1/main.py'' ''print(2*int(input()))'']\<rparr>)
        + i))"
  by (simp add: example_env_def example_procs_def)

theorem test_case_actual_output_and_passed_witness:
  "example_cases \<noteq> [] \<and>
   (\<exists>rs r w'. executeCode (example_env example_procs) ''print(2*int(input()))'' ''python'' []
                 (Some example_cases) initial_world = (Returns r, w') \<and>
      testCases r = Some rs \<and> length rs = 4 \<and>
      actualOutput (rs ! 0) = ''10'' \<and> passed (rs ! 0) \<and>
      actualOutput (rs ! 1) = [] \<and> \<not> passed (rs ! 1) \<and>
      actualOutput (rs ! 2) = ''0'' \<and> passed (rs ! 2) \<and>
      actualOutput (rs ! 3) = [] \<and> \<not> passed (rs ! 3))"
proof -
  let ?w2 = "\<lparr>clock_reads = 1, spawns = [],
            fs_ops = [Mkdir ''/tmp/code-execution/s1'',
                      WriteFile ''/tmp/code-execution/s1/main.py'' ''print(2*int(input()))'']\<rparr>"
  from test_case_actual_output_and_passed[OF example_setup refl example_cases_facts(1),
      of "[]", THEN conjunct2, THEN mp, OF example_stdin]
  obtain rs r w' where
    ex: "executeCode (example_env example_procs) ''print(2*int(input()))'' ''python'' []
                 (Some example_cases) initial_world = (Returns r, w')"
    and top: "testCases r = Some rs" "length rs = length example_cases"
    and per: "\<forall>i < length example_cases.
              (\<forall>res. child_outcome (child (example_env example_procs) (length (spawns ?w2) + i))
                = Some (Inr res) \<longrightarrow>
                actualOutput (rs ! i) = trim (stdout res) \<and>
                actualOutput (rs ! i) = stdout res \<and>
                (\<exists>pre code rest.
                   child (example_env example_procs) (length (spawns ?w2) + i)
                     = pre @ Close code # rest \<and>
                   promise (run_events pre) = None \<and>
                   actualOutput (rs ! i) = trim (acc_stdout (run_events pre))) \<and>
                (passed (rs ! i) \<longleftrightarrow> actualOutput (rs ! i) = trim (expected (example_cases ! i)))) \<and>
              (\<forall>e. child_outcome (child (example_env example_procs) (length (spawns ?w2) + i))
                = Some (Inl e) \<longrightarrow>
                actualOutput (rs ! i) = [] \<and> \<not> passed (rs ! i))"
    by blast
  have i: "(0::nat) < length example_cases" "(1::nat) < length example_cases"
    "(2::nat) < length example_cases" "(3::nat) < length example_cases"
    by (simp_all add: example_cases_facts)
  have t: "trim ''10'' = ''10''" "trim ''0'' = ''0''" by (simp_all add: trim_def isWhiteSpace_def)
  from per i(1) example_outcomes(1)
  have "actualOutput (rs ! 0) = ''10'' \<and> passed (rs ! 0)"
    by (auto simp: example_child example_cases_facts t)
  moreover from per i(2) example_outcomes(2)
  have "actualOutput (rs ! 1) = [] \<and> \<not> passed (rs ! 1)"
    by (auto simp: example_child)
  moreover from per i(3) example_outcomes(3)
  have "actualOutput (rs ! 2) = ''0'' \<and> passed (rs ! 2)"
    by (auto simp: example_child example_cases_facts t)
  moreover from per i(4) example_outcomes(4)
  have "actualOutput (rs ! 3) = [] \<and> \<not> passed (rs ! 3)"
    by (auto simp: example_child)
  ultimately show ?thesis using ex top example_cases_facts(1,2) by auto
qed

text \<open>
  The claim C6 as stated, at the example: the second child prints \<^verbatim>\<open>par\<close> and is stopped
  by the timer, and its case expects a blank. The \<^verbatim>\<open>actualOutput\<close> of the case is empty,
  not the trimmed stdout of the run; it equals the trimmed expected value, and \<^verbatim>\<open>passed\<close>
  is false.
\<close>

theorem timed_out_case_counterexample:
  "child_outcome (example_procs 1) = Some (Inl (Error ''Execution timeout'')) \<and>
   trim (acc_stdout (run_child (example_procs 1))) = ''par'' \<and>
   trim (expected (example_cases ! 1)) = [] \<and>
   fst (executeCode (example_env example_procs) ''print(2*int(input()))'' ''python'' []
          (Some example_cases) initial_world) =
     Returns
       \<lparr>output' = [], error = [], executionTime = 90, status = StatusSuccess,
        testCases = Some
          [\<lparr>res_input = ''5'', res_expected = ''10'', actualOutput = ''10'',
            passed = True, res_error = None, res_executionTime = 10\<rparr>,
           \<lparr>res_input = [], res_expected = '' '', actualOutput = [],
            passed = False, res_error = Some ''Execution timeout'', res_executionTime = 10\<rparr>,
           \<lparr>res_input = ''0'', res_expected = ''0'', actualOutput = ''0'',
            passed = True, res_error = Some ''warn'', res_executionTime = 10\<rparr>,
           \<lparr>res_input = ''7'', res_expected = ''14'', actualOutput = [],
            passed = False, res_error = Some ''spawn python3 ENOENT'',
            res_executionTime = 10\<rparr>]\<rparr>"
  by (simp add: eval_simps example_cases_def example_procs_def)

theorem test_case_error_is_stderr_witness:
  "example_cases \<noteq> [] \<and>
   (\<exists>rs r w'. executeCode (example_env example_procs) ''print(2*int(input()))'' ''python'' []
                 (Some example_cases) initial_world = (Returns r, w') \<and>
      testCases r = Some rs \<and> length rs = 4 \<and>
      res_error (rs ! 0) = None \<and> res_error (rs ! 2) = Some ''warn'' \<and>
      res_error (rs ! 3) = Some ''spawn python3 ENOENT'')"
proof -
  let ?w2 = "\<lparr>clock_reads = 1, spawns = [],
            fs_ops = [Mkdir ''/tmp/code-execution/s1'',
                      WriteFile ''/tmp/code-execution/s1/main.py'' ''print(2*int(input()))'']\<rparr>"
  from test_case_error_is_stderr[OF example_setup refl example_cases_facts(1), of "[]",
      THEN conjunct2, THEN mp, OF example_stdin]
  obtain rs r w' where
    ex: "executeCode (example_env example_procs) ''print(2*int(input()))'' ''python'' []
                 (Some example_cases) initial_world = (Returns r, w')"
    and top: "testCases r = Some rs" "length rs = length example_cases"
    and per: "\<forall>i < length example_cases.
              (\<forall>res. child_outcome (child (example_env example_procs) (length (spawns ?w2) + i))
                = Some (Inr res) \<longrightarrow>
                res_error (rs ! i) = (if stderr res = [] then None else Some (stderr res))) \<and>
              (\<forall>e. child_outcome (child (example_env example_procs) (length (spawns ?w2) + i))
                = Some (Inl e) \<longrightarrow>
                res_error (rs ! i) = Some (error_message e))"
    by blast
  have i: "(0::nat) < length example_cases" "(2::nat) < length example_cases"
    "(3::nat) < length example_cases"
    by (simp_all add: example_cases_facts)
  from per i(1) example_outcomes(1) have "res_error (rs ! 0) = None"
    by (auto simp: example_child)
  moreover from per i(2) example_outcomes(3) have "res_error (rs ! 2) = Some ''warn''"
    by (auto simp: example_child)
  moreover from per i(3) example_outcomes(4)
  have "res_error (rs ! 3) = Some ''spawn python3 ENOENT''"
    by (auto simp: example_child)
  ultimately show ?thesis using ex top example_cases_facts(1,2) by auto
qed

text \<open>
  The claim C7 as stated, at the example: the third child prints a warning on stderr and
  exits with code 0 within the timeout and the caps, and the result of its case has the
  \<^verbatim>\<open>error\<close> field set, to the warning.
\<close>

theorem completed_case_error_counterexample:
  "child_outcome (example_procs 2) =
     Some (Inr \<lparr>stdout = ''0'', stderr = ''warn'', exitCode = 0\<rparr>) \<and>
   fst (executeCode (example_env example_procs) ''print(2*int(input()))'' ''python'' []
          (Some example_cases) initial_world) =
     Returns
       \<lparr>output' = [], error = [], executionTime = 90, status = StatusSuccess,
        testCases = Some
          [\<lparr>res_input = ''5'', res_expected = ''10'', actualOutput = ''10'',
            passed = True, res_error = None, res_executionTime = 10\<rparr>,
           \<lparr>res_input = [], res_expected = '' '', actualOutput = [],
            passed = False, res_error = Some ''Execution timeout'', res_executionTime = 10\<rparr>,
           \<lparr>res_input = ''0'', res_expected = ''0'', actualOutput = ''0'',
            passed = True, res_error = Some ''warn'', res_executionTime = 10\<rparr>,
           \<lparr>res_input = ''7'', res_expected = ''14'', actualOutput = [],
            passed = False, res_error = Some ''spawn python3 ENOENT'',
            res_executionTime = 10\<rparr>]\<rparr>"
  by (simp add: eval_simps example_cases_def example_procs_def)

subsection \<open>An input that the child does not read\<close>

lemma large_input_nonempty: "large_input \<noteq> []"
  by (simp add: large_input_def)

lemma large_input_length: "length large_input = 500000"
  by (simp add: large_input_def)

text \<open>
  Claim C5 at a first test case with a large input that its program never reads. The run
  of the case fails by timeout. The claim has the failure recorded and the second case run
  all the same, and \<^verbatim>\<open>status = success\<close> returned. The timer kills the child, the write to
  its stdin fails, and the process of the executor ends: nothing is returned. With a short
  input for the first case the call returns the two failures.
\<close>

theorem unread_input_ends_test_cases:
  "child_outcome (example_unread_loop 0) = Some (Inl (Error ''Execution timeout'')) \<and>
   input (example_large_cases ! 0) = large_input \<and> length large_input = 500000 \<and>
   fst (executeCode (example_env example_unread_loop) ''while True: pass'' ''python'' []
          (Some example_large_cases) initial_world) = ProcessDied \<and>
   executeCode (example_env example_loop) ''while True: pass'' ''python'' []
       (Some example_small_cases) initial_world =
     (Returns
        \<lparr>output' = [], error = [], executionTime = 50, status = StatusSuccess,
         testCases = Some
           [\<lparr>res_input = ''7'', res_expected = ''14'', actualOutput = [],
             passed = False, res_error = Some ''Execution timeout'', res_executionTime = 10\<rparr>,
            \<lparr>res_input = ''5'', res_expected = ''10'', actualOutput = [],
             passed = False, res_error = Some ''Execution timeout'',
             res_executionTime = 10\<rparr>]\<rparr>,
      \<lparr>clock_reads = 6,
       spawns = [(''python3'', [''/tmp/code-execution/s1/main.py''], ''/tmp/code-execution/s1'',
                  ''7'', 5000),
                 (''python3'', [''/tmp/code-execution/s1/main.py''], ''/tmp/code-execution/s1'',
                  ''5'', 5000)],
       fs_ops = [Mkdir ''/tmp/code-execution/s1'',
                 WriteFile ''/tmp/code-execution/s1/main.py'' ''while True: pass'',
                 Rm ''/tmp/code-execution/s1'']\<rparr>)"
  by (simp add: eval_simps example_large_cases_def example_small_cases_def
      example_unread_loop_def example_loop_def large_input_nonempty large_input_length)

subsection \<open>Single-run mode\<close>

lemma single_run_resolved:
  assumes "run_setup env code language w = Some (cfg, sd, fp, fn, w2)"
    and "tcs = None \<or> tcs = Some []"
    and "child_outcome (child env (length (spawns w2))) = Some (Inr result)"
    and "inp = [] \<or> StdinError \<notin> set (child env (length (spawns w2)))"
  shows "fst (executeCode env code language inp tcs w) =
           Returns \<lparr>output' = stdout result, error = stderr result,
                    executionTime = clock env (clock_reads w2) - clock env (clock_reads w),
                    status = StatusSuccess, testCases = None\<rparr>"
proof -
  have g: "given_cases tcs = []" using assms(2) by (auto simp: given_cases_def)
  have "run_phase env cfg fp sd fn inp tcs (clock env (clock_reads w)) w2 =
      (Returns \<lparr>output' = stdout result, error = stderr result,
                    executionTime = clock env (clock_reads w2) - clock env (clock_reads w),
                    status = StatusSuccess, testCases = None\<rparr>,
       w2\<lparr>spawns := spawns w2 @
             [(command cfg, map (substitute fp sd fn) (args cfg), sd, inp, timeout cfg)],
           clock_reads := Suc (clock_reads w2)\<rparr>)"
    using g runCommand_settled[OF assms(4,3)] by (simp add: run_phase_def Date_now_def)
  then show ?thesis
    unfolding executeCode_run[OF assms(1)] by (simp add: catch_block_Returns finally_block_fst)
qed

lemma single_run_rejected:
  assumes "run_setup env code language w = Some (cfg, sd, fp, fn, w2)"
    and "tcs = None \<or> tcs = Some []"
    and "child_outcome (child env (length (spawns w2))) = Some (Inl e)"
    and "inp = [] \<or> StdinError \<notin> set (child env (length (spawns w2)))"
  shows "fst (executeCode env code language inp tcs w) =
           Returns \<lparr>output' = [], error = error_message e,
                    executionTime = clock env (clock_reads w2) - clock env (clock_reads w),
                    status = StatusError, testCases = None\<rparr>"
proof -
  have g: "given_cases tcs = []" using assms(2) by (auto simp: given_cases_def)
  have "run_phase env cfg fp sd fn inp tcs (clock env (clock_reads w)) w2 =
      (Throws e,
       w2\<lparr>spawns := spawns w2 @
             [(command cfg, map (substitute fp sd fn) (args cfg), sd, inp, timeout cfg)]\<rparr>)"
    using g runCommand_settled[OF assms(4,3)] by (simp add: run_phase_def)
  then show ?thesis
    unfolding executeCode_run[OF assms(1)] by (simp add: catch_block_Throws finally_block_fst)
qed

lemma close_exit_code:
  assumes "promise (run_events pre) = None"
  shows "\<exists>r. child_outcome (pre @ Close code # rest) = Some (Inr r) \<and>
              exitCode r = (case code of None \<Rightarrow> 0 | Some c \<Rightarrow> c)"
  using close_resolves[OF assms, of code rest] by (simp add: exit_code_or_0_def)

text \<open>
  In single-run mode (no test cases, or an empty list of them), when the run of the child
  resolves, with whatever exit code, and the write to its stdin does not fail, the call
  returns \<^verbatim>\<open>status = success\<close> with the stdout of the run as \<^verbatim>\<open>output\<close> and its stderr
  as \<^verbatim>\<open>error\<close>: the exit code is in no field of the result. A run resolves at the close
  event of a child that was not killed, and a \<^verbatim>\<open>null\<close> exit code becomes 0.
\<close>

lemma single_run_success_when_stdin_holds:
  assumes "run_setup env code language w = Some (cfg, sessionDir, filepath, fname, w2)"
    and "tcs = None \<or> tcs = Some []"
    and "child_outcome (child env (length (spawns w2))) = Some (Inr result)"
    and "inp = [] \<or> StdinError \<notin> set (child env (length (spawns w2)))"
  shows "fst (executeCode env code language inp tcs w) =
           Returns \<lparr>output' = stdout result, error = stderr result,
                    executionTime = clock env (clock_reads w2) - clock env (clock_reads w),
                    status = StatusSuccess, testCases = None\<rparr> \<and>
         (\<exists>pre code rest.
            child env (length (spawns w2)) = pre @ Close code # rest \<and>
            promise (run_events pre) = None \<and>
            exitCode result = (case code of None \<Rightarrow> 0 | Some c \<Rightarrow> c))"
proof -
  from resolved_at_close[OF assms(3)] obtain pre code rest where
    "child env (length (spawns w2)) = pre @ Close code # rest"
    "promise (run_events pre) = None"
    "result = \<lparr>stdout = trim (acc_stdout (run_events pre)),
            stderr = trim (acc_stderr (run_events pre)),
            exitCode = exit_code_or_0 code\<rparr>"
    by blast
  then have "\<exists>pre code rest.
            child env (length (spawns w2)) = pre @ Close code # rest \<and>
            promise (run_events pre) = None \<and>
            exitCode result = (case code of None \<Rightarrow> 0 | Some c \<Rightarrow> c)"
    by (auto simp: exit_code_or_0_def)
  with single_run_resolved[OF assms] show ?thesis by blast
qed

lemma example_single_setup:
  "run_setup (example_env procs) ''print(1/0)'' ''python'' initial_world =
     Some (example_python, ''/tmp/code-execution/s1'', ''/tmp/code-execution/s1/main.py'',
           ''main.py'',
           \<lparr>clock_reads = 1, spawns = [],
            fs_ops = [Mkdir ''/tmp/code-execution/s1'',
                      WriteFile ''/tmp/code-execution/s1/main.py'' ''print(1/0)'']\<rparr>)"
  by (simp add: eval_simps)

lemma example_single_outcomes:
  "child_outcome (example_crash k) =
     Some (Inr \<lparr>stdout = ''1'', stderr = ''ZeroDivisionError'', exitCode = 1\<rparr>)"
  "child_outcome (example_signalled k) = Some (Inr \<lparr>stdout = ''1'', stderr = [], exitCode = 0\<rparr>)"
  "child_outcome (example_hang k) = Some (Inl (Error ''Execution timeout''))"
  by (simp_all add: eval_simps example_crash_def example_signalled_def example_hang_def)

lemma example_single_runs:
  "fst (executeCode (example_env example_crash) ''print(1/0)'' ''python'' [] None initial_world) =
     Returns \<lparr>output' = ''1'', error = ''ZeroDivisionError'', executionTime = 10,
              status = StatusSuccess, testCases = None\<rparr>"
  "fst (executeCode (example_env example_signalled) ''print(1/0)'' ''python'' [] (Some [])
          initial_world) =
     Returns \<lparr>output' = ''1'', error = [], executionTime = 10,
              status = StatusSuccess, testCases = None\<rparr>"
proof -
  let ?w2 = "\<lparr>clock_reads = 1, spawns = [],
            fs_ops = [Mkdir ''/tmp/code-execution/s1'',
                      WriteFile ''/tmp/code-execution/s1/main.py'' ''print(1/0)'']\<rparr>"
  have c: "child_outcome (child (example_env example_crash) (length (spawns ?w2))) =
      Some (Inr \<lparr>stdout = ''1'', stderr = ''ZeroDivisionError'', exitCode = 1\<rparr>)"
    by (simp add: example_env_def example_single_outcomes)
  have s: "child_outcome (child (example_env example_signalled) (length (spawns ?w2))) =
      Some (Inr \<lparr>stdout = ''1'', stderr = [], exitCode = 0\<rparr>)"
    by (simp add: example_env_def example_single_outcomes)
  have n: "(None :: TestCase list option) = None \<or> None = Some []"
    and e: "Some [] = None \<or> Some ([] :: TestCase list) = Some []"
    by simp_all
  from single_run_success_when_stdin_holds[OF example_single_setup n c, of "[]"]
  show "fst (executeCode (example_env example_crash) ''print(1/0)'' ''python'' [] None
      initial_world) =
     Returns \<lparr>output' = ''1'', error = ''ZeroDivisionError'', executionTime = 10,
              status = StatusSuccess, testCases = None\<rparr>"
    by (simp add: example_env_def initial_world_def)
  from single_run_success_when_stdin_holds[OF example_single_setup e s, of "[]"]
  show "fst (executeCode (example_env example_signalled) ''print(1/0)'' ''python'' [] (Some [])
          initial_world) =
     Returns \<lparr>output' = ''1'', error = [], executionTime = 10,
              status = StatusSuccess, testCases = None\<rparr>"
    by (simp add: example_env_def initial_world_def)
qed

text \<open>
  Claim C9 at a single run with a large input that the program does not read. The child
  prints a line and exits with code 0, within the timeout and the caps: the promise of the
  run resolves. The claim has \<^verbatim>\<open>status = success\<close> returned. The write to the stdin of
  the child fails, and the process of the executor ends: nothing is returned.
\<close>

theorem unread_input_ends_single_run:
  "child_outcome (example_unread 0) =
     Some (Inr \<lparr>stdout = ''1'', stderr = [], exitCode = 0\<rparr>) \<and>
   length large_input = 500000 \<and>
   fst (executeCode (example_env example_unread) ''print(1)'' ''python'' large_input None
          initial_world) = ProcessDied"
  by (simp add: eval_simps example_unread_def large_input_nonempty large_input_length)

subsection \<open>A rejected creation of the session directory\<close>

lemma try_body_mkdir_rejected:
  assumes "fs_rejects env (length (fs_ops w)) (Mkdir sd) = Some e"
  shows "try_body env cfg code inp tcs sd st w = (Throws e, w\<lparr>fs_ops := fs_ops w @ [Mkdir sd]\<rparr>)"
  using assms by (simp add: try_body_def prepare_def write_source_def fs_call_def)

subsection \<open>A compile command that exits with a non-zero code\<close>

lemma compile_failed_fields:
  "compile_failed cr t =
     \<lparr>output' = [],
      error = ''Compilation failed: '' @ (if stderr cr = [] then stdout cr else stderr cr),
      executionTime = t, status = StatusError, testCases = None\<rparr>"
  by (simp add: compile_failed_def)

text \<open>
  The executor with the cache: when the cache misses and the compile command exits with a
  non-zero code, the call returns the compile failure and spawns nothing else.
\<close>

lemma executeCode_compile_failed:
  assumes lang: "getLanguage env language = Some cfg" and cc: "compile cfg = Some cc"
    and sd: "sd = path_join env (TEMP_DIR env) (uuidv4 env)"
    and ws: "write_source env cfg code sd (w\<lparr>clock_reads := Suc (clock_reads w)\<rparr>) =
               (Next (fp, fn), w2)"
    and miss: "cache_lookup env cfg
                 (path_join env (path_join env (CACHE_DIR env) (name cfg))
                    (cacheKey (sha256_hex env) cfg cc code))
                 sd (snd (ensureDir env (CACHE_DIR env) w2)) = (Next False, w3)"
    and run: "child_outcome (child env (length (spawns w3))) = Some (Inr cr)"
    and code: "exitCode cr \<noteq> 0"
  shows "fst (executeCode env code language inp tcs w) =
           Returns \<lparr>output' = [],
                    error = ''Compilation failed: '' @
                      (if stderr cr = [] then stdout cr else stderr cr),
                    executionTime = clock env (clock_reads w3) - clock env (clock_reads w),
                    status = StatusError, testCases = None\<rparr> \<and>
         spawns (snd (executeCode env code language inp tcs w)) =
           spawns w3 @ [(c_command cc, map (substitute fp sd fn) (c_args cc), sd, [],
                         compile_timeout cc)]"
proof -
  let ?st = "clock env (clock_reads w)"
  let ?w4 = "w3\<lparr>spawns := spawns w3 @ [(c_command cc, map (substitute fp sd fn) (c_args cc), sd, [],
                         compile_timeout cc)], clock_reads := Suc (clock_reads w3)\<rparr>"
  have cp: "compile_phase env cfg cc code fp sd fn ?st w2 =
      (Done (Returns (compile_failed cr (clock env (clock_reads w3) - ?st))), ?w4)"
    using miss run code by (simp add: compile_phase_def Let_def runCommand_def Date_now_def)
  have "try_body env cfg code inp tcs sd ?st (w\<lparr>clock_reads := Suc (clock_reads w)\<rparr>) =
      (Returns (compile_failed cr (clock env (clock_reads w3) - ?st)), ?w4)"
    using ws cc cp by (simp add: try_body_def prepare_def)
  then have "executeCode env code language inp tcs w =
      finally_block env sd (Returns (compile_failed cr (clock env (clock_reads w3) - ?st)), ?w4)"
    unfolding executeCode_supported[OF lang] sd[symmetric] by (simp add: catch_block_Returns)
  then show ?thesis
    by (simp add: finally_block_def fs_call_def compile_failed_fields)
qed

text \<open>
  The same, when the run of the compile command is rejected (timeout, output cap, spawn
  error): the rejection is thrown and comes back from the \<^verbatim>\<open>catch\<close> block.
\<close>

lemma executeCode_compile_rejected:
  assumes lang: "getLanguage env language = Some cfg" and cc: "compile cfg = Some cc"
    and sd: "sd = path_join env (TEMP_DIR env) (uuidv4 env)"
    and ws: "write_source env cfg code sd (w\<lparr>clock_reads := Suc (clock_reads w)\<rparr>) =
               (Next (fp, fn), w2)"
    and miss: "cache_lookup env cfg
                 (path_join env (path_join env (CACHE_DIR env) (name cfg))
                    (cacheKey (sha256_hex env) cfg cc code))
                 sd (snd (ensureDir env (CACHE_DIR env) w2)) = (Next False, w3)"
    and run: "child_outcome (child env (length (spawns w3))) = Some (Inl e)"
  shows "fst (executeCode env code language inp tcs w) =
           Returns \<lparr>output' = [], error = error_message e,
                    executionTime = clock env (clock_reads w3) - clock env (clock_reads w),
                    status = StatusError, testCases = None\<rparr>"
proof -
  let ?st = "clock env (clock_reads w)"
  let ?w4 = "w3\<lparr>spawns := spawns w3 @ [(c_command cc, map (substitute fp sd fn) (c_args cc), sd, [],
                         compile_timeout cc)]\<rparr>"
  have cp: "compile_phase env cfg cc code fp sd fn ?st w2 = (Done (Throws e), ?w4)"
    using miss run by (simp add: compile_phase_def Let_def runCommand_def)
  have "try_body env cfg code inp tcs sd ?st (w\<lparr>clock_reads := Suc (clock_reads w)\<rparr>) =
      (Throws e, ?w4)"
    using ws cc cp by (simp add: try_body_def prepare_def)
  from executeCode_catches[OF lang this[unfolded sd]] show ?thesis by simp
qed

subsection \<open>What the call throws and what it returns\<close>

text \<open>
  A call that does not get to the run phase returns \<^verbatim>\<open>status = error\<close>: a file-system
  call or the compile run was rejected, or the compile command exited with a non-zero code.
\<close>

lemma executeCode_setup_failed:
  assumes "getLanguage env language = Some cfg"
    and "run_setup env code language w = None"
  shows "\<exists>r. fst (executeCode env code language inp tcs w) = Returns r \<and> status r = StatusError"
proof -
  let ?sd = "path_join env (TEMP_DIR env) (uuidv4 env)"
  let ?st = "clock env (clock_reads w)"
  let ?w1 = "w\<lparr>clock_reads := Suc (clock_reads w)\<rparr>"
  obtain out w2 where pr: "prepare env cfg code ?sd ?st ?w1 = (Done out, w2)"
    using assms
    by (auto simp: run_setup_def Date_now_def Let_def split: prod.splits flow.splits)
  then have tb: "try_body env cfg code inp tcs ?sd ?st ?w1 = (out, w2)"
    by (simp add: try_body_def)
  from prepare_done[OF pr]
  consider (thrown) e where "out = Throws e"
    | (failed) cr t where "out = Returns (compile_failed cr t)"
    by blast
  then show ?thesis
  proof cases
    case thrown
    show ?thesis
      unfolding executeCode_supported[OF assms(1)] tb thrown
      by (simp add: catch_block_Throws finally_block_fst)
  next
    case failed
    show ?thesis
      unfolding executeCode_supported[OF assms(1)] tb failed
      by (simp add: catch_block_Returns finally_block_fst compile_failed_def)
  qed
qed

lemma test_mode_errors_recorded:
  assumes "run_setup env code language w = Some (cfg, sd, fp, fn, w2)"
    and "tcs = Some cases" and "cases \<noteq> []"
    and "\<forall>k. StdinError \<notin> set (child env k)"
  shows "\<exists>rs r. fst (executeCode env code language inp tcs w) = Returns r \<and>
           status r = StatusSuccess \<and> testCases r = Some rs \<and> length rs = length cases \<and>
           (\<forall>i < length cases. \<forall>e.
              child_outcome (child env (length (spawns w2) + i)) = Some (Inl e) \<longrightarrow>
                res_error (rs ! i) = Some (error_message e) \<and>
                ((\<forall>k x. ProcError x \<in> set (child env k) \<longrightarrow> error_message x \<noteq> []) \<longrightarrow>
                   error_message e \<noteq> []))"
proof -
  have "\<forall>i < length cases.
          input (cases ! i) = [] \<or> StdinError \<notin> set (child env (length (spawns w2) + i))"
    using assms(4) by blast
  from executeCode_test_mode[OF assms(1-3) this, of inp]
  obtain rs w' where
    ex: "executeCode env code language inp tcs w =
            (Returns \<lparr>output' = [], error = [],
                      executionTime = clock env (clock_reads w2 + 2 * length cases)
                                      - clock env (clock_reads w),
                      status = StatusSuccess, testCases = Some rs\<rparr>, w')"
    and len: "length rs = length cases"
    and each: "\<forall>i < length cases. \<exists>r.
             child_outcome (child env (length (spawns w2) + i)) = Some r \<and>
             rs ! i = case_result (cases ! i) r
                        (clock env (clock_reads w2 + 2 * i + 1)
                         - clock env (clock_reads w2 + 2 * i))"
    by blast
  have per: "\<forall>i < length cases. \<forall>e.
              child_outcome (child env (length (spawns w2) + i)) = Some (Inl e) \<longrightarrow>
                res_error (rs ! i) = Some (error_message e) \<and>
                ((\<forall>k x. ProcError x \<in> set (child env k) \<longrightarrow> error_message x \<noteq> []) \<longrightarrow>
                   error_message e \<noteq> [])"
  proof (intro allI impI conjI)
    fix i e
    assume i: "i < length cases"
      and e: "child_outcome (child env (length (spawns w2) + i)) = Some (Inl e)"
    from each i obtain r t where "child_outcome (child env (length (spawns w2) + i)) = Some r"
      and "rs ! i = case_result (cases ! i) r t"
      by blast
    then have "rs ! i = case_result (cases ! i) (Inl e) t" using e by simp
    then show "res_error (rs ! i) = Some (error_message e)"
      using case_result_rejected[of "cases ! i" e t] by simp
    assume "\<forall>k x. ProcError x \<in> set (child env k) \<longrightarrow> error_message x \<noteq> []"
    then have "\<forall>x. ProcError x \<in> set (child env (length (spawns w2) + i)) \<longrightarrow>
        error_message x \<noteq> []"
      by blast
    from rejection_message_nonempty[OF e this] show "error_message e \<noteq> []" .
  qed
  let ?r = "\<lparr>output' = [], error = [],
                      executionTime = clock env (clock_reads w2 + 2 * length cases)
                                      - clock env (clock_reads w),
                      status = StatusSuccess, testCases = Some rs\<rparr>"
  have "fst (executeCode env code language inp tcs w) = Returns ?r" using ex by simp
  moreover have "status ?r = StatusSuccess \<and> testCases ?r = Some rs" by simp
  ultimately show ?thesis using len per by blast
qed

text \<open>
  Claim C1, as the code has it. For a language that is not registered the call throws
  \<^verbatim>\<open>Unsupported language: <name>\<close>. For a registered language, when no write to the
  stdin of a child fails, the call returns a result and does not throw; a result with
  \<^verbatim>\<open>status = error\<close> has an empty \<^verbatim>\<open>output\<close> and no test cases, and its \<^verbatim>\<open>error\<close> is
  not empty when the errors of the runtime carry a message. A call that does not get to the
  run phase returns \<^verbatim>\<open>status = error\<close>. Whatever is thrown inside the \<^verbatim>\<open>try\<close> block
  comes back as \<^verbatim>\<open>status = error\<close> with the message of the thrown error: so does a
  rejected creation of the session directory, so does a compile run that is rejected, and
  so does a single run that is rejected (timeout, output cap, spawn error). A compile
  command that exits with a non-zero code comes back as \<^verbatim>\<open>status = error\<close> with
  \<^verbatim>\<open>Compilation failed: \<close> and its output. In test-case mode the rejection of a run is
  recorded in the \<^verbatim>\<open>error\<close> field of its case, and the call returns
  \<^verbatim>\<open>status = success\<close>.
\<close>

theorem executeCode_throws_only_unsupported:
  "(getLanguage env language = None \<longrightarrow>
      fst (executeCode env code language inp tcs w) =
        Throws (Error (''Unsupported language: '' @ language))) \<and>
   (getLanguage env language = Some cfg \<and> (\<forall>k. StdinError \<notin> set (child env k)) \<longrightarrow>
      (\<exists>r. fst (executeCode env code language inp tcs w) = Returns r \<and>
         (status r = StatusError \<longrightarrow> output' r = [] \<and> testCases r = None) \<and>
         ((\<forall>n op x. fs_rejects env n op = Some x \<longrightarrow> error_message x \<noteq> []) \<and>
          (\<forall>k x. ProcError x \<in> set (child env k) \<longrightarrow> error_message x \<noteq> []) \<and>
          status r = StatusError \<longrightarrow> error r \<noteq> [])) \<and>
      (run_setup env code language w = None \<longrightarrow>
         (\<exists>r. fst (executeCode env code language inp tcs w) = Returns r \<and>
            status r = StatusError)) \<and>
      (try_body env cfg code inp tcs (path_join env (TEMP_DIR env) (uuidv4 env))
         (clock env (clock_reads w)) (w\<lparr>clock_reads := Suc (clock_reads w)\<rparr>) = (Throws e, w') \<longrightarrow>
         fst (executeCode env code language inp tcs w) =
           Returns \<lparr>output' = [], error = error_message e,
                    executionTime = clock env (clock_reads w') - clock env (clock_reads w),
                    status = StatusError, testCases = None\<rparr>) \<and>
      (fs_rejects env (length (fs_ops w)) (Mkdir (path_join env (TEMP_DIR env) (uuidv4 env)))
         = Some e \<longrightarrow>
         fst (executeCode env code language inp tcs w) =
           Returns \<lparr>output' = [], error = error_message e,
                    executionTime = clock env (Suc (clock_reads w)) - clock env (clock_reads w),
                    status = StatusError, testCases = None\<rparr>) \<and>
      (compile cfg = Some cc \<and>
       write_source env cfg code (path_join env (TEMP_DIR env) (uuidv4 env))
         (w\<lparr>clock_reads := Suc (clock_reads w)\<rparr>) = (Next (filepath, fname), wa) \<and>
       cache_lookup env cfg
         (path_join env (path_join env (CACHE_DIR env) (name cfg))
            (cacheKey (sha256_hex env) cfg cc code))
         (path_join env (TEMP_DIR env) (uuidv4 env))
         (snd (ensureDir env (CACHE_DIR env) wa)) = (Next False, wb) \<longrightarrow>
         (child_outcome (child env (length (spawns wb))) = Some (Inr cr) \<and> exitCode cr \<noteq> 0 \<longrightarrow>
            fst (executeCode env code language inp tcs w) =
              Returns \<lparr>output' = [],
                       error = ''Compilation failed: '' @
                         (if stderr cr = [] then stdout cr else stderr cr),
                       executionTime = clock env (clock_reads wb) - clock env (clock_reads w),
                       status = StatusError, testCases = None\<rparr>) \<and>
         (child_outcome (child env (length (spawns wb))) = Some (Inl e) \<longrightarrow>
            fst (executeCode env code language inp tcs w) =
              Returns \<lparr>output' = [], error = error_message e,
                       executionTime = clock env (clock_reads wb) - clock env (clock_reads w),
                       status = StatusError, testCases = None\<rparr>)) \<and>
      (run_setup env code language w = Some (cfg, sessionDir, filepath, fname, w2) \<and>
       (tcs = None \<or> tcs = Some []) \<and>
       child_outcome (child env (length (spawns w2))) = Some (Inl e) \<longrightarrow>
         fst (executeCode env code language inp tcs w) =
           Returns \<lparr>output' = [], error = error_message e,
                    executionTime = clock env (clock_reads w2) - clock env (clock_reads w),
                    status = StatusError, testCases = None\<rparr>) \<and>
      (run_setup env code language w = Some (cfg, sessionDir, filepath, fname, w2) \<and>
       tcs = Some cases \<and> cases \<noteq> [] \<longrightarrow>
         (\<exists>rs r. fst (executeCode env code language inp tcs w) = Returns r \<and>
            status r = StatusSuccess \<and> testCases r = Some rs \<and> length rs = length cases \<and>
            (\<forall>i < length cases. \<forall>e.
               child_outcome (child env (length (spawns w2) + i)) = Some (Inl e) \<longrightarrow>
                 res_error (rs ! i) = Some (error_message e) \<and>
                 ((\<forall>k x. ProcError x \<in> set (child env k) \<longrightarrow> error_message x \<noteq> []) \<longrightarrow>
                    error_message e \<noteq> [])))))"
proof (intro conjI impI)
  assume "getLanguage env language = None"
  then show "fst (executeCode env code language inp tcs w) =
        Throws (Error (''Unsupported language: '' @ language))"
    by (simp add: executeCode_unsupported)
next
  assume "getLanguage env language = Some cfg \<and> (\<forall>k. StdinError \<notin> set (child env k))"
  then show "\<exists>r. fst (executeCode env code language inp tcs w) = Returns r \<and>
         (status r = StatusError \<longrightarrow> output' r = [] \<and> testCases r = None) \<and>
         ((\<forall>n op x. fs_rejects env n op = Some x \<longrightarrow> error_message x \<noteq> []) \<and>
          (\<forall>k x. ProcError x \<in> set (child env k) \<longrightarrow> error_message x \<noteq> []) \<and>
          status r = StatusError \<longrightarrow> error r \<noteq> [])"
    using executeCode_returns by blast
next
  assume "getLanguage env language = Some cfg \<and> (\<forall>k. StdinError \<notin> set (child env k))"
    and "run_setup env code language w = None"
  then show "\<exists>r. fst (executeCode env code language inp tcs w) = Returns r \<and>
            status r = StatusError"
    using executeCode_setup_failed by blast
next
  assume h: "getLanguage env language = Some cfg \<and> (\<forall>k. StdinError \<notin> set (child env k))"
    and t: "try_body env cfg code inp tcs (path_join env (TEMP_DIR env) (uuidv4 env))
         (clock env (clock_reads w)) (w\<lparr>clock_reads := Suc (clock_reads w)\<rparr>) = (Throws e, w')"
  from h have l: "getLanguage env language = Some cfg" by simp
  from executeCode_catches[OF l t]
  show "fst (executeCode env code language inp tcs w) =
           Returns \<lparr>output' = [], error = error_message e,
                    executionTime = clock env (clock_reads w') - clock env (clock_reads w),
                    status = StatusError, testCases = None\<rparr>" .
next
  assume h: "getLanguage env language = Some cfg \<and> (\<forall>k. StdinError \<notin> set (child env k))"
    and m: "fs_rejects env (length (fs_ops w)) (Mkdir (path_join env (TEMP_DIR env) (uuidv4 env)))
         = Some e"
  from h have l: "getLanguage env language = Some cfg" by simp
  have "fs_rejects env (length (fs_ops (w\<lparr>clock_reads := Suc (clock_reads w)\<rparr>)))
      (Mkdir (path_join env (TEMP_DIR env) (uuidv4 env))) = Some e"
    using m by simp
  from executeCode_catches[OF l try_body_mkdir_rejected[OF this]]
  show "fst (executeCode env code language inp tcs w) =
           Returns \<lparr>output' = [], error = error_message e,
                    executionTime = clock env (Suc (clock_reads w)) - clock env (clock_reads w),
                    status = StatusError, testCases = None\<rparr>"
    by simp
next
  assume h: "getLanguage env language = Some cfg \<and> (\<forall>k. StdinError \<notin> set (child env k))"
    and c: "compile cfg = Some cc \<and>
       write_source env cfg code (path_join env (TEMP_DIR env) (uuidv4 env))
         (w\<lparr>clock_reads := Suc (clock_reads w)\<rparr>) = (Next (filepath, fname), wa) \<and>
       cache_lookup env cfg
         (path_join env (path_join env (CACHE_DIR env) (name cfg))
            (cacheKey (sha256_hex env) cfg cc code))
         (path_join env (TEMP_DIR env) (uuidv4 env))
         (snd (ensureDir env (CACHE_DIR env) wa)) = (Next False, wb)"
    and r: "child_outcome (child env (length (spawns wb))) = Some (Inr cr) \<and> exitCode cr \<noteq> 0"
  from h have l: "getLanguage env language = Some cfg" by simp
  from c have 1: "compile cfg = Some cc"
    and 2: "write_source env cfg code (path_join env (TEMP_DIR env) (uuidv4 env))
         (w\<lparr>clock_reads := Suc (clock_reads w)\<rparr>) = (Next (filepath, fname), wa)"
    and 3: "cache_lookup env cfg
         (path_join env (path_join env (CACHE_DIR env) (name cfg))
            (cacheKey (sha256_hex env) cfg cc code))
         (path_join env (TEMP_DIR env) (uuidv4 env))
         (snd (ensureDir env (CACHE_DIR env) wa)) = (Next False, wb)"
    by simp_all
  from r have 4: "child_outcome (child env (length (spawns wb))) = Some (Inr cr)"
    and 5: "exitCode cr \<noteq> 0"
    by simp_all
  from executeCode_compile_failed[OF l 1 refl 2 3 4 5, of inp tcs]
  show "fst (executeCode env code language inp tcs w) =
           Returns \<lparr>output' = [],
                    error = ''Compilation failed: '' @
                      (if stderr cr = [] then stdout cr else stderr cr),
                    executionTime = clock env (clock_reads wb) - clock env (clock_reads w),
                    status = StatusError, testCases = None\<rparr>"
    by blast
next
  assume h: "getLanguage env language = Some cfg \<and> (\<forall>k. StdinError \<notin> set (child env k))"
    and c: "compile cfg = Some cc \<and>
       write_source env cfg code (path_join env (TEMP_DIR env) (uuidv4 env))
         (w\<lparr>clock_reads := Suc (clock_reads w)\<rparr>) = (Next (filepath, fname), wa) \<and>
       cache_lookup env cfg
         (path_join env (path_join env (CACHE_DIR env) (name cfg))
            (cacheKey (sha256_hex env) cfg cc code))
         (path_join env (TEMP_DIR env) (uuidv4 env))
         (snd (ensureDir env (CACHE_DIR env) wa)) = (Next False, wb)"
    and r: "child_outcome (child env (length (spawns wb))) = Some (Inl e)"
  from h have l: "getLanguage env language = Some cfg" by simp
  from c have 1: "compile cfg = Some cc"
    and 2: "write_source env cfg code (path_join env (TEMP_DIR env) (uuidv4 env))
         (w\<lparr>clock_reads := Suc (clock_reads w)\<rparr>) = (Next (filepath, fname), wa)"
    and 3: "cache_lookup env cfg
         (path_join env (path_join env (CACHE_DIR env) (name cfg))
            (cacheKey (sha256_hex env) cfg cc code))
         (path_join env (TEMP_DIR env) (uuidv4 env))
         (snd (ensureDir env (CACHE_DIR env) wa)) = (Next False, wb)"
    by simp_all
  from executeCode_compile_rejected[OF l 1 refl 2 3 r, of inp tcs]
  show "fst (executeCode env code language inp tcs w) =
              Returns \<lparr>output' = [], error = error_message e,
                       executionTime = clock env (clock_reads wb) - clock env (clock_reads w),
                       status = StatusError, testCases = None\<rparr>" .
next
  assume h: "getLanguage env language = Some cfg \<and> (\<forall>k. StdinError \<notin> set (child env k))"
    and s: "run_setup env code language w = Some (cfg, sessionDir, filepath, fname, w2) \<and>
       (tcs = None \<or> tcs = Some []) \<and>
       child_outcome (child env (length (spawns w2))) = Some (Inl e)"
  from h have "inp = [] \<or> StdinError \<notin> set (child env (length (spawns w2)))" by simp
  with s show "fst (executeCode env code language inp tcs w) =
           Returns \<lparr>output' = [], error = error_message e,
                    executionTime = clock env (clock_reads w2) - clock env (clock_reads w),
                    status = StatusError, testCases = None\<rparr>"
    using single_run_rejected by blast
next
  assume h: "getLanguage env language = Some cfg \<and> (\<forall>k. StdinError \<notin> set (child env k))"
    and s: "run_setup env code language w = Some (cfg, sessionDir, filepath, fname, w2) \<and>
       tcs = Some cases \<and> cases \<noteq> []"
  from h have a: "\<forall>k. StdinError \<notin> set (child env k)" by simp
  from s have 1: "run_setup env code language w = Some (cfg, sessionDir, filepath, fname, w2)"
    and 2: "tcs = Some cases" and 3: "cases \<noteq> []"
    by simp_all
  from test_mode_errors_recorded[OF 1 2 3 a, of inp]
  show "\<exists>rs r. fst (executeCode env code language inp tcs w) = Returns r \<and>
            status r = StatusSuccess \<and> testCases r = Some rs \<and> length rs = length cases \<and>
            (\<forall>i < length cases. \<forall>e.
               child_outcome (child env (length (spawns w2) + i)) = Some (Inl e) \<longrightarrow>
                 res_error (rs ! i) = Some (error_message e) \<and>
                 ((\<forall>k x. ProcError x \<in> set (child env k) \<longrightarrow> error_message x \<noteq> []) \<longrightarrow>
                    error_message e \<noteq> []))" .
qed

lemma example_languages:
  "getLanguage (example_env procs) ''brainfuck'' = None"
  "getLanguage (example_env procs) ''python'' = Some example_python"
  "getLanguage (example_env procs) ''cpp'' = Some example_cpp"
  "getLanguage (example_readonly_env procs) ''python'' = Some example_python"
  by (simp_all add: example_env_def example_readonly_env_def)

lemma example_compile_setup:
  "compile example_cpp =
     Some \<lparr>c_command = ''g++'', c_args = [''-o'', ''program'', ''{file}''], c_timeout = 10000\<rparr>"
  "write_source (example_env procs) example_cpp ''int main({}''
     (path_join (example_env procs) (TEMP_DIR (example_env procs)) (uuidv4 (example_env procs)))
     (initial_world\<lparr>clock_reads := Suc (clock_reads initial_world)\<rparr>) =
     (Next (''/tmp/code-execution/s1/main.cpp'', ''main.cpp''),
      \<lparr>clock_reads = 1, spawns = [],
       fs_ops = [Mkdir ''/tmp/code-execution/s1'',
                 WriteFile ''/tmp/code-execution/s1/main.cpp'' ''int main({}'']\<rparr>)"
  "cache_lookup (example_env procs) example_cpp
     (path_join (example_env procs)
        (path_join (example_env procs) (CACHE_DIR (example_env procs)) (name example_cpp))
        (cacheKey (sha256_hex (example_env procs)) example_cpp
           \<lparr>c_command = ''g++'', c_args = [''-o'', ''program'', ''{file}''], c_timeout = 10000\<rparr>
           ''int main({}''))
     (path_join (example_env procs) (TEMP_DIR (example_env procs)) (uuidv4 (example_env procs)))
     (snd (ensureDir (example_env procs) (CACHE_DIR (example_env procs))
        \<lparr>clock_reads = 1, spawns = [],
         fs_ops = [Mkdir ''/tmp/code-execution/s1'',
                   WriteFile ''/tmp/code-execution/s1/main.cpp'' ''int main({}'']\<rparr>)) =
     (Next False,
      \<lparr>clock_reads = 1, spawns = [],
       fs_ops = [Mkdir ''/tmp/code-execution/s1'',
                 WriteFile ''/tmp/code-execution/s1/main.cpp'' ''int main({}'',
                 Mkdir ''/tmp/sentinel-cache'',
                 Stat (''/tmp/sentinel-cache/cpp/cpp:g++:-o program {file}'' @ [CHR 0x0A] @
                       ''int main({}/program'')]\<rparr>)"
  by (simp_all add: eval_simps)

lemma example_runtime:
  "\<forall>k. StdinError \<notin> set (child (example_env example_hang) k)"
  "\<forall>k. StdinError \<notin> set (child (example_readonly_env example_hang) k)"
  "\<forall>k. StdinError \<notin> set (child (example_env example_compile_error) k)"
  "\<forall>k. StdinError \<notin> set (child (example_env example_procs) k)"
  by (auto simp: example_env_def example_readonly_env_def example_hang_def
      example_compile_error_def example_procs_def)

theorem executeCode_throws_only_unsupported_witness:
  "getLanguage (example_env example_hang) ''brainfuck'' = None \<and>
   fst (executeCode (example_env example_hang) ''+[.]'' ''brainfuck'' [] None initial_world) =
     Throws (Error ''Unsupported language: brainfuck'') \<and>
   getLanguage (example_env example_hang) ''python'' = Some example_python \<and>
   child_outcome (example_hang 0) = Some (Inl (Error ''Execution timeout'')) \<and>
   fst (executeCode (example_env example_hang) ''print(1/0)'' ''python'' [] None initial_world) =
     Returns \<lparr>output' = [], error = ''Execution timeout'', executionTime = 10,
              status = StatusError, testCases = None\<rparr> \<and>
   fs_rejects (example_readonly_env example_hang) 0 (Mkdir ''/tmp/code-execution/s1'') =
     Some (Error ''EACCES: permission denied'') \<and>
   fst (executeCode (example_readonly_env example_hang) ''print(1/0)'' ''python'' [] None
          initial_world) =
     Returns \<lparr>output' = [], error = ''EACCES: permission denied'', executionTime = 10,
              status = StatusError, testCases = None\<rparr> \<and>
   child_outcome (example_compile_error 0) =
     Some (Inr \<lparr>stdout = [], stderr = ''main.cpp:1: error'', exitCode = 1\<rparr>) \<and>
   fst (executeCode (example_env example_compile_error) ''int main({}'' ''cpp'' [] None
          initial_world) =
     Returns \<lparr>output' = [], error = ''Compilation failed: main.cpp:1: error'',
              executionTime = 10, status = StatusError, testCases = None\<rparr> \<and>
   (\<exists>rs r. fst (executeCode (example_env example_procs) ''print(2*int(input()))'' ''python'' []
                 (Some example_cases) initial_world) = Returns r \<and>
      status r = StatusSuccess \<and> testCases r = Some rs \<and> length rs = 4 \<and>
      res_error (rs ! 1) = Some ''Execution timeout'')"
proof -
  let ?w2 = "\<lparr>clock_reads = 1, spawns = [],
            fs_ops = [Mkdir ''/tmp/code-execution/s1'',
                      WriteFile ''/tmp/code-execution/s1/main.py'' ''print(1/0)'']\<rparr>"
  have a: "fst (executeCode (example_env example_hang) ''+[.]'' ''brainfuck'' [] None
      initial_world) = Throws (Error ''Unsupported language: brainfuck'')"
    using executeCode_throws_only_unsupported[where env = "example_env example_hang"
        and language = "''brainfuck''" and code = "''+[.]''" and inp = "[]" and tcs = None
        and w = initial_world, THEN conjunct1, THEN mp, OF example_languages(1)]
    by simp
  have hh: "getLanguage (example_env example_hang) ''python'' = Some example_python \<and>
      (\<forall>k. StdinError \<notin> set (child (example_env example_hang) k))"
    using example_languages(2)[of example_hang] example_runtime(1) by blast
  have h: "run_setup (example_env example_hang) ''print(1/0)'' ''python'' initial_world =
      Some (example_python, ''/tmp/code-execution/s1'', ''/tmp/code-execution/s1/main.py'',
            ''main.py'', ?w2) \<and>
      ((None :: TestCase list option) = None \<or> (None :: TestCase list option) = Some []) \<and>
      child_outcome (child (example_env example_hang) (length (spawns ?w2))) =
      Some (Inl (Error ''Execution timeout''))"
    using example_single_setup[of example_hang]
    by (simp add: example_env_def example_single_outcomes)
  note th = executeCode_throws_only_unsupported[where env = "example_env example_hang"
        and language = "''python''" and cfg = example_python and code = "''print(1/0)''"
        and inp = "[]" and tcs = None and w = initial_world
        and e = "Error ''Execution timeout''" and sessionDir = "''/tmp/code-execution/s1''"
        and filepath = "''/tmp/code-execution/s1/main.py''" and fname = "''main.py''"
        and ?w2.0 = ?w2, THEN conjunct2, THEN mp, OF hh]
  have b: "fst (executeCode (example_env example_hang) ''print(1/0)'' ''python'' [] None
      initial_world) =
     Returns \<lparr>output' = [], error = ''Execution timeout'', executionTime = 10,
              status = StatusError, testCases = None\<rparr>"
    using th[THEN conjunct2, THEN conjunct2, THEN conjunct2, THEN conjunct2, THEN conjunct2,
        THEN conjunct1, THEN mp, OF h]
    by (simp add: example_env_def initial_world_def)
  have hr: "getLanguage (example_readonly_env example_hang) ''python'' = Some example_python \<and>
      (\<forall>k. StdinError \<notin> set (child (example_readonly_env example_hang) k))"
    using example_languages(4)[of example_hang] example_runtime(2) by blast
  have m: "fs_rejects (example_readonly_env example_hang) (length (fs_ops initial_world))
      (Mkdir (path_join (example_readonly_env example_hang)
         (TEMP_DIR (example_readonly_env example_hang)) (uuidv4 (example_readonly_env example_hang))))
      = Some (Error ''EACCES: permission denied'')"
    by (simp add: example_readonly_env_def)
  note tr = executeCode_throws_only_unsupported[where env = "example_readonly_env example_hang"
        and language = "''python''" and cfg = example_python and code = "''print(1/0)''"
        and inp = "[]" and tcs = None and w = initial_world
        and e = "Error ''EACCES: permission denied''", THEN conjunct2, THEN mp, OF hr]
  have c: "fst (executeCode (example_readonly_env example_hang) ''print(1/0)'' ''python'' [] None
          initial_world) =
     Returns \<lparr>output' = [], error = ''EACCES: permission denied'', executionTime = 10,
              status = StatusError, testCases = None\<rparr>"
    using tr[THEN conjunct2, THEN conjunct2, THEN conjunct2, THEN conjunct1, THEN mp, OF m]
    by (simp add: example_readonly_env_def example_env_def initial_world_def)
  let ?wa = "\<lparr>clock_reads = 1, spawns = [],
            fs_ops = [Mkdir ''/tmp/code-execution/s1'',
                      WriteFile ''/tmp/code-execution/s1/main.cpp'' ''int main({}'']\<rparr>"
  let ?wb = "\<lparr>clock_reads = 1, spawns = [],
       fs_ops = [Mkdir ''/tmp/code-execution/s1'',
                 WriteFile ''/tmp/code-execution/s1/main.cpp'' ''int main({}'',
                 Mkdir ''/tmp/sentinel-cache'',
                 Stat (''/tmp/sentinel-cache/cpp/cpp:g++:-o program {file}'' @ [CHR 0x0A] @
                       ''int main({}/program'')]\<rparr>"
  let ?cc = "\<lparr>c_command = ''g++'', c_args = [''-o'', ''program'', ''{file}''],
                   c_timeout = 10000\<rparr>"
  let ?cr = "\<lparr>stdout = [], stderr = ''main.cpp:1: error'', exitCode = 1\<rparr>"
  have hc: "getLanguage (example_env example_compile_error) ''cpp'' = Some example_cpp \<and>
      (\<forall>k. StdinError \<notin> set (child (example_env example_compile_error) k))"
    using example_languages(3)[of example_compile_error] example_runtime(3) by blast
  have co: "child_outcome (example_compile_error 0) = Some (Inr ?cr)"
    by (simp add: run_simps example_compile_error_def trim_def isWhiteSpace_def)
  then have cr: "child_outcome (child (example_env example_compile_error) (length (spawns ?wb))) =
      Some (Inr ?cr) \<and> exitCode ?cr \<noteq> 0"
    by (simp add: example_env_def)
  have cs: "compile example_cpp = Some ?cc \<and>
      write_source (example_env example_compile_error) example_cpp ''int main({}''
        (path_join (example_env example_compile_error)
           (TEMP_DIR (example_env example_compile_error))
           (uuidv4 (example_env example_compile_error)))
        (initial_world\<lparr>clock_reads := Suc (clock_reads initial_world)\<rparr>) =
        (Next (''/tmp/code-execution/s1/main.cpp'', ''main.cpp''), ?wa) \<and>
      cache_lookup (example_env example_compile_error) example_cpp
        (path_join (example_env example_compile_error)
           (path_join (example_env example_compile_error)
              (CACHE_DIR (example_env example_compile_error)) (name example_cpp))
           (cacheKey (sha256_hex (example_env example_compile_error)) example_cpp ?cc
              ''int main({}''))
        (path_join (example_env example_compile_error)
           (TEMP_DIR (example_env example_compile_error))
           (uuidv4 (example_env example_compile_error)))
        (snd (ensureDir (example_env example_compile_error)
           (CACHE_DIR (example_env example_compile_error)) ?wa)) = (Next False, ?wb)"
    using example_compile_setup(1) example_compile_setup(2,3)[of example_compile_error]
    by blast
  note tc = executeCode_throws_only_unsupported[where env = "example_env example_compile_error"
        and language = "''cpp''" and cfg = example_cpp and code = "''int main({}''"
        and inp = "[]" and tcs = None and w = initial_world
        and cc = ?cc
        and filepath = "''/tmp/code-execution/s1/main.cpp''" and fname = "''main.cpp''"
        and wa = ?wa and wb = ?wb and cr = ?cr, THEN conjunct2, THEN mp, OF hc]
  have d: "fst (executeCode (example_env example_compile_error) ''int main({}'' ''cpp'' [] None
          initial_world) =
     Returns \<lparr>output' = [], error = ''Compilation failed: main.cpp:1: error'',
              executionTime = 10, status = StatusError, testCases = None\<rparr>"
    using tc[THEN conjunct2, THEN conjunct2, THEN conjunct2, THEN conjunct2, THEN conjunct1,
        THEN mp, OF cs, THEN conjunct1, THEN mp, OF cr]
    by (simp add: example_env_def initial_world_def)
  let ?w3 = "\<lparr>clock_reads = 1, spawns = [],
            fs_ops = [Mkdir ''/tmp/code-execution/s1'',
                      WriteFile ''/tmp/code-execution/s1/main.py'' ''print(2*int(input()))'']\<rparr>"
  have hp: "getLanguage (example_env example_procs) ''python'' = Some example_python \<and>
      (\<forall>k. StdinError \<notin> set (child (example_env example_procs) k))"
    using example_languages(2)[of example_procs] example_runtime(4) by blast
  have ts: "run_setup (example_env example_procs) ''print(2*int(input()))'' ''python''
      initial_world =
      Some (example_python, ''/tmp/code-execution/s1'', ''/tmp/code-execution/s1/main.py'',
            ''main.py'', ?w3) \<and>
      Some example_cases = Some example_cases \<and> example_cases \<noteq> []"
    using example_setup example_cases_facts(1) by blast
  note tp = executeCode_throws_only_unsupported[where env = "example_env example_procs"
        and language = "''python''" and cfg = example_python
        and code = "''print(2*int(input()))''" and inp = "[]" and tcs = "Some example_cases"
        and w = initial_world and sessionDir = "''/tmp/code-execution/s1''"
        and filepath = "''/tmp/code-execution/s1/main.py''" and fname = "''main.py''"
        and ?w2.0 = ?w3 and cases = example_cases, THEN conjunct2, THEN mp, OF hp]
  from tp[THEN conjunct2, THEN conjunct2, THEN conjunct2, THEN conjunct2, THEN conjunct2,
        THEN conjunct2, THEN mp, OF ts]
  obtain rs r where
    t: "fst (executeCode (example_env example_procs) ''print(2*int(input()))'' ''python'' []
                 (Some example_cases) initial_world) = Returns r"
      "status r = StatusSuccess" "testCases r = Some rs" "length rs = length example_cases"
    and per: "\<forall>i < length example_cases. \<forall>e.
               child_outcome (child (example_env example_procs) (length (spawns ?w3) + i))
                 = Some (Inl e) \<longrightarrow>
                 res_error (rs ! i) = Some (error_message e) \<and>
                 ((\<forall>k x. ProcError x \<in> set (child (example_env example_procs) k) \<longrightarrow>
                     error_message x \<noteq> []) \<longrightarrow> error_message e \<noteq> [])"
    by blast
  have "(1::nat) < length example_cases" by (simp add: example_cases_facts)
  from per[rule_format, OF this, of "Error ''Execution timeout''"] example_outcomes(2)
  have "res_error (rs ! 1) = Some ''Execution timeout''"
    by (simp add: example_child)
  with t have f: "\<exists>rs r. fst (executeCode (example_env example_procs) ''print(2*int(input()))''
                 ''python'' [] (Some example_cases) initial_world) = Returns r \<and>
      status r = StatusSuccess \<and> testCases r = Some rs \<and> length rs = 4 \<and>
      res_error (rs ! 1) = Some ''Execution timeout''"
    by (auto simp: example_cases_facts)
  show ?thesis
    using a b c d f co example_languages(1,2)[of example_hang] example_single_outcomes(3)[of 0]
    by (simp add: example_readonly_env_def)
qed

text \<open>
  The claim C1 as stated, at a language that is not registered: the call throws. And at a
  registered language, with a large input that the program does not read: the call
  neither throws nor returns.
\<close>

theorem unsupported_language_counterexample:
  "getLanguage (example_env example_hang) ''brainfuck'' = None \<and>
   executeCode (example_env example_hang) ''+[.]'' ''brainfuck'' [] None initial_world =
     (Throws (Error ''Unsupported language: brainfuck''),
      \<lparr>clock_reads = 1, spawns = [], fs_ops = []\<rparr>) \<and>
   getLanguage (example_env example_unread) ''python'' = Some example_python \<and>
   fst (executeCode (example_env example_unread) ''print(1)'' ''python'' large_input None
          initial_world) = ProcessDied"
  by (simp add: eval_simps example_unread_def large_input_nonempty)

subsection \<open>The compile failure in the two executors\<close>

text \<open>
  Claim C2 at the executor without the cache. The C++ source does not compile: the compile
  command writes an error to stderr and exits with code 1. The executor with the cache
  returns the compile failure after one spawn. The executor without the cache drops the
  result of the compile command and enters the run phase: it spawns \<^verbatim>\<open>./program\<close>,
  which does not exist, and returns the spawn error, with no word of the compilation.
\<close>

theorem uncached_executor_ignores_compile_failure:
  "child_outcome (example_compile_error 0) =
     Some (Inr \<lparr>stdout = [], stderr = ''main.cpp:1: error'', exitCode = 1\<rparr>) \<and>
   executeCode_uncached (example_env example_compile_error) ''int main({}'' ''cpp'' [] None
       initial_world =
     (Returns \<lparr>output' = [], error = ''spawn ./program ENOENT'', executionTime = 10,
               status = StatusError, testCases = None\<rparr>,
      \<lparr>clock_reads = 2,
       spawns = [(''g++'', [''-o'', ''program'', ''/tmp/code-execution/s1/main.cpp''],
                  ''/tmp/code-execution/s1'', [], 10000),
                 (''./program'', [], ''/tmp/code-execution/s1'', [], 5000)],
       fs_ops = [Mkdir ''/tmp/code-execution/s1'',
                 WriteFile ''/tmp/code-execution/s1/main.cpp'' ''int main({}'',
                 Rm ''/tmp/code-execution/s1'']\<rparr>) \<and>
   fst (executeCode (example_env example_compile_error) ''int main({}'' ''cpp'' [] None
          initial_world) =
     Returns \<lparr>output' = [], error = ''Compilation failed: main.cpp:1: error'',
              executionTime = 10, status = StatusError, testCases = None\<rparr> \<and>
   spawns (snd (executeCode (example_env example_compile_error) ''int main({}'' ''cpp'' [] None
          initial_world)) =
     [(''g++'', [''-o'', ''program'', ''/tmp/code-execution/s1/main.cpp''],
       ''/tmp/code-execution/s1'', [], 10000)]"
  by (simp add: eval_simps example_compile_error_def executeCode_uncached_def
      try_body_uncached_def prepare_uncached_def compile_phase_uncached_def)

end
